theory Spec2Isabelle
  imports Main "HOL-Library.Word"
begin

unbundle bit_operations_syntax

section \<open>Data model\<close>

text \<open>
  A Go string is a byte sequence holding UTF-8 text. The planner reads names in three
  ways: rune by rune (\<open>range\<close>, \<open>[]rune(s)\<close>), as raw bytes (\<open>[]byte(s)\<close>, \<open><\<close>) and
  by equality. A name is modelled by its sequence of Unicode scalar values (what
  \<open>[]rune(s)\<close> returns for well-formed UTF-8); its bytes are recovered by \<open>utf8_string\<close>.
\<close>

type_synonym rune = nat
type_synonym gostring = "rune list"
type_synonym byte = "8 word"
type_synonym uint16 = "16 word"
type_synonym uint32 = "32 word"

definition runes :: "string \<Rightarrow> gostring" where
  "runes s = map of_char s"

definition SectorSize :: nat where "SectorSize = 2048"
definition JolietMaxFilenameChars :: nat where "JolietMaxFilenameChars = 64"
definition SystemAreaNumSectors :: nat where "SystemAreaNumSectors = 16"
definition drFixedPartSize :: nat where "drFixedPartSize = 33"
definition ptRecFixedPartSize :: nat where "ptRecFixedPartSize = 8"

section \<open>Sector arithmetic\<close>

definition sectorsToContainBytes :: "int \<Rightarrow> uint32" where
  "sectorsToContainBytes byteSize =
     (if byteSize = 0 then 0
      else (word_of_int byteSize + word_of_nat SectorSize - 1) div word_of_nat SectorSize)"

definition sectorsToContainFileBytes :: "uint32 \<Rightarrow> uint32" where
  "sectorsToContainFileBytes fileDataSizeBytes =
     (if fileDataSizeBytes = 0 then 1
      else (fileDataSizeBytes + word_of_nat SectorSize - 1) div word_of_nat SectorSize)"

section \<open>Strings\<close>

abbreviation ch :: "char \<Rightarrow> rune" where
  "ch c \<equiv> of_char c"

text \<open>
  \<open>unicode.ToUpper\<close> belongs to the Go library. The sanitiser only asks of an upper-cased
  rune whether it is one of \<open>A-Z\<close>, \<open>0-9\<close>, \<open>_\<close> and \<open>.\<close>; the runes whose upper case is
  such a character are \<open>a-z\<close>, U+0131 (dotless i) and U+017F (long s). Every other rune
  is left as it is here: its upper case is outside ASCII as well.
\<close>

definition unicode_ToUpper :: "rune \<Rightarrow> rune" where
  "unicode_ToUpper r =
     (if ch CHR ''a'' \<le> r \<and> r \<le> ch CHR ''z'' then r - 32
      else if r = 0x131 then ch CHR ''I''
      else if r = 0x17F then ch CHR ''S''
      else r)"

definition strings_ToUpper :: "gostring \<Rightarrow> gostring" where
  "strings_ToUpper s = map unicode_ToUpper s"

text \<open>\<open>strings.LastIndex\<close> for a one-character separator: -1 when it does not occur.\<close>

fun strings_LastIndex :: "gostring \<Rightarrow> rune \<Rightarrow> int" where
  "strings_LastIndex [] c = -1"
| "strings_LastIndex (x # xs) c =
     (let r = strings_LastIndex xs c
      in if r \<noteq> -1 then r + 1 else if x = c then 0 else -1)"

definition strings_Contains :: "gostring \<Rightarrow> rune \<Rightarrow> bool" where
  "strings_Contains s c = (c \<in> set s)"

definition strings_ReplaceAll :: "gostring \<Rightarrow> rune \<Rightarrow> rune \<Rightarrow> gostring" where
  "strings_ReplaceAll s old new = map (\<lambda>r. if r = old then new else r) s"

text \<open>\<open>strings.SplitN(s, sep, 2)\<close>: cut at the first separator, if there is one.\<close>

definition strings_SplitN2 :: "gostring \<Rightarrow> rune \<Rightarrow> gostring list" where
  "strings_SplitN2 s sep =
     (if sep \<in> set s
      then [takeWhile (\<lambda>r. r \<noteq> sep) s, tl (dropWhile (\<lambda>r. r \<noteq> sep) s)]
      else [s])"

definition strings_HasPrefix :: "gostring \<Rightarrow> gostring \<Rightarrow> bool" where
  "strings_HasPrefix s p = (take (length p) s = p)"

section \<open>Name sanitiser\<close>

definition sanitizeRune :: "bool \<Rightarrow> rune \<Rightarrow> rune" where
  "sanitizeRune allowDot r =
     (if (ch CHR ''A'' \<le> r \<and> r \<le> ch CHR ''Z'') \<or> (ch CHR ''0'' \<le> r \<and> r \<le> ch CHR ''9'')
          \<or> r = ch CHR ''_'' then r
      else if allowDot \<and> r = ch CHR ''.'' then ch CHR ''.''
      else ch CHR ''_'')"

definition sanitizePartFunc :: "gostring \<Rightarrow> nat \<Rightarrow> bool \<Rightarrow> gostring" where
  "sanitizePartFunc part maxLength allowDot =
     (let sanitized = map (sanitizeRune allowDot) (strings_ToUpper part)
      in if length sanitized > maxLength then take maxLength sanitized else sanitized)"

text \<open>
  \<open>sanitizeISO9660Name\<close>, in the order of the source: the split of a file name at its
  last dot, the shared \<open>sanitizePartFunc\<close>, the directory branch, and for files the
  second split of a dotted base and the assembly of the final name.
\<close>

definition splitLastDot :: "gostring \<Rightarrow> bool \<Rightarrow> gostring \<times> gostring" where
  "splitLastDot nameToProcess isDirectory =
     (if \<not> isDirectory then
        (let lastDot = strings_LastIndex nameToProcess (ch CHR ''.'')
         in if lastDot \<noteq> -1 \<and> lastDot < int (length nameToProcess) - 1
            then (take (nat lastDot) nameToProcess, drop (nat lastDot + 1) nameToProcess)
            else (nameToProcess, []))
      else (nameToProcess, []))"

definition resplitDottedBase :: "gostring \<Rightarrow> gostring \<Rightarrow> gostring \<times> gostring" where
  "resplitDottedBase finalBase finalExt =
     (if strings_Contains finalBase (ch CHR ''.'') \<and> finalExt = [] then
        (let parts = strings_SplitN2 finalBase (ch CHR ''.'')
         in if length parts = 2 then
              (let potentialBase = sanitizePartFunc (parts ! 0) 8 False;
                   potentialExt = sanitizePartFunc (parts ! 1) 3 False
               in if potentialBase \<noteq> []
                  then (potentialBase, if potentialExt \<noteq> [] then potentialExt else finalExt)
                  else (finalBase, finalExt))
            else (finalBase, finalExt))
      else (finalBase, finalExt))"

definition assembleFileName :: "gostring \<Rightarrow> gostring \<Rightarrow> gostring" where
  "assembleFileName finalBase0 finalExt =
     (let finalBase = (if length finalBase0 > 8 then take 8 finalBase0 else finalBase0);
          finalName = finalBase @ (if finalExt \<noteq> [] then ch CHR ''.'' # finalExt else []);
          finalName = (if finalName = [] \<or> finalName = runes ''.''
                       then runes ''FILE'' else finalName)
      in if strings_HasPrefix finalName (runes ''.'') \<and> length finalName > 1
            \<and> finalExt \<noteq> [] \<and> finalBase = []
         then finalExt else finalName)"

definition sanitizeISO9660Name :: "gostring \<Rightarrow> bool \<Rightarrow> gostring" where
  "sanitizeISO9660Name originalName isDirectory =
     (let nameToProcess = originalName;
          (base, ext) = splitLastDot nameToProcess isDirectory;
          maxBaseLen = 8;
          maxExtLen = 3;
          sanitizedBase = sanitizePartFunc base maxBaseLen (\<not> isDirectory)
      in if isDirectory then
           (let sanitizedBase = strings_ReplaceAll sanitizedBase (ch CHR ''.'') (ch CHR ''_'');
                sanitizedBase = (if length sanitizedBase > 8 then take 8 sanitizedBase
                                 else sanitizedBase)
            in if sanitizedBase = [] then runes ''DIR'' else sanitizedBase)
         else
           (let finalBase = sanitizedBase;
                finalExt = (if ext \<noteq> [] then sanitizePartFunc ext maxExtLen False else []);
                (finalBase, finalExt) = resplitDottedBase finalBase finalExt
            in assembleFileName finalBase finalExt))"

definition truncateJolietName :: "gostring \<Rightarrow> gostring" where
  "truncateJolietName originalName =
     (if originalName = [0] \<or> originalName = runes ''.'' \<or> originalName = runes ''..''
      then originalName
      else if length originalName > JolietMaxFilenameChars
           then take JolietMaxFilenameChars originalName
           else originalName)"

section \<open>Encodings\<close>

text \<open>\<open>utf16.Encode\<close>: one code unit for a scalar of the BMP, a surrogate pair above it,
  U+FFFD for anything that is not a scalar.\<close>

definition utf16_EncodeRune :: "rune \<Rightarrow> uint16 list" where
  "utf16_EncodeRune v =
     (if v < 0xD800 \<or> (0xE000 \<le> v \<and> v < 0x10000) then [word_of_nat v]
      else if 0x10000 \<le> v \<and> v \<le> 0x10FFFF then
        (let r = v - 0x10000
         in [word_of_nat (0xD800 + (r div 1024) mod 1024), word_of_nat (0xDC00 + r mod 1024)])
      else [0xFFFD])"

definition utf16_Encode :: "gostring \<Rightarrow> uint16 list" where
  "utf16_Encode s = concat (map utf16_EncodeRune s)"

definition encodeUTF16BE :: "gostring \<Rightarrow> byte list" where
  "encodeUTF16BE s =
     concat (map (\<lambda>rVal. [ucast (drop_bit 8 rVal), ucast rVal]) (utf16_Encode s))"

text \<open>The bytes of a Go string (\<open>[]byte(s)\<close>): the UTF-8 encoding of its runes.\<close>

definition utf8_EncodeRune :: "rune \<Rightarrow> byte list" where
  "utf8_EncodeRune r =
     (if r \<le> 0x7F then [word_of_nat r]
      else if r \<le> 0x7FF then [word_of_nat (0xC0 + r div 64), word_of_nat (0x80 + r mod 64)]
      else if r > 0x10FFFF \<or> (0xD800 \<le> r \<and> r \<le> 0xDFFF) then [0xEF, 0xBF, 0xBD]
      else if r \<le> 0xFFFF then
        [word_of_nat (0xE0 + r div 4096), word_of_nat (0x80 + (r div 64) mod 64),
         word_of_nat (0x80 + r mod 64)]
      else
        [word_of_nat (0xF0 + r div 262144), word_of_nat (0x80 + (r div 4096) mod 64),
         word_of_nat (0x80 + (r div 64) mod 64), word_of_nat (0x80 + r mod 64)])"

definition utf8_string :: "gostring \<Rightarrow> byte list" where
  "utf8_string s = concat (map utf8_EncodeRune s)"

text \<open>\<open>bytes.Compare(a, b) < 0\<close>, which is also Go's \<open><\<close> on the bytes of two strings.\<close>

fun bytes_less :: "byte list \<Rightarrow> byte list \<Rightarrow> bool" where
  "bytes_less [] [] = False"
| "bytes_less [] (y # ys) = True"
| "bytes_less (x # xs) [] = False"
| "bytes_less (x # xs) (y # ys) = (x < y \<or> (x = y \<and> bytes_less xs ys))"

definition string_less :: "gostring \<Rightarrow> gostring \<Rightarrow> bool" where
  "string_less a b = bytes_less (utf8_string a) (utf8_string b)"

section \<open>Errors and the entity table\<close>

datatype error =
    PanicIndexOutOfRange
  | PanicTotalDRBytesZero
  | PanicFinalExtentSizeZero
  | PanicDirSizeZero
  | PanicDirSizeNotSectorMultiple
  | PanicDRLenMismatch
  | ErrPathTableLength
  | ErrListingTooLong
  | ErrReadDir
  | ErrInfo

definition bind :: "error + 'a \<Rightarrow> ('a \<Rightarrow> error + 'b) \<Rightarrow> error + 'b" where
  "bind m f = (case m of Inl e \<Rightarrow> Inl e | Inr v \<Rightarrow> f v)"

text \<open>Indexing a slice panics out of range.\<close>

definition index :: "'a list \<Rightarrow> nat \<Rightarrow> error + 'a" where
  "index xs i = (if i < length xs then Inr (xs ! i) else Inl PanicIndexOutOfRange)"

record fileEntry =
  originalName :: gostring
  diskPath :: gostring
  isDir :: bool
  level :: int
  parentIndex :: nat
  children :: "nat list"
  iso9660Name :: gostring
  jolietName :: gostring
  iso9660Size :: uint32
  jolietSize :: uint32
  iso9660Sector :: uint32
  jolietSector :: uint32
  actualISO9660DrSize :: int
  actualJolietDrSize :: int
  pathTableDirNum :: uint16
  isHidden :: bool

record ISOBuilder =
  fileEntries :: "fileEntry list"
  totalSectors :: uint32
  lbaPvdPathTableL :: uint32
  lbaPvdPathTableM :: uint32
  lbaSvdPathTableL :: uint32
  lbaSvdPathTableM :: uint32
  lbaPvdPathTableL2 :: uint32
  lbaPvdPathTableM2 :: uint32
  lbaSvdPathTableL2 :: uint32
  lbaSvdPathTableM2 :: uint32
  pvdPathTableLData :: "byte list"
  pvdPathTableMData :: "byte list"
  svdPathTableLData :: "byte list"
  svdPathTableMData :: "byte list"
  pvdRootDirExtentSize :: uint32
  svdRootDirExtentSize :: uint32

section \<open>Byte buffers\<close>

text \<open>\<open>copy(buf[off:], src)\<close> for \<open>off \<le> len(buf)\<close>: as many bytes as fit.\<close>

definition copy_at :: "byte list \<Rightarrow> nat \<Rightarrow> byte list \<Rightarrow> byte list" where
  "copy_at buf off src =
     take off buf @ take (length buf - off) src @ drop (off + length src) buf"

definition le32 :: "uint32 \<Rightarrow> byte list" where
  "le32 v = [ucast v, ucast (drop_bit 8 v), ucast (drop_bit 16 v), ucast (drop_bit 24 v)]"

definition be32 :: "uint32 \<Rightarrow> byte list" where
  "be32 v = [ucast (drop_bit 24 v), ucast (drop_bit 16 v), ucast (drop_bit 8 v), ucast v]"

definition le16 :: "uint16 \<Rightarrow> byte list" where
  "le16 v = [ucast v, ucast (drop_bit 8 v)]"

definition be16 :: "uint16 \<Rightarrow> byte list" where
  "be16 v = [ucast (drop_bit 8 v), ucast v]"

section \<open>Directory-record encoder\<close>

record directoryRecordFields =
  ExtendedAttributeRecordLength :: byte
  LocationExtent :: uint32
  DataLength :: uint32
  RecordingTime :: "byte list"
  FileFlags :: byte
  FileUnitSize :: byte
  InterleaveGapSize :: byte
  VolumeSequenceNumber :: uint16

definition marshalDirectoryRecord :: "directoryRecordFields \<Rightarrow> byte list \<Rightarrow> byte list" where
  "marshalDirectoryRecord drf identifier =
     (let identifierLen = (word_of_nat (length identifier) :: byte);
          recordLen0 = drFixedPartSize + unat identifierLen;
          recordLen = (if recordLen0 mod 2 \<noteq> 0 then recordLen0 + 1 else recordLen0);
          buf = replicate recordLen (0 :: byte);
          buf = buf[0 := word_of_nat recordLen];
          buf = buf[1 := ExtendedAttributeRecordLength drf];
          buf = copy_at buf 2 (le32 (LocationExtent drf));
          buf = copy_at buf 6 (be32 (LocationExtent drf));
          buf = copy_at buf 10 (le32 (DataLength drf));
          buf = copy_at buf 14 (be32 (DataLength drf));
          buf = copy_at buf 18 (take 7 (RecordingTime drf));
          buf = buf[25 := FileFlags drf];
          buf = buf[26 := FileUnitSize drf];
          buf = buf[27 := InterleaveGapSize drf];
          buf = copy_at buf 28 (le16 (VolumeSequenceNumber drf));
          buf = copy_at buf 30 (be16 (VolumeSequenceNumber drf));
          buf = buf[32 := identifierLen]
      in copy_at buf 33 identifier)"

text \<open>
  The recording time comes from the host: \<open>os.Stat\<close> on the entry's disk path, or
  the current time when the path is empty or cannot be read. Both are parameters:
  \<open>stat\<close> answers for a path (\<open>None\<close> when it fails), \<open>now\<close> is the clock.
\<close>

record gotime =
  Year :: int
  Month :: int
  Day :: int
  Hour :: int
  Minute :: int
  Second :: int

definition populateDirectoryRecordFields ::
  "(gostring \<Rightarrow> gotime option) \<Rightarrow> gotime \<Rightarrow> uint32 \<Rightarrow> uint32 \<Rightarrow> gostring \<Rightarrow> fileEntry
     \<Rightarrow> directoryRecordFields" where
  "populateDirectoryRecordFields stat now extentLBA extentOrDataSize drIDNameToEncode targetEntry =
     (let fileTime =
            (if diskPath targetEntry \<noteq> [] then
               (case stat (diskPath targetEntry) of Some t \<Rightarrow> t | None \<Rightarrow> now)
             else now);
          baseFileFlags = (if isDir targetEntry then (0 :: byte) OR 0x02 else 0);
          finalFileFlags =
            (if drIDNameToEncode \<noteq> runes ''.'' \<and> drIDNameToEncode \<noteq> runes ''..''
                \<and> drIDNameToEncode \<noteq> [] \<and> drIDNameToEncode \<noteq> [0]
             then (if isHidden targetEntry then baseFileFlags OR 0x01 else baseFileFlags)
             else baseFileFlags)
      in \<lparr> ExtendedAttributeRecordLength = 0,
           LocationExtent = extentLBA,
           DataLength = extentOrDataSize,
           RecordingTime =
             [word_of_int (Year fileTime - 1900), word_of_int (Month fileTime),
              word_of_int (Day fileTime), word_of_int (Hour fileTime),
              word_of_int (Minute fileTime), word_of_int (Second fileTime), 0],
           FileFlags = finalFileFlags,
           FileUnitSize = 0,
           InterleaveGapSize = 0,
           VolumeSequenceNumber = 1 \<rparr>)"

definition getDRIdentifierBytes :: "gostring \<Rightarrow> bool \<Rightarrow> bool \<Rightarrow> byte list" where
  "getDRIdentifierBytes name isJoliet isIdentifierForRootItself =
     (if isJoliet then
        (if isIdentifierForRootItself \<and> (name = [0] \<or> name = runes ''.'') then [0x00]
         else if name = runes ''.'' then encodeUTF16BE (runes ''.'')
         else if name = runes ''..'' then encodeUTF16BE (runes ''..'')
         else encodeUTF16BE name)
      else
        (if name = runes ''.'' \<or> (isIdentifierForRootItself \<and> name = []) then [0x00]
         else if name = runes ''..'' then [0x01]
         else utf8_string name))"

definition createDirectoryRecordBytes ::
  "(gostring \<Rightarrow> gotime option) \<Rightarrow> gotime \<Rightarrow> uint32 \<Rightarrow> uint32 \<Rightarrow> gostring \<Rightarrow> fileEntry
     \<Rightarrow> bool \<Rightarrow> byte list" where
  "createDirectoryRecordBytes stat now extentLBA extentOrDataSize drIDNameToEncode targetEntry isJoliet =
     (let drFields = populateDirectoryRecordFields stat now extentLBA extentOrDataSize
                       drIDNameToEncode targetEntry;
          isTargetEntryRoot = (pathTableDirNum targetEntry = 1);
          isNameForRootItself =
            (isTargetEntryRoot \<and>
               ((isJoliet \<and> (drIDNameToEncode = [0] \<or> drIDNameToEncode = runes ''.''))
                \<or> (\<not> isJoliet \<and> (drIDNameToEncode = [] \<or> drIDNameToEncode = runes ''.''))));
          identifierBytes = getDRIdentifierBytes drIDNameToEncode isJoliet isNameForRootItself
      in marshalDirectoryRecord drFields identifierBytes)"

definition calculateDirectoryRecordSize :: "byte list \<Rightarrow> int" where
  "calculateDirectoryRecordSize identifierBytes =
     (let length0 = int drFixedPartSize + int (length identifierBytes)
      in if length0 mod 2 \<noteq> 0 then length0 + 1 else length0)"

section \<open>Sorting\<close>

text \<open>
  \<open>sort.Slice\<close> belongs to the Go library: it reorders the slice so that no element is
  \<open>less\<close> than an element before it, and promises nothing about the order of elements
  that \<open>less\<close> does not separate. It is modelled by insertion sort (which is what the
  library runs on slices of at most 12 elements).
\<close>

fun insert_by :: "('a \<Rightarrow> 'a \<Rightarrow> bool) \<Rightarrow> 'a \<Rightarrow> 'a list \<Rightarrow> 'a list" where
  "insert_by lt x [] = [x]"
| "insert_by lt x (y # ys) = (if lt y x then y # insert_by lt x ys else x # y # ys)"

definition sort_Slice :: "('a \<Rightarrow> 'a \<Rightarrow> bool) \<Rightarrow> 'a list \<Rightarrow> 'a list" where
  "sort_Slice lt xs = foldr (insert_by lt) xs []"

section \<open>Path-table encoder\<close>

record pathTableRecordFields =
  ptExtendedAttributeRecordLength :: byte
  LocationOfExtent :: uint32
  ParentDirectoryNumber :: uint16

definition marshalPathTableRecord :: "pathTableRecordFields \<Rightarrow> byte list \<Rightarrow> bool \<Rightarrow> byte list" where
  "marshalPathTableRecord ptf identifier useBigEndian =
     (let identifierLen = (word_of_nat (length identifier) :: byte);
          recordFinalLen0 = ptRecFixedPartSize + unat identifierLen;
          recordFinalLen = (if length identifier mod 2 \<noteq> 0 then recordFinalLen0 + 1
                            else recordFinalLen0);
          buf = replicate recordFinalLen (0 :: byte);
          buf = buf[0 := identifierLen];
          buf = buf[1 := ptExtendedAttributeRecordLength ptf];
          buf = (if useBigEndian
                    then copy_at (copy_at buf 2 (be32 (LocationOfExtent ptf))) 6
                           (be16 (ParentDirectoryNumber ptf))
                    else copy_at (copy_at buf 2 (le32 (LocationOfExtent ptf))) 6
                           (le16 (ParentDirectoryNumber ptf)))
      in copy_at buf 8 identifier)"

text \<open>The identifier of a directory in a path table: \<open>0x00\<close> for directory number 1.\<close>

definition pathTableIdentifier :: "bool \<Rightarrow> fileEntry \<Rightarrow> byte list" where
  "pathTableIdentifier isJoliet d =
     (if pathTableDirNum d = 1 then [0x00]
      else if isJoliet then encodeUTF16BE (jolietName d)
      else utf8_string (iso9660Name d))"

definition parentDirNum :: "fileEntry list \<Rightarrow> fileEntry \<Rightarrow> uint16" where
  "parentDirNum es d = pathTableDirNum (es ! parentIndex d)"

text \<open>The comparison handed to \<open>sort.Slice\<close> in \<open>createPathTable\<close>.\<close>

definition pathTableLess :: "fileEntry list \<Rightarrow> bool \<Rightarrow> bool \<Rightarrow> fileEntry \<Rightarrow> fileEntry \<Rightarrow> bool" where
  "pathTableLess es isJoliet useBigEndian dirI dirJ =
     (if useBigEndian then
        (let nameIBytes = pathTableIdentifier isJoliet dirI;
             nameJBytes = pathTableIdentifier isJoliet dirJ
         in if parentIndex dirI \<noteq> parentIndex dirJ
               \<and> parentDirNum es dirI \<noteq> parentDirNum es dirJ
            then parentDirNum es dirI < parentDirNum es dirJ
            else bytes_less nameIBytes nameJBytes)
      else pathTableDirNum dirI < pathTableDirNum dirJ)"

definition pathTableDirs :: "fileEntry list \<Rightarrow> fileEntry list" where
  "pathTableDirs es = filter (\<lambda>fe. isDir fe \<and> pathTableDirNum fe > 0) es"

definition sortedPathTableDirs :: "fileEntry list \<Rightarrow> bool \<Rightarrow> bool \<Rightarrow> fileEntry list" where
  "sortedPathTableDirs es isJoliet useBigEndian =
     sort_Slice (pathTableLess es isJoliet useBigEndian) (pathTableDirs es)"

definition pathTableRecord :: "fileEntry list \<Rightarrow> bool \<Rightarrow> bool \<Rightarrow> fileEntry \<Rightarrow> byte list" where
  "pathTableRecord es isJoliet useBigEndian dir =
     (let identifierBytes = pathTableIdentifier isJoliet dir;
          parentNumber = (if pathTableDirNum dir = 1 then 1 else parentDirNum es dir);
          ptFields = \<lparr> ptExtendedAttributeRecordLength = 0,
                       LocationOfExtent = (if isJoliet then jolietSector dir else iso9660Sector dir),
                       ParentDirectoryNumber = parentNumber \<rparr>
      in marshalPathTableRecord ptFields identifierBytes useBigEndian)"

text \<open>
  \<open>createPathTable\<close> indexes the table by the \<open>parentIndex\<close> of the directories it lists,
  in the comparison and when it writes a record; Go panics at the first index out of
  range. The model panics when any listed directory has its \<open>parentIndex\<close> out of range,
  and the two agree on every table whose parent indices are in range.
\<close>

definition createPathTable :: "fileEntry list \<Rightarrow> bool \<Rightarrow> bool \<Rightarrow> error + byte list" where
  "createPathTable es isJoliet useBigEndian =
     (if list_ex (\<lambda>d. \<not> parentIndex d < length es) (pathTableDirs es)
      then Inl PanicIndexOutOfRange
      else Inr (concat (map (pathTableRecord es isJoliet useBigEndian)
                         (sortedPathTableDirs es isJoliet useBigEndian))))"

fun calculatePathTableTotalBytes :: "fileEntry list \<Rightarrow> bool \<Rightarrow> int" where
  "calculatePathTableTotalBytes [] isJoliet = 0"
| "calculatePathTableTotalBytes (fe # es) isJoliet =
     (if isDir fe \<and> pathTableDirNum fe > 0 then
        (let identifierBytes = pathTableIdentifier isJoliet fe;
             recordFinalLen0 = int ptRecFixedPartSize + int (length identifierBytes);
             recordFinalLen = (if length identifierBytes mod 2 \<noteq> 0 then recordFinalLen0 + 1
                               else recordFinalLen0)
         in recordFinalLen + calculatePathTableTotalBytes es isJoliet)
      else calculatePathTableTotalBytes es isJoliet)"

section \<open>Layout planner\<close>

definition assignSanitizedNamesAndDrSizes_entry :: "fileEntry \<Rightarrow> fileEntry" where
  "assignSanitizedNamesAndDrSizes_entry f =
     (let isRootEntry = (pathTableDirNum f = 1);
          f = (if isDir f then
                 (if isRootEntry then f\<lparr>iso9660Name := [], jolietName := [0]\<rparr>
                  else f\<lparr>iso9660Name := sanitizeISO9660Name (originalName f) True,
                         jolietName := truncateJolietName (originalName f)\<rparr>)
               else f\<lparr>iso9660Name := sanitizeISO9660Name (originalName f) False @ runes '';1'',
                      jolietName := truncateJolietName (originalName f)\<rparr>)
      in f\<lparr>actualISO9660DrSize :=
              calculateDirectoryRecordSize (getDRIdentifierBytes (iso9660Name f) False isRootEntry),
            actualJolietDrSize :=
              calculateDirectoryRecordSize (getDRIdentifierBytes (jolietName f) True isRootEntry)\<rparr>)"

definition assignSanitizedNamesAndDrSizes :: "ISOBuilder \<Rightarrow> ISOBuilder" where
  "assignSanitizedNamesAndDrSizes b =
     b\<lparr>fileEntries := map assignSanitizedNamesAndDrSizes_entry (fileEntries b)\<rparr>"

fun sumChildDrSizes :: "fileEntry list \<Rightarrow> nat list \<Rightarrow> bool \<Rightarrow> int \<Rightarrow> error + int" where
  "sumChildDrSizes es [] isJoliet totalDRBytes = Inr totalDRBytes"
| "sumChildDrSizes es (childIndex # rest) isJoliet totalDRBytes =
     (case index es childIndex of
        Inl e \<Rightarrow> Inl e
      | Inr child \<Rightarrow>
          sumChildDrSizes es rest isJoliet
            (totalDRBytes + (if isJoliet then actualJolietDrSize child
                             else actualISO9660DrSize child)))"

definition calculateSingleDirectoryExtentSizeBytes ::
  "fileEntry list \<Rightarrow> nat \<Rightarrow> bool \<Rightarrow> error + uint32" where
  "calculateSingleDirectoryExtentSizeBytes es dirEntryIndex isJoliet =
     bind (index es dirEntryIndex) (\<lambda>dirEntry.
       let isDirEntryRoot = (pathTableDirNum dirEntry = 1);
           dotDRSize = calculateDirectoryRecordSize
                         (getDRIdentifierBytes (runes ''.'') isJoliet isDirEntryRoot);
           dotDotDRSize = calculateDirectoryRecordSize
                            (getDRIdentifierBytes (runes ''..'') isJoliet False)
       in bind (sumChildDrSizes es (children dirEntry) isJoliet (dotDRSize + dotDotDRSize))
            (\<lambda>totalDRBytes.
               if totalDRBytes = 0 then Inl PanicTotalDRBytesZero
               else
                 (let numSectors = ((word_of_int totalDRBytes :: uint32) + word_of_nat SectorSize - 1)
                                     div word_of_nat SectorSize;
                      finalExtentSizeBytes = numSectors * word_of_nat SectorSize
                  in if finalExtentSizeBytes = 0 then Inl PanicFinalExtentSizeZero
                     else Inr finalExtentSizeBytes)))"

fun extentSizesLoop :: "nat list \<Rightarrow> fileEntry list \<Rightarrow> error + fileEntry list" where
  "extentSizesLoop [] es = Inr es"
| "extentSizesLoop (i # rest) es =
     (if isDir (es ! i) then
        (case calculateSingleDirectoryExtentSizeBytes es i False of
           Inl e \<Rightarrow> Inl e
         | Inr s1 \<Rightarrow>
             (let es1 = es[i := (es ! i)\<lparr>iso9660Size := s1\<rparr>]
              in case calculateSingleDirectoryExtentSizeBytes es1 i True of
                   Inl e \<Rightarrow> Inl e
                 | Inr s2 \<Rightarrow> extentSizesLoop rest (es1[i := (es1 ! i)\<lparr>jolietSize := s2\<rparr>])))
      else extentSizesLoop rest es)"

definition calculateAllDirectoryExtentSizes :: "ISOBuilder \<Rightarrow> error + ISOBuilder" where
  "calculateAllDirectoryExtentSizes b =
     bind (extentSizesLoop [0 ..< length (fileEntries b)] (fileEntries b)) (\<lambda>es.
       bind (index es 0) (\<lambda>root.
         Inr (b\<lparr>fileEntries := es,
                pvdRootDirExtentSize := iso9660Size root,
                svdRootDirExtentSize := jolietSize root\<rparr>)))"

definition assignPathTableSetLBAs :: "uint32 \<Rightarrow> uint32 \<Rightarrow> uint32 \<Rightarrow> uint32 \<times> uint32 \<times> uint32" where
  "assignPathTableSetLBAs startLBA numSectorsL numSectorsM =
     (let lbaL = startLBA;
          nextLBA = startLBA + numSectorsL;
          lbaM = nextLBA;
          nextLBA = nextLBA + numSectorsM
      in (lbaL, lbaM, nextLBA))"

definition determinePathTableLBAs :: "ISOBuilder \<Rightarrow> uint32 \<Rightarrow> ISOBuilder \<times> uint32" where
  "determinePathTableLBAs b startLBA =
     (let currentLBA = startLBA;
          pvdPtLBytes = calculatePathTableTotalBytes (fileEntries b) False;
          svdPtLBytes = calculatePathTableTotalBytes (fileEntries b) True;
          numSecPvdL = sectorsToContainBytes pvdPtLBytes;
          numSecPvdM = numSecPvdL;
          numSecSvdL = sectorsToContainBytes svdPtLBytes;
          numSecSvdM = numSecSvdL;
          (pL, pM, currentLBA) = assignPathTableSetLBAs currentLBA numSecPvdL numSecPvdM;
          (sL, sM, currentLBA) = assignPathTableSetLBAs currentLBA numSecSvdL numSecSvdM;
          (pL2, pM2, currentLBA) = assignPathTableSetLBAs currentLBA numSecPvdL numSecPvdM;
          (sL2, sM2, currentLBA) = assignPathTableSetLBAs currentLBA numSecSvdL numSecSvdM
      in (b\<lparr>lbaPvdPathTableL := pL, lbaPvdPathTableM := pM,
            lbaSvdPathTableL := sL, lbaSvdPathTableM := sM,
            lbaPvdPathTableL2 := pL2, lbaPvdPathTableM2 := pM2,
            lbaSvdPathTableL2 := sL2, lbaSvdPathTableM2 := sM2\<rparr>, currentLBA))"

text \<open>
  The three loops of \<open>assignContentLBAs\<close>. Each pass visits the entries in table order,
  reads and writes only the entry it is at, and carries \<open>currentLBA\<close>.
\<close>

fun assignISO9660DirLBAs :: "fileEntry list \<Rightarrow> uint32 \<Rightarrow> error + (fileEntry list \<times> uint32)" where
  "assignISO9660DirLBAs [] currentLBA = Inr ([], currentLBA)"
| "assignISO9660DirLBAs (f # fs) currentLBA =
     (if isDir f then
        (if iso9660Size f = 0 then Inl PanicDirSizeZero
         else if iso9660Size f mod word_of_nat SectorSize \<noteq> 0 then Inl PanicDirSizeNotSectorMultiple
         else
           (case assignISO9660DirLBAs fs (currentLBA + iso9660Size f div word_of_nat SectorSize) of
              Inl e \<Rightarrow> Inl e
            | Inr (fs', lba) \<Rightarrow> Inr (f\<lparr>iso9660Sector := currentLBA\<rparr> # fs', lba)))
      else
        (case assignISO9660DirLBAs fs currentLBA of
           Inl e \<Rightarrow> Inl e
         | Inr (fs', lba) \<Rightarrow> Inr (f # fs', lba)))"

fun assignFileDataLBAs :: "fileEntry list \<Rightarrow> uint32 \<Rightarrow> fileEntry list \<times> uint32" where
  "assignFileDataLBAs [] currentLBA = ([], currentLBA)"
| "assignFileDataLBAs (f # fs) currentLBA =
     (if \<not> isDir f then
        (let (fs', lba) = assignFileDataLBAs fs
                            (currentLBA + sectorsToContainFileBytes (iso9660Size f))
         in (f\<lparr>iso9660Sector := currentLBA, jolietSector := currentLBA\<rparr> # fs', lba))
      else
        (let (fs', lba) = assignFileDataLBAs fs currentLBA in (f # fs', lba)))"

fun assignJolietDirLBAs :: "fileEntry list \<Rightarrow> uint32 \<Rightarrow> error + (fileEntry list \<times> uint32)" where
  "assignJolietDirLBAs [] currentLBA = Inr ([], currentLBA)"
| "assignJolietDirLBAs (f # fs) currentLBA =
     (if isDir f then
        (if jolietSize f = 0 then Inl PanicDirSizeZero
         else if jolietSize f mod word_of_nat SectorSize \<noteq> 0 then Inl PanicDirSizeNotSectorMultiple
         else
           (case assignJolietDirLBAs fs (currentLBA + jolietSize f div word_of_nat SectorSize) of
              Inl e \<Rightarrow> Inl e
            | Inr (fs', lba) \<Rightarrow> Inr (f\<lparr>jolietSector := currentLBA\<rparr> # fs', lba)))
      else
        (case assignJolietDirLBAs fs currentLBA of
           Inl e \<Rightarrow> Inl e
         | Inr (fs', lba) \<Rightarrow> Inr (f # fs', lba)))"

definition assignContentLBAs :: "ISOBuilder \<Rightarrow> uint32 \<Rightarrow> error + (ISOBuilder \<times> uint32)" where
  "assignContentLBAs b startLBA =
     bind (assignISO9660DirLBAs (fileEntries b) startLBA) (\<lambda>(es1, lba1).
       let (es2, lba2) = assignFileDataLBAs es1 lba1
       in bind (assignJolietDirLBAs es2 lba2) (\<lambda>(es3, lba3).
            Inr (b\<lparr>fileEntries := es3\<rparr>, lba3)))"

definition pregeneratePathTables :: "ISOBuilder \<Rightarrow> error + ISOBuilder" where
  "pregeneratePathTables b =
     bind (createPathTable (fileEntries b) False False) (\<lambda>pvdL.
     bind (createPathTable (fileEntries b) False True) (\<lambda>pvdM.
     bind (createPathTable (fileEntries b) True False) (\<lambda>svdL.
     bind (createPathTable (fileEntries b) True True) (\<lambda>svdM.
       let b = b\<lparr>pvdPathTableLData := pvdL, pvdPathTableMData := pvdM,
                 svdPathTableLData := svdL, svdPathTableMData := svdM\<rparr>
       in if int (length (pvdPathTableLData b)) \<noteq> calculatePathTableTotalBytes (fileEntries b) False
          then Inl ErrPathTableLength
          else if int (length (svdPathTableLData b)) \<noteq> calculatePathTableTotalBytes (fileEntries b) True
          then Inl ErrPathTableLength
          else if int (length (pvdPathTableMData b)) \<noteq> calculatePathTableTotalBytes (fileEntries b) False
          then Inl ErrPathTableLength
          else if int (length (svdPathTableMData b)) \<noteq> calculatePathTableTotalBytes (fileEntries b) True
          then Inl ErrPathTableLength
          else Inr b))))"

definition calculateLayout :: "ISOBuilder \<Rightarrow> error + ISOBuilder" where
  "calculateLayout b =
     (let b = assignSanitizedNamesAndDrSizes b
      in bind (calculateAllDirectoryExtentSizes b) (\<lambda>b.
           let currentLBA = (word_of_nat (SystemAreaNumSectors + 3) :: uint32);
               (b, currentLBA) = determinePathTableLBAs b currentLBA
           in bind (assignContentLBAs b currentLBA) (\<lambda>(b, currentLBA).
                let b = b\<lparr>totalSectors := currentLBA\<rparr>;
                    b = b\<lparr>totalSectors := totalSectors b + 1\<rparr>
                in pregeneratePathTables b)))"

section \<open>Directory listings\<close>

text \<open>The comparison handed to \<open>sort.Slice\<close> in \<open>createDirectoryListing\<close>.\<close>

definition childLess :: "bool \<Rightarrow> fileEntry \<Rightarrow> fileEntry \<Rightarrow> bool" where
  "childLess isJoliet ci cj =
     (if isJoliet then string_less (jolietName ci) (jolietName cj)
      else string_less (iso9660Name ci) (iso9660Name cj))"

fun lookupChildren :: "fileEntry list \<Rightarrow> nat list \<Rightarrow> error + fileEntry list" where
  "lookupChildren es [] = Inr []"
| "lookupChildren es (idx # rest) =
     (case index es idx of
        Inl e \<Rightarrow> Inl e
      | Inr c \<Rightarrow> (case lookupChildren es rest of Inl e \<Rightarrow> Inl e | Inr cs \<Rightarrow> Inr (c # cs)))"

definition sortedChildren :: "fileEntry list \<Rightarrow> fileEntry \<Rightarrow> bool \<Rightarrow> error + fileEntry list" where
  "sortedChildren es currentDir isJoliet =
     bind (lookupChildren es (children currentDir)) (\<lambda>childrenEntries.
       Inr (sort_Slice (childLess isJoliet) childrenEntries))"

text \<open>The LBA, the extent or data length, the name and the expected record length of a
  child's record, as the loop over the sorted children chooses them.\<close>

definition childRecordArgs :: "fileEntry \<Rightarrow> bool \<Rightarrow> uint32 \<times> uint32 \<times> gostring \<times> int" where
  "childRecordArgs childEntry isJoliet =
     (if isDir childEntry then
        (if isJoliet
         then (jolietSector childEntry, jolietSize childEntry, jolietName childEntry,
               actualJolietDrSize childEntry)
         else (iso9660Sector childEntry, iso9660Size childEntry, iso9660Name childEntry,
               actualISO9660DrSize childEntry))
      else
        (if isJoliet
         then (iso9660Sector childEntry, iso9660Size childEntry, jolietName childEntry,
               actualJolietDrSize childEntry)
         else (iso9660Sector childEntry, iso9660Size childEntry, iso9660Name childEntry,
               actualISO9660DrSize childEntry)))"

fun childRecords ::
  "(gostring \<Rightarrow> gotime option) \<Rightarrow> gotime \<Rightarrow> bool \<Rightarrow> fileEntry list \<Rightarrow> error + byte list list" where
  "childRecords stat now isJoliet [] = Inr []"
| "childRecords stat now isJoliet (childEntry # rest) =
     (let (childLBA, childSizeOrDataLen, childRecordName, expectedChildDRLen) =
            childRecordArgs childEntry isJoliet;
          childDRBytes = createDirectoryRecordBytes stat now childLBA childSizeOrDataLen
                           childRecordName childEntry isJoliet
      in if int (length childDRBytes) \<noteq> expectedChildDRLen then Inl PanicDRLenMismatch
         else (case childRecords stat now isJoliet rest of
                 Inl e \<Rightarrow> Inl e
               | Inr rs \<Rightarrow> Inr (childDRBytes # rs)))"

text \<open>The records of a listing, in the order they are written to the buffer.\<close>

definition directoryListingRecords ::
  "(gostring \<Rightarrow> gotime option) \<Rightarrow> gotime \<Rightarrow> fileEntry list \<Rightarrow> nat \<Rightarrow> bool
     \<Rightarrow> error + byte list list" where
  "directoryListingRecords stat now es dirEntryIndex isJoliet =
     bind (index es dirEntryIndex) (\<lambda>currentDir.
       let (selfLBA, selfExtentSizeBytes) =
             (if isJoliet then (jolietSector currentDir, jolietSize currentDir)
              else (iso9660Sector currentDir, iso9660Size currentDir));
           dotDRBytes = createDirectoryRecordBytes stat now selfLBA selfExtentSizeBytes
                          (runes ''.'') currentDir isJoliet;
           expectedDotDRLen = calculateDirectoryRecordSize
                                (getDRIdentifierBytes (runes ''.'') isJoliet
                                   (pathTableDirNum currentDir = 1))
       in if int (length dotDRBytes) \<noteq> expectedDotDRLen then Inl PanicDRLenMismatch
          else
            bind (index es (parentIndex currentDir)) (\<lambda>parentDir.
              let (parentLBA, parentExtentSizeBytes) =
                    (if isJoliet then (jolietSector parentDir, jolietSize parentDir)
                     else (iso9660Sector parentDir, iso9660Size parentDir));
                  dotDotDRBytes = createDirectoryRecordBytes stat now parentLBA
                                    parentExtentSizeBytes (runes ''..'') parentDir isJoliet;
                  expectedDotDotDRLen = calculateDirectoryRecordSize
                                          (getDRIdentifierBytes (runes ''..'') isJoliet False)
              in if int (length dotDotDRBytes) \<noteq> expectedDotDotDRLen then Inl PanicDRLenMismatch
                 else
                   bind (sortedChildren es currentDir isJoliet) (\<lambda>childrenEntries.
                     bind (childRecords stat now isJoliet childrenEntries) (\<lambda>rs.
                       Inr (dotDRBytes # dotDotDRBytes # rs)))))"

definition createDirectoryListing ::
  "(gostring \<Rightarrow> gotime option) \<Rightarrow> gotime \<Rightarrow> fileEntry list \<Rightarrow> nat \<Rightarrow> bool \<Rightarrow> error + byte list" where
  "createDirectoryListing stat now es dirEntryIndex isJoliet =
     bind (directoryListingRecords stat now es dirEntryIndex isJoliet) (\<lambda>rs. Inr (concat rs))"

section \<open>Scanner\<close>

text \<open>
  The source tree as the host presents it to \<open>os.ReadDir\<close> and \<open>DirEntry.Info\<close>: a
  regular file with its size (an \<open>int64\<close>), a directory with its entries, a directory
  that cannot be read, an entry that is neither (a link, a device), and an entry whose
  \<open>Info\<close> fails.
\<close>

datatype fsnode =
    RegularFile gostring int
  | Directory gostring "fsnode list"
  | UnreadableDirectory gostring
  | OtherFile gostring
  | InfoError gostring

definition newEntry :: "gostring \<Rightarrow> gostring \<Rightarrow> int \<Rightarrow> nat \<Rightarrow> fileEntry" where
  "newEntry name fullDiskPath lvl parentEntryIndex =
     \<lparr> originalName = name, diskPath = fullDiskPath, isDir = False, level = lvl,
       parentIndex = parentEntryIndex, children = [], iso9660Name = [], jolietName = [],
       iso9660Size = 0, jolietSize = 0, iso9660Sector = 0, jolietSector = 0,
       actualISO9660DrSize = 0, actualJolietDrSize = 0, pathTableDirNum = 0,
       isHidden = False \<rparr>"

definition appendChild :: "fileEntry list \<Rightarrow> nat \<Rightarrow> fileEntry \<Rightarrow> fileEntry list" where
  "appendChild es parentEntryIndex fe =
     (let es = es @ [fe];
          newEntryIndex = length es - 1
      in es[parentEntryIndex :=
              (es ! parentEntryIndex)\<lparr>children := children (es ! parentEntryIndex) @ [newEntryIndex]\<rparr>])"

fun scanDirectoryRecursive ::
  "fsnode list \<Rightarrow> gostring \<Rightarrow> nat \<Rightarrow> fileEntry list \<times> uint16 \<Rightarrow> error + (fileEntry list \<times> uint16)" where
  "scanDirectoryRecursive [] currentDiskPath parentEntryIndex st = Inr st"
| "scanDirectoryRecursive (InfoError name # rest) currentDiskPath parentEntryIndex st = Inl ErrInfo"
| "scanDirectoryRecursive (Directory name sub # rest) currentDiskPath parentEntryIndex (es, nextPathTableNumber) =
     (let fullDiskPath = currentDiskPath @ runes ''/'' @ name;
          fe = (newEntry name fullDiskPath (level (es ! parentEntryIndex) + 1) parentEntryIndex)
                 \<lparr>isDir := True, pathTableDirNum := nextPathTableNumber\<rparr>;
          es1 = appendChild es parentEntryIndex fe
      in case scanDirectoryRecursive sub fullDiskPath (length es) (es1, nextPathTableNumber + 1) of
           Inl errRec \<Rightarrow> Inl errRec
         | Inr st' \<Rightarrow> scanDirectoryRecursive rest currentDiskPath parentEntryIndex st')"
| "scanDirectoryRecursive (UnreadableDirectory name # rest) currentDiskPath parentEntryIndex st =
     Inl ErrReadDir"
| "scanDirectoryRecursive (RegularFile name fileSize # rest) currentDiskPath parentEntryIndex (es, nextPathTableNumber) =
     (let fullDiskPath = currentDiskPath @ runes ''/'' @ name;
          fe = newEntry name fullDiskPath (level (es ! parentEntryIndex) + 1) parentEntryIndex;
          fe = fe\<lparr>isDir := False, iso9660Size := word_of_int fileSize\<rparr>;
          fe = fe\<lparr>jolietSize := iso9660Size fe\<rparr>
      in scanDirectoryRecursive rest currentDiskPath parentEntryIndex
           (appendChild es parentEntryIndex fe, nextPathTableNumber))"
| "scanDirectoryRecursive (OtherFile name # rest) currentDiskPath parentEntryIndex st =
     scanDirectoryRecursive rest currentDiskPath parentEntryIndex st"

definition rootEntry :: "gostring \<Rightarrow> fileEntry" where
  "rootEntry absPath =
     (newEntry [0] absPath 0 0)\<lparr>isDir := True, pathTableDirNum := 1\<rparr>"

definition ScanSourceDirectory :: "fsnode \<Rightarrow> error + fileEntry list" where
  "ScanSourceDirectory src =
     (case src of
        Directory absPath osEntries \<Rightarrow>
          (case scanDirectoryRecursive osEntries absPath 0 ([rootEntry absPath], 2) of
             Inl e \<Rightarrow> Inl e
           | Inr (es, n) \<Rightarrow> Inr es)
      | _ \<Rightarrow> Inl ErrReadDir)"

section \<open>Hidden-marking helper\<close>

fun markEntries :: "nat \<Rightarrow> gostring \<Rightarrow> fileEntry list \<Rightarrow> fileEntry list \<times> bool" where
  "markEntries i name [] = ([], False)"
| "markEntries i name (f # fs) =
     (let (fs', found) = markEntries (i + 1) name fs
      in if i = 0 \<and> originalName f = [0] then (f # fs', found)
         else if originalName f = name then (f\<lparr>isHidden := True\<rparr> # fs', True)
         else (f # fs', found))"

fun markNames :: "gostring list \<Rightarrow> fileEntry list \<Rightarrow> gostring list \<Rightarrow> error + (fileEntry list \<times> gostring list)" where
  "markNames [] es errs = Inr (es, errs)"
| "markNames (name # rest) es errs =
     (if name = [] then markNames rest es (errs @ [runes ''(empty string)''])
      else if name = runes ''.'' \<or> name = runes ''..'' then markNames rest es (errs @ [name])
      else
        (case index es 0 of
           Inl e \<Rightarrow> Inl e
         | Inr root \<Rightarrow>
             if originalName root = name then markNames rest es (errs @ [name @ runes '' (root)''])
             else
               (let (es', found) = markEntries 0 name es
                in markNames rest es'
                     (if \<not> found then errs @ [name @ runes '' (not found)''] else errs))))"

text \<open>The result carries the names reported in the returned error; the error is \<open>nil\<close>
  when the list is empty.\<close>

definition MarkFileNamesAsHidden :: "gostring list \<Rightarrow> ISOBuilder \<Rightarrow> error + (ISOBuilder \<times> gostring list)" where
  "MarkFileNamesAsHidden fileNamesToHide b =
     (if fileNamesToHide = [] then Inr (b, [])
      else bind (markNames fileNamesToHide (fileEntries b) []) (\<lambda>(es, errs).
             Inr (b\<lparr>fileEntries := es\<rparr>, errs)))"

definition NewBuilder :: "fileEntry list \<Rightarrow> ISOBuilder" where
  "NewBuilder es =
     \<lparr> fileEntries = es, totalSectors = 0,
       lbaPvdPathTableL = 0, lbaPvdPathTableM = 0, lbaSvdPathTableL = 0, lbaSvdPathTableM = 0,
       lbaPvdPathTableL2 = 0, lbaPvdPathTableM2 = 0, lbaSvdPathTableL2 = 0, lbaSvdPathTableM2 = 0,
       pvdPathTableLData = [], pvdPathTableMData = [], svdPathTableLData = [], svdPathTableMData = [],
       pvdRootDirExtentSize = 0, svdRootDirExtentSize = 0 \<rparr>"

section \<open>Auxiliary notions for the properties\<close>

text \<open>A name all of whose runes are ASCII: one byte each in \<open>[]byte(name)\<close>.\<close>

definition ascii :: "gostring \<Rightarrow> bool" where
  "ascii s = list_all (\<lambda>r. r < 128) s"

text \<open>A name all of whose runes are below U+10000: one UTF-16 code unit each.\<close>

definition bmp :: "gostring \<Rightarrow> bool" where
  "bmp s = list_all (\<lambda>r. r < 0x10000) s"

text \<open>A host on which \<open>os.Stat\<close> always fails, and a clock, for concrete examples.\<close>

definition noStat :: "gostring \<Rightarrow> gotime option" where
  "noStat path = None"

definition epoch :: gotime where
  "epoch = \<lparr>Year = 1970, Month = 1, Day = 1, Hour = 0, Minute = 0, Second = 0\<rparr>"

text \<open>The first steps of \<open>Build\<close>: scan the source tree, then plan the layout.\<close>

definition scanAndLayout :: "fsnode \<Rightarrow> error + ISOBuilder" where
  "scanAndLayout src = bind (ScanSourceDirectory src) (\<lambda>es. calculateLayout (NewBuilder es))"

text \<open>The identifier field of a directory record: its length is the byte at offset 32.\<close>

definition recordIdentifier :: "byte list \<Rightarrow> byte list" where
  "recordIdentifier r = take (unat (r ! 32)) (drop 33 r)"

text \<open>Every file of the table carries the same size in both namespaces.\<close>

definition sameFileSizes :: "fileEntry list \<Rightarrow> bool" where
  "sameFileSizes es = list_all (\<lambda>f. isDir f \<or> iso9660Size f = jolietSize f) es"

text \<open>Every file of the table carries the same LBA in both namespaces.\<close>

definition sameFileSectors :: "fileEntry list \<Rightarrow> bool" where
  "sameFileSectors es = list_all (\<lambda>f. isDir f \<or> iso9660Sector f = jolietSector f) es"

text \<open>
  An entry without what the planner computes after the names: its extent sizes and LBAs.
  \<open>replanned f f'\<close>: \<open>f'\<close> is \<open>f\<close> with other extent sizes and LBAs, the sizes only if \<open>f\<close>
  is a directory.
\<close>

definition nonLayout :: "fileEntry \<Rightarrow> fileEntry" where
  "nonLayout f = f\<lparr>iso9660Size := 0, jolietSize := 0, iso9660Sector := 0, jolietSector := 0\<rparr>"

definition replanned :: "fileEntry \<Rightarrow> fileEntry \<Rightarrow> bool" where
  "replanned f f' =
     (nonLayout f' = nonLayout f
      \<and> (isDir f \<or> (iso9660Size f' = iso9660Size f \<and> jolietSize f' = jolietSize f)))"

text \<open>An entry with its hidden flag cleared: what remains when the flag is ignored.\<close>

definition unhide :: "fileEntry \<Rightarrow> fileEntry" where
  "unhide f = f\<lparr>isHidden := False\<rparr>"

definition unhideAll :: "ISOBuilder \<Rightarrow> ISOBuilder" where
  "unhideAll b = b\<lparr>fileEntries := map unhide (fileEntries b)\<rparr>"

text \<open>The extent fields of a directory record: bytes 2 to 17, the LBA and the data
  length, each in both byte orders.\<close>

definition recordExtent :: "byte list \<Rightarrow> byte list" where
  "recordExtent r = take 16 (drop 2 r)"

text \<open>The record of a child in its parent's listing, as the loop of
  \<open>createDirectoryListing\<close> builds it.\<close>

definition childRecordBytes ::
  "(gostring \<Rightarrow> gotime option) \<Rightarrow> gotime \<Rightarrow> bool \<Rightarrow> fileEntry \<Rightarrow> byte list" where
  "childRecordBytes stat now isJoliet childEntry =
     (let (childLBA, childSizeOrDataLen, childRecordName, expectedChildDRLen) =
            childRecordArgs childEntry isJoliet
      in createDirectoryRecordBytes stat now childLBA childSizeOrDataLen childRecordName
           childEntry isJoliet)"

text \<open>
  What \<open>MarkFileNamesAsHidden names\<close> may do to an entry: nothing but set its hidden
  flag, and that only if the entry's original name is one of \<open>names\<close>.
\<close>

definition markedBy :: "gostring list \<Rightarrow> fileEntry \<Rightarrow> fileEntry \<Rightarrow> bool" where
  "markedBy names f f' =
     (f' = f \<or> (f' = f\<lparr>isHidden := True\<rparr> \<and> originalName f \<in> set names))"

text \<open>
  Two plans agree on everything the planner computes: names, record sizes, extent sizes
  and LBAs of every entry, the LBAs and bytes of the path tables, the root extent sizes
  and the total number of sectors.
\<close>

definition sameLayout :: "ISOBuilder \<Rightarrow> ISOBuilder \<Rightarrow> bool" where
  "sameLayout p p' =
     (map iso9660Name (fileEntries p') = map iso9660Name (fileEntries p)
      \<and> map jolietName (fileEntries p') = map jolietName (fileEntries p)
      \<and> map actualISO9660DrSize (fileEntries p') = map actualISO9660DrSize (fileEntries p)
      \<and> map actualJolietDrSize (fileEntries p') = map actualJolietDrSize (fileEntries p)
      \<and> map iso9660Size (fileEntries p') = map iso9660Size (fileEntries p)
      \<and> map jolietSize (fileEntries p') = map jolietSize (fileEntries p)
      \<and> map iso9660Sector (fileEntries p') = map iso9660Sector (fileEntries p)
      \<and> map jolietSector (fileEntries p') = map jolietSector (fileEntries p)
      \<and> [lbaPvdPathTableL p', lbaPvdPathTableM p', lbaSvdPathTableL p', lbaSvdPathTableM p',
          lbaPvdPathTableL2 p', lbaPvdPathTableM2 p', lbaSvdPathTableL2 p', lbaSvdPathTableM2 p']
         = [lbaPvdPathTableL p, lbaPvdPathTableM p, lbaSvdPathTableL p, lbaSvdPathTableM p,
            lbaPvdPathTableL2 p, lbaPvdPathTableM2 p, lbaSvdPathTableL2 p, lbaSvdPathTableM2 p]
      \<and> [pvdPathTableLData p', pvdPathTableMData p', svdPathTableLData p', svdPathTableMData p']
         = [pvdPathTableLData p, pvdPathTableMData p, svdPathTableLData p, svdPathTableMData p]
      \<and> pvdRootDirExtentSize p' = pvdRootDirExtentSize p
      \<and> svdRootDirExtentSize p' = svdRootDirExtentSize p
      \<and> totalSectors p' = totalSectors p)"

text \<open>
  A table whose directory numbers separate the root from the rest: entry 0 is the root,
  numbered 1 and its own parent; every entry has a directory of the table as its parent;
  every other directory has a number from 2 on.
\<close>

definition rootedTable :: "fileEntry list \<Rightarrow> bool" where
  "rootedTable es =
     (es \<noteq> [] \<and> isDir (es ! 0) \<and> pathTableDirNum (es ! 0) = 1 \<and> parentIndex (es ! 0) = 0
      \<and> (\<forall>k < length es. parentIndex (es ! k) < length es \<and> isDir (es ! parentIndex (es ! k)))
      \<and> (\<forall>k < length es. 0 < k \<and> isDir (es ! k) \<longrightarrow> 2 \<le> unat (pathTableDirNum (es ! k))))"

definition dirCount :: "fileEntry list \<Rightarrow> nat" where
  "dirCount es = length (filter isDir es)"

text \<open>
  The invariant of the scan, with \<open>n\<close> the next free number: every directory carries its
  rank among the directories of the table, in table order and counted from 1, as a
  \<open>uint16\<close>; entry 0 is the root and its own parent, and the parent of every entry is a
  directory of the table.
\<close>

definition scanInv :: "fileEntry list \<Rightarrow> uint16 \<Rightarrow> bool" where
  "scanInv es n =
     (es \<noteq> [] \<and> isDir (es ! 0) \<and> parentIndex (es ! 0) = 0
      \<and> (\<forall>k < length es. parentIndex (es ! k) < length es \<and> isDir (es ! parentIndex (es ! k)))
      \<and> n = word_of_nat (dirCount es + 1)
      \<and> (\<forall>k < length es. isDir (es ! k) \<longrightarrow>
             pathTableDirNum (es ! k) = word_of_nat (dirCount (take (Suc k) es))))"

text \<open>An entry without its list of children.\<close>

definition noChildren :: "fileEntry \<Rightarrow> fileEntry" where
  "noChildren f = f\<lparr>children := []\<rparr>"

section \<open>A worked example\<close>

text \<open>
  The source directory \<open>/\<close> holding one regular file \<open>a\<close> of 5 bytes: the entries as
  scanned, with their names and record sizes, and as planned.
\<close>

definition ex_tree :: fsnode where
  "ex_tree = Directory [] [RegularFile (runes ''a'') 5]"

definition ex_root :: fileEntry where
  "ex_root = (rootEntry [])\<lparr>children := [1]\<rparr>"

definition ex_file :: fileEntry where
  "ex_file = (newEntry (runes ''a'') (runes ''/a'') 1 0)\<lparr>iso9660Size := 5, jolietSize := 5\<rparr>"

definition ex_root_named :: fileEntry where
  "ex_root_named = ex_root\<lparr>iso9660Name := [], jolietName := [0],
       actualISO9660DrSize := 34, actualJolietDrSize := 34\<rparr>"

definition ex_file_named :: fileEntry where
  "ex_file_named = ex_file\<lparr>iso9660Name := runes ''A;1'', jolietName := runes ''a'',
       actualISO9660DrSize := 36, actualJolietDrSize := 36\<rparr>"

definition ex_root_planned :: fileEntry where
  "ex_root_planned = ex_root_named\<lparr>iso9660Size := 2048, jolietSize := 2048,
       iso9660Sector := 27, jolietSector := 29\<rparr>"

definition ex_file_planned :: fileEntry where
  "ex_file_planned = ex_file_named\<lparr>iso9660Sector := 28, jolietSector := 28\<rparr>"

definition ex_plan :: ISOBuilder where
  "ex_plan =
     \<lparr> fileEntries = [ex_root_planned, ex_file_planned], totalSectors = 31,
       lbaPvdPathTableL = 19, lbaPvdPathTableM = 20, lbaSvdPathTableL = 21, lbaSvdPathTableM = 22,
       lbaPvdPathTableL2 = 23, lbaPvdPathTableM2 = 24, lbaSvdPathTableL2 = 25, lbaSvdPathTableM2 = 26,
       pvdPathTableLData = [1, 0, 27, 0, 0, 0, 1, 0, 0, 0],
       pvdPathTableMData = [1, 0, 0, 0, 0, 27, 0, 1, 0, 0],
       svdPathTableLData = [1, 0, 29, 0, 0, 0, 1, 0, 0, 0],
       svdPathTableMData = [1, 0, 0, 0, 0, 29, 0, 1, 0, 0],
       pvdRootDirExtentSize = 2048, svdRootDirExtentSize = 2048 \<rparr>"

section \<open>A second example: two names that UTF-8 and UCS-2 order differently\<close>

text \<open>
  The source directory \<open>/\<close> holding two empty regular files, one named U+FF21 (fullwidth
  A) and one named U+1F600 (an emoji above the BMP); \<open>os.ReadDir\<close> returns them in this
  order, by file name.
\<close>

definition jx_tree :: fsnode where
  "jx_tree = Directory [] [RegularFile [0xFF21] 0, RegularFile [0x1F600] 0]"

definition jx_root :: fileEntry where
  "jx_root = (rootEntry [])\<lparr>children := [1, 2]\<rparr>"

definition jx_a :: fileEntry where
  "jx_a = newEntry [0xFF21] (runes ''/'' @ [0xFF21]) 1 0"

definition jx_b :: fileEntry where
  "jx_b = newEntry [0x1F600] (runes ''/'' @ [0x1F600]) 1 0"

definition jx_root_named :: fileEntry where
  "jx_root_named = jx_root\<lparr>iso9660Name := [], jolietName := [0],
       actualISO9660DrSize := 34, actualJolietDrSize := 34\<rparr>"

definition jx_a_named :: fileEntry where
  "jx_a_named = jx_a\<lparr>iso9660Name := runes ''_;1'', jolietName := [0xFF21],
       actualISO9660DrSize := 36, actualJolietDrSize := 36\<rparr>"

definition jx_b_named :: fileEntry where
  "jx_b_named = jx_b\<lparr>iso9660Name := runes ''_;1'', jolietName := [0x1F600],
       actualISO9660DrSize := 36, actualJolietDrSize := 38\<rparr>"

definition jx_root_planned :: fileEntry where
  "jx_root_planned = jx_root_named\<lparr>iso9660Size := 2048, jolietSize := 2048,
       iso9660Sector := 27, jolietSector := 30\<rparr>"

definition jx_a_planned :: fileEntry where
  "jx_a_planned = jx_a_named\<lparr>iso9660Sector := 28, jolietSector := 28\<rparr>"

definition jx_b_planned :: fileEntry where
  "jx_b_planned = jx_b_named\<lparr>iso9660Sector := 29, jolietSector := 29\<rparr>"

definition jx_plan :: ISOBuilder where
  "jx_plan =
     \<lparr> fileEntries = [jx_root_planned, jx_a_planned, jx_b_planned], totalSectors = 32,
       lbaPvdPathTableL = 19, lbaPvdPathTableM = 20, lbaSvdPathTableL = 21, lbaSvdPathTableM = 22,
       lbaPvdPathTableL2 = 23, lbaPvdPathTableM2 = 24, lbaSvdPathTableL2 = 25, lbaSvdPathTableM2 = 26,
       pvdPathTableLData = [1, 0, 27, 0, 0, 0, 1, 0, 0, 0],
       pvdPathTableMData = [1, 0, 0, 0, 0, 27, 0, 1, 0, 0],
       svdPathTableLData = [1, 0, 30, 0, 0, 0, 1, 0, 0, 0],
       svdPathTableMData = [1, 0, 0, 0, 0, 30, 0, 1, 0, 0],
       pvdRootDirExtentSize = 2048, svdRootDirExtentSize = 2048 \<rparr>"

section \<open>A third example: a tree of directories\<close>

text \<open>
  The source directory \<open>/\<close> holding the directories \<open>a\<close> and \<open>b\<close>, and \<open>a\<close> holding the
  directory \<open>z\<close>: the entries as scanned (in depth-first order: root, \<open>a\<close>, \<open>z\<close>, \<open>b\<close>), with
  their names and record sizes, with their extent sizes, and as planned.
\<close>

definition px_tree :: fsnode where
  "px_tree = Directory [] [Directory (runes ''a'') [Directory (runes ''z'') []],
                           Directory (runes ''b'') []]"

definition px_root :: fileEntry where
  "px_root = (rootEntry [])\<lparr>children := [1, 3]\<rparr>"

definition px_a :: fileEntry where
  "px_a = (newEntry (runes ''a'') (runes ''/a'') 1 0)
            \<lparr>isDir := True, children := [2], pathTableDirNum := 2\<rparr>"

definition px_z :: fileEntry where
  "px_z = (newEntry (runes ''z'') (runes ''/a/z'') 2 1)\<lparr>isDir := True, pathTableDirNum := 3\<rparr>"

definition px_b :: fileEntry where
  "px_b = (newEntry (runes ''b'') (runes ''/b'') 1 0)\<lparr>isDir := True, pathTableDirNum := 4\<rparr>"

definition px_root_named :: fileEntry where
  "px_root_named = px_root\<lparr>iso9660Name := [], jolietName := [0],
       actualISO9660DrSize := 34, actualJolietDrSize := 34\<rparr>"

definition px_a_named :: fileEntry where
  "px_a_named = px_a\<lparr>iso9660Name := runes ''A'', jolietName := runes ''a'',
       actualISO9660DrSize := 34, actualJolietDrSize := 36\<rparr>"

definition px_z_named :: fileEntry where
  "px_z_named = px_z\<lparr>iso9660Name := runes ''Z'', jolietName := runes ''z'',
       actualISO9660DrSize := 34, actualJolietDrSize := 36\<rparr>"

definition px_b_named :: fileEntry where
  "px_b_named = px_b\<lparr>iso9660Name := runes ''B'', jolietName := runes ''b'',
       actualISO9660DrSize := 34, actualJolietDrSize := 36\<rparr>"

definition px_sized :: "fileEntry \<Rightarrow> fileEntry" where
  "px_sized f = f\<lparr>iso9660Size := 2048, jolietSize := 2048\<rparr>"

definition px_root_planned :: fileEntry where
  "px_root_planned = (px_sized px_root_named)\<lparr>iso9660Sector := 27, jolietSector := 31\<rparr>"

definition px_a_planned :: fileEntry where
  "px_a_planned = (px_sized px_a_named)\<lparr>iso9660Sector := 28, jolietSector := 32\<rparr>"

definition px_z_planned :: fileEntry where
  "px_z_planned = (px_sized px_z_named)\<lparr>iso9660Sector := 29, jolietSector := 33\<rparr>"

definition px_b_planned :: fileEntry where
  "px_b_planned = (px_sized px_b_named)\<lparr>iso9660Sector := 30, jolietSector := 34\<rparr>"

definition px_plan :: ISOBuilder where
  "px_plan =
     \<lparr> fileEntries = [px_root_planned, px_a_planned, px_z_planned, px_b_planned],
       totalSectors = 36,
       lbaPvdPathTableL = 19, lbaPvdPathTableM = 20, lbaSvdPathTableL = 21, lbaSvdPathTableM = 22,
       lbaPvdPathTableL2 = 23, lbaPvdPathTableM2 = 24, lbaSvdPathTableL2 = 25, lbaSvdPathTableM2 = 26,
       pvdPathTableLData =
         [1, 0, 27, 0, 0, 0, 1, 0, 0, 0, 1, 0, 28, 0, 0, 0, 1, 0, 65, 0,
          1, 0, 29, 0, 0, 0, 2, 0, 90, 0, 1, 0, 30, 0, 0, 0, 1, 0, 66, 0],
       pvdPathTableMData =
         [1, 0, 0, 0, 0, 27, 0, 1, 0, 0, 1, 0, 0, 0, 0, 28, 0, 1, 65, 0,
          1, 0, 0, 0, 0, 30, 0, 1, 66, 0, 1, 0, 0, 0, 0, 29, 0, 2, 90, 0],
       svdPathTableLData =
         [1, 0, 31, 0, 0, 0, 1, 0, 0, 0, 2, 0, 32, 0, 0, 0, 1, 0, 0, 97,
          2, 0, 33, 0, 0, 0, 2, 0, 0, 122, 2, 0, 34, 0, 0, 0, 1, 0, 0, 98],
       svdPathTableMData =
         [1, 0, 0, 0, 0, 31, 0, 1, 0, 0, 2, 0, 0, 0, 0, 32, 0, 1, 0, 97,
          2, 0, 0, 0, 0, 34, 0, 1, 0, 98, 2, 0, 0, 0, 0, 33, 0, 2, 0, 122],
       pvdRootDirExtentSize = 2048, svdRootDirExtentSize = 2048 \<rparr>"

section \<open>A table whose directory numbers have wrapped\<close>

text \<open>
  Three directories as the planner leaves them, numbered as the scanner numbers the
  65536th and the 65537th directory it meets: \<open>/x\<close> has number 0 and its subdirectory
  \<open>/x/y\<close> has number 1, so that the planner names \<open>y\<close> as it names the root.
\<close>

definition wx_root :: fileEntry where
  "wx_root = (rootEntry [])\<lparr>children := [1], iso9660Name := [], jolietName := [0],
       iso9660Size := 2048, jolietSize := 2048, iso9660Sector := 27, jolietSector := 30,
       actualISO9660DrSize := 34, actualJolietDrSize := 34\<rparr>"

definition wx_x :: fileEntry where
  "wx_x = (newEntry (runes ''x'') (runes ''/x'') 1 0)\<lparr>isDir := True, children := [2],
       iso9660Name := runes ''X'', jolietName := runes ''x'',
       iso9660Size := 2048, jolietSize := 2048, iso9660Sector := 28, jolietSector := 31,
       actualISO9660DrSize := 34, actualJolietDrSize := 36, pathTableDirNum := 0\<rparr>"

definition wx_y :: fileEntry where
  "wx_y = (newEntry (runes ''y'') (runes ''/x/y'') 2 1)\<lparr>isDir := True,
       iso9660Name := [], jolietName := [0],
       iso9660Size := 2048, jolietSize := 2048, iso9660Sector := 29, jolietSector := 32,
       actualISO9660DrSize := 34, actualJolietDrSize := 34, pathTableDirNum := 1\<rparr>"

definition wx_table :: "fileEntry list" where
  "wx_table = [wx_root, wx_x, wx_y]"

section \<open>Sector allocation of file data\<close>

text \<open>
  Away from the top of the 32-bit range, \<open>sectorsToContainFileBytes\<close> is
  \<open>max 1 (ceil (size / 2048))\<close>.
\<close>

lemma sectorsToContainFileBytes_in_range:
  assumes "unat s \<le> 4294965248"
  shows "unat (sectorsToContainFileBytes s) = max 1 ((unat s + 2047) div 2048)"
proof (cases "s = 0")
  case True
  then show ?thesis by (simp add: sectorsToContainFileBytes_def)
next
  case False
  then have pos: "0 < unat s" by (simp add: unat_gt_0)
  have "unat (s + 2047) = unat s + 2047"
    using assms by (simp add: unat_word_ariths)
  then have "unat ((s + 2047) div 2048) = (unat s + 2047) div 2048"
    by (simp add: unat_div)
  moreover have "1 \<le> (unat s + 2047) div 2048"
    using pos by simp
  ultimately show ?thesis
    using False by (simp add: sectorsToContainFileBytes_def SectorSize_def add.commute)
qed

text \<open>
  C8. The planner is to allocate \<open>max 1 (ceil (size / 2048))\<close> sectors to every file. A
  file of 4294967295 bytes (4 GiB - 1) needs 2097152 sectors; the 32-bit sum
  \<open>size + 2047\<close> wraps and \<open>sectorsToContainFileBytes\<close> returns 0, so the file loop of
  \<open>assignContentLBAs\<close> gives the next file the same LBA.
\<close>

theorem sectorsToContainFileBytes_wraps:
  "sectorsToContainFileBytes 4294967295 = 0
   \<and> max 1 ((4294967295 + 2047) div 2048) = (2097152 :: nat)
   \<and> map iso9660Sector (fst (assignFileDataLBAs
          [(newEntry n1 p1 1 0)\<lparr>iso9660Size := 4294967295\<rparr>,
           (newEntry n2 p2 1 0)\<lparr>iso9660Size := 5\<rparr>] lba)) = [lba, lba]"
  by (simp add: newEntry_def sectorsToContainFileBytes_def SectorSize_def)

section \<open>Sizes recorded by the scanner\<close>

text \<open>
  C10. The scanner keeps a regular file's size in a \<open>uint32\<close>: scanning a directory that
  holds one regular file of \<open>s\<close> bytes succeeds and records \<open>s mod 2^32\<close> in both
  namespaces; a file of \<open>2^32 + 5\<close> bytes is recorded with size 5.
\<close>

theorem scan_records_size_mod_2_32:
  "ScanSourceDirectory (Directory p [RegularFile n s]) =
     Inr [(rootEntry p)\<lparr>children := [1]\<rparr>,
          (newEntry n (p @ runes ''/'' @ n) 1 0)
            \<lparr>iso9660Size := word_of_int s, jolietSize := word_of_int s\<rparr>]
   \<and> uint (word_of_int s :: uint32) = s mod 2 ^ 32
   \<and> ScanSourceDirectory (Directory p [RegularFile n 4294967301]) =
     Inr [(rootEntry p)\<lparr>children := [1]\<rparr>,
          (newEntry n (p @ runes ''/'' @ n) 1 0)\<lparr>iso9660Size := 5, jolietSize := 5\<rparr>]"
  by (simp add: ScanSourceDirectory_def rootEntry_def newEntry_def appendChild_def
      uint_word_of_int take_bit_eq_mod)

section \<open>Primary identifiers\<close>

text \<open>
  C1. The primary identifier of a file is to hold at most one dot, between a base of at
  most 8 characters and an extension of at most 3. For \<open>a.b.c\<close> the sanitiser splits at
  the last dot, keeps the dot of the base \<open>a.b\<close>, and skips the second split because
  the extension is not empty: the identifier is \<open>A.B.C\<close>, with two dots.
\<close>

theorem sanitizeISO9660Name_two_dots:
  "sanitizeISO9660Name (runes ''a.b.c'') False = runes ''A.B.C''
   \<and> length (filter (\<lambda>r. r = ch CHR ''.'') (sanitizeISO9660Name (runes ''a.b.c'') False)) = 2"
  by code_simp

section \<open>Joliet identifiers\<close>

lemma length_encodeUTF16BE: "length (encodeUTF16BE s) = 2 * length (utf16_Encode s)"
  by (simp add: encodeUTF16BE_def length_concat sum_list_triv o_def)

lemma length_utf16_Encode_replicate:
  "length (utf16_Encode (replicate n r)) = n * length (utf16_EncodeRune r)"
  by (induction n) (simp_all add: utf16_Encode_def)

lemma truncateJolietName_64_emoji:
  "truncateJolietName (replicate 64 0x1F600) = replicate 64 0x1F600"
  by (simp add: truncateJolietName_def JolietMaxFilenameChars_def runes_def)

text \<open>
  C2. The Joliet identifier is to be at most 64 UCS-2 code units, 128 bytes. The
  truncation counts runes: a name of 64 runes above the BMP is returned as it is, and
  \<open>encodeUTF16BE\<close> turns it into 128 code units, 256 bytes.
\<close>

theorem truncateJolietName_counts_runes:
  "truncateJolietName (replicate 64 0x1F600) = replicate 64 0x1F600
   \<and> length (utf16_Encode (truncateJolietName (replicate 64 0x1F600))) = 128
   \<and> length (encodeUTF16BE (truncateJolietName (replicate 64 0x1F600))) = 256"
  by (simp add: truncateJolietName_64_emoji length_encodeUTF16BE
      length_utf16_Encode_replicate utf16_EncodeRune_def)

lemma length_utf16_Encode_bmp: "bmp s \<Longrightarrow> length (utf16_Encode s) = length s"
  by (induction s) (simp_all add: utf16_Encode_def utf16_EncodeRune_def bmp_def)

lemma bmp_take: "bmp s \<Longrightarrow> bmp (take n s)"
  by (auto simp: bmp_def list_all_iff dest: in_set_takeD)

text \<open>Within the BMP the truncation does bound the identifier by 64 code units.\<close>

lemma truncateJolietName_bmp:
  assumes "bmp name" "name \<noteq> [0]" "name \<noteq> runes ''.''" "name \<noteq> runes ''..''"
  shows "truncateJolietName name = take 64 name"
    and "length (utf16_Encode (truncateJolietName name)) \<le> 64"
    and "length (encodeUTF16BE (truncateJolietName name)) \<le> 128"
proof -
  show t: "truncateJolietName name = take 64 name"
    using assms by (simp add: truncateJolietName_def JolietMaxFilenameChars_def)
  show "length (utf16_Encode (truncateJolietName name)) \<le> 64"
    using assms(1) by (simp add: t length_utf16_Encode_bmp bmp_take)
  then show "length (encodeUTF16BE (truncateJolietName name)) \<le> 128"
    by (simp add: length_encodeUTF16BE)
qed

section \<open>Bounds on primary identifiers\<close>

lemma sanitizeRune_ascii: "sanitizeRune d r < 128"
  by (simp add: sanitizeRune_def)

lemma length_sanitizePartFunc: "length (sanitizePartFunc p n d) \<le> n"
  by (simp add: sanitizePartFunc_def Let_def strings_ToUpper_def)

lemma ascii_sanitizePartFunc: "ascii (sanitizePartFunc p n d)"
  by (auto simp: sanitizePartFunc_def Let_def ascii_def list_all_iff sanitizeRune_ascii
      dest!: in_set_takeD)

lemma ascii_take: "ascii s \<Longrightarrow> ascii (take n s)"
  by (auto simp: ascii_def list_all_iff dest: in_set_takeD)

lemma ascii_ReplaceAll: "ascii s \<Longrightarrow> b < 128 \<Longrightarrow> ascii (strings_ReplaceAll s a b)"
  by (auto simp: ascii_def list_all_iff strings_ReplaceAll_def)

lemma length_ReplaceAll: "length (strings_ReplaceAll s a b) = length s"
  by (simp add: strings_ReplaceAll_def)

lemma sanitizeISO9660Name_dir_bounds:
  "length (sanitizeISO9660Name n True) \<le> 8 \<and> ascii (sanitizeISO9660Name n True)"
proof -
  have "splitLastDot n True = (n, [])" by (simp add: splitLastDot_def)
  moreover have "ascii (runes ''DIR'')" by (simp add: ascii_def runes_def)
  ultimately show ?thesis
    using length_sanitizePartFunc[of n 8 False] ascii_sanitizePartFunc[of n 8 False]
    by (simp add: sanitizeISO9660Name_def Let_def length_ReplaceAll ascii_ReplaceAll ascii_take)
      (simp add: runes_def)
qed

lemma resplitDottedBase_bounds:
  assumes "resplitDottedBase b e = (b', e')" "ascii b" "ascii e" "length e \<le> 3"
  shows "ascii b' \<and> ascii e' \<and> length e' \<le> 3"
  using assms length_sanitizePartFunc[of "strings_SplitN2 b 46 ! 1" 3 False]
    ascii_sanitizePartFunc[of "strings_SplitN2 b 46 ! 1" 3 False]
    ascii_sanitizePartFunc[of "strings_SplitN2 b 46 ! 0" 8 False]
  by (auto simp: resplitDottedBase_def Let_def split: if_splits)

lemma assembleFileName_bounds:
  assumes "ascii b" "ascii e" "length e \<le> 3"
  shows "length (assembleFileName b e) \<le> 12 \<and> ascii (assembleFileName b e)"
proof -
  have f: "ascii (runes ''FILE'')" by (simp add: ascii_def runes_def)
  have t: "ascii (take 8 b)" using assms(1) by (rule ascii_take)
  have c: "\<And>x. ascii x \<Longrightarrow> ascii (x @ 46 # e)" using assms(2) by (simp add: ascii_def)
  show ?thesis
    using assms f t c[OF t] c[OF assms(1)]
    by (simp add: assembleFileName_def Let_def) (simp add: runes_def)
qed

lemma sanitizeISO9660Name_file_bounds:
  "length (sanitizeISO9660Name n False) \<le> 12 \<and> ascii (sanitizeISO9660Name n False)"
proof -
  obtain base ext where s: "splitLastDot n False = (base, ext)"
    by (cases "splitLastDot n False")
  define fe where "fe = (if ext \<noteq> [] then sanitizePartFunc ext 3 False else [])"
  obtain b' e' where r: "resplitDottedBase (sanitizePartFunc base 8 True) fe = (b', e')"
    by (cases "resplitDottedBase (sanitizePartFunc base 8 True) fe")
  have "ascii fe \<and> length fe \<le> 3"
    by (simp add: fe_def ascii_sanitizePartFunc length_sanitizePartFunc) (simp add: ascii_def)
  then have "ascii b' \<and> ascii e' \<and> length e' \<le> 3"
    using resplitDottedBase_bounds[OF r] ascii_sanitizePartFunc by blast
  then have "length (assembleFileName b' e') \<le> 12 \<and> ascii (assembleFileName b' e')"
    using assembleFileName_bounds by blast
  moreover have "sanitizeISO9660Name n False = assembleFileName b' e'"
    using s r by (simp add: sanitizeISO9660Name_def Let_def fe_def)
  ultimately show ?thesis by simp
qed

lemma length_utf8_string_ascii: "ascii s \<Longrightarrow> length (utf8_string s) = length s"
  by (induction s) (simp_all add: utf8_string_def utf8_EncodeRune_def ascii_def)

section \<open>Directory records\<close>

lemma length_copy_at [simp]: "off \<le> length buf \<Longrightarrow> length (copy_at buf off src) = length buf"
  by (auto simp: copy_at_def)

lemma nth_copy_at:
  "off \<le> length buf \<Longrightarrow> i < length buf \<Longrightarrow>
   copy_at buf off src ! i =
     (if off \<le> i \<and> i < off + length src then src ! (i - off) else buf ! i)"
  by (auto simp: copy_at_def nth_append)

lemma length_marshalDirectoryRecord:
  "length (marshalDirectoryRecord drf identifier) =
     (let n = 33 + unat (word_of_nat (length identifier) :: byte)
      in if n mod 2 \<noteq> 0 then n + 1 else n)"
  by (simp add: marshalDirectoryRecord_def Let_def drFixedPartSize_def)

lemma marshalDirectoryRecord_first:
  "marshalDirectoryRecord drf identifier ! 0 =
     word_of_nat (length (marshalDirectoryRecord drf identifier))"
  by (simp add: marshalDirectoryRecord_def Let_def drFixedPartSize_def nth_copy_at
      le16_def be16_def le32_def be32_def)

lemma marshalDirectoryRecord_flags:
  "marshalDirectoryRecord drf identifier ! 25 = FileFlags drf"
  by (simp add: marshalDirectoryRecord_def Let_def drFixedPartSize_def nth_copy_at
      le16_def be16_def)

lemma unat_byte_of_length: "n \<le> 255 \<Longrightarrow> unat (word_of_nat n :: byte) = n"
  by (simp add: unat_of_nat)

lemma length_marshalDirectoryRecord_int:
  assumes "length identifier \<le> 255"
  shows "int (length (marshalDirectoryRecord drf identifier)) =
           calculateDirectoryRecordSize identifier"
  using assms
  by (simp add: length_marshalDirectoryRecord calculateDirectoryRecordSize_def Let_def
      unat_byte_of_length drFixedPartSize_def, presburger)

lemma length_marshalDirectoryRecord_nat:
  assumes "length identifier \<le> 255"
  shows "length (marshalDirectoryRecord drf identifier) =
     (if odd (33 + length identifier) then 34 + length identifier else 33 + length identifier)"
  using assms
  by (simp add: length_marshalDirectoryRecord Let_def unat_byte_of_length, presburger)

lemma marshalDirectoryRecord_first_byte:
  assumes "length identifier \<le> 221"
  shows "unat (marshalDirectoryRecord drf identifier ! 0) =
           length (marshalDirectoryRecord drf identifier)"
proof -
  have "length (marshalDirectoryRecord drf identifier) \<le> 255"
    using assms by (simp add: length_marshalDirectoryRecord_nat)
  then show ?thesis
    by (simp add: marshalDirectoryRecord_first unat_byte_of_length)
qed

text \<open>The record encoder and the planner choose the same identifier bytes for an entry.\<close>

lemma getDRIdentifierBytes_root_flag:
  "getDRIdentifierBytes name isJoliet
     (r \<and> ((isJoliet \<and> (name = [0] \<or> name = runes ''.''))
           \<or> (\<not> isJoliet \<and> (name = [] \<or> name = runes ''.'')))) =
   getDRIdentifierBytes name isJoliet r"
  by (auto simp: getDRIdentifierBytes_def)

lemma length_createDirectoryRecordBytes:
  "length (createDirectoryRecordBytes stat now lba sz name f isJoliet) =
   length (marshalDirectoryRecord drf
             (getDRIdentifierBytes name isJoliet (pathTableDirNum f = 1)))"
  by (simp add: createDirectoryRecordBytes_def Let_def getDRIdentifierBytes_root_flag
      length_marshalDirectoryRecord)

lemma assign_pathTableDirNum [simp]:
  "pathTableDirNum (assignSanitizedNamesAndDrSizes_entry f) = pathTableDirNum f"
  by (simp add: assignSanitizedNamesAndDrSizes_entry_def Let_def)

lemma assign_isDir [simp]:
  "isDir (assignSanitizedNamesAndDrSizes_entry f) = isDir f"
  by (simp add: assignSanitizedNamesAndDrSizes_entry_def Let_def)

lemma assign_jolietName:
  "jolietName (assignSanitizedNamesAndDrSizes_entry f) =
     (if isDir f \<and> pathTableDirNum f = 1 then [0] else truncateJolietName (originalName f))"
  by (simp add: assignSanitizedNamesAndDrSizes_entry_def Let_def)

lemma assign_iso9660Name:
  "iso9660Name (assignSanitizedNamesAndDrSizes_entry f) =
     (if isDir f then (if pathTableDirNum f = 1 then [] else sanitizeISO9660Name (originalName f) True)
      else sanitizeISO9660Name (originalName f) False @ runes '';1'')"
  by (simp add: assignSanitizedNamesAndDrSizes_entry_def Let_def)

lemma assign_actualJolietDrSize:
  "actualJolietDrSize (assignSanitizedNamesAndDrSizes_entry f) =
   calculateDirectoryRecordSize
     (getDRIdentifierBytes (jolietName (assignSanitizedNamesAndDrSizes_entry f)) True
        (pathTableDirNum f = 1))"
  by (simp add: assignSanitizedNamesAndDrSizes_entry_def Let_def)

lemma assign_actualISO9660DrSize:
  "actualISO9660DrSize (assignSanitizedNamesAndDrSizes_entry f) =
   calculateDirectoryRecordSize
     (getDRIdentifierBytes (iso9660Name (assignSanitizedNamesAndDrSizes_entry f)) False
        (pathTableDirNum f = 1))"
  by (simp add: assignSanitizedNamesAndDrSizes_entry_def Let_def)

lemma ascii_assign_iso9660Name:
  "ascii (iso9660Name (assignSanitizedNamesAndDrSizes_entry f))
   \<and> length (iso9660Name (assignSanitizedNamesAndDrSizes_entry f)) \<le> 14"
  using sanitizeISO9660Name_dir_bounds[of "originalName f"]
    sanitizeISO9660Name_file_bounds[of "originalName f"]
  by (simp add: assign_iso9660Name ascii_def runes_def)

lemma length_primary_identifier:
  "length (getDRIdentifierBytes (iso9660Name (assignSanitizedNamesAndDrSizes_entry f)) False r)
     \<le> 14"
  using ascii_assign_iso9660Name[of f]
  by (simp add: getDRIdentifierBytes_def length_utf8_string_ascii)

lemma length_joliet_identifier:
  "length (getDRIdentifierBytes name True r) \<le> max 1 (length (encodeUTF16BE name))"
  by (simp add: getDRIdentifierBytes_def)

lemma populate_flags:
  "FileFlags (populateDirectoryRecordFields stat now lba sz name target) =
     (if isDir target then 2 else 0)
       OR (if isHidden target \<and> name \<noteq> runes ''.'' \<and> name \<noteq> runes ''..''
              \<and> name \<noteq> [] \<and> name \<noteq> [0] then 1 else 0)"
  by (simp add: populateDirectoryRecordFields_def Let_def)

lemma createDirectoryRecordBytes_flags:
  "createDirectoryRecordBytes stat now lba sz name target isJoliet ! 25 =
     FileFlags (populateDirectoryRecordFields stat now lba sz name target)"
  by (simp add: createDirectoryRecordBytes_def Let_def marshalDirectoryRecord_flags)

text \<open>
  C6. In a marshalled directory record the file-flags byte (offset 25) has bit 1 set
  exactly when the described entity is a directory, and bit 0 set exactly when the entity
  is hidden and the encoded name is none of \<open>.\<close>, \<open>..\<close>, the empty string and the root
  sentinel; the \<open>.\<close> and \<open>..\<close> records never carry the hidden bit, whatever the entity.
\<close>

theorem file_flags_byte:
  "bit (createDirectoryRecordBytes stat now lba sz name target isJoliet ! 25) 1 = isDir target
   \<and> bit (createDirectoryRecordBytes stat now lba sz name target isJoliet ! 25) 0 =
       (isHidden target \<and> name \<noteq> runes ''.'' \<and> name \<noteq> runes ''..'' \<and> name \<noteq> [] \<and> name \<noteq> [0])
   \<and> \<not> bit (createDirectoryRecordBytes stat now lba sz (runes ''.'') target isJoliet ! 25) 0
   \<and> \<not> bit (createDirectoryRecordBytes stat now lba sz (runes ''..'') target isJoliet ! 25) 0"
  by (simp add: createDirectoryRecordBytes_flags populate_flags bit_or_iff)

text \<open>
  C4, amended. For an identifier of at most 255 bytes the marshalled record has length
  \<open>33 + len(identifier)\<close> rounded up to even, which is \<open>calculateDirectoryRecordSize\<close>; for
  an identifier of at most 221 bytes its first byte is that length. For every entity the
  primary record has the length the planner stored in \<open>actualISO9660DrSize\<close>, and so has
  the Joliet record when the UCS-2BE identifier is at most 255 bytes (it is at most 128
  bytes for a name within the BMP, lemma \<open>truncateJolietName_bmp\<close>).
\<close>

theorem directory_record_length:
  "(length identifier \<le> 255 \<longrightarrow>
      length (marshalDirectoryRecord drf identifier) =
        (if odd (33 + length identifier) then 34 + length identifier else 33 + length identifier)
      \<and> int (length (marshalDirectoryRecord drf identifier)) =
          calculateDirectoryRecordSize identifier)
   \<and> (length identifier \<le> 221 \<longrightarrow>
        unat (marshalDirectoryRecord drf identifier ! 0) =
          length (marshalDirectoryRecord drf identifier))
   \<and> (let f' = assignSanitizedNamesAndDrSizes_entry f
       in int (length (createDirectoryRecordBytes stat now lba sz (iso9660Name f') f' False)) =
            actualISO9660DrSize f'
          \<and> (length (encodeUTF16BE (jolietName f')) \<le> 255 \<longrightarrow>
               int (length (createDirectoryRecordBytes stat now lba sz (jolietName f') f' True)) =
                 actualJolietDrSize f'))"
proof -
  let ?f = "assignSanitizedNamesAndDrSizes_entry f"
  let ?drf = "populateDirectoryRecordFields stat now lba sz [] f"
  have p: "length (getDRIdentifierBytes (iso9660Name ?f) False (pathTableDirNum f = 1)) \<le> 255"
    using length_primary_identifier[of f "pathTableDirNum f = 1"] by simp
  have iso: "int (length (createDirectoryRecordBytes stat now lba sz (iso9660Name ?f) ?f False)) =
      actualISO9660DrSize ?f"
    using length_marshalDirectoryRecord_int[OF p, of ?drf]
    by (simp add: length_createDirectoryRecordBytes[where drf = ?drf] assign_actualISO9660DrSize)
  have jol: "int (length (createDirectoryRecordBytes stat now lba sz (jolietName ?f) ?f True)) =
      actualJolietDrSize ?f" if "length (encodeUTF16BE (jolietName ?f)) \<le> 255"
  proof -
    have "length (getDRIdentifierBytes (jolietName ?f) True (pathTableDirNum f = 1)) \<le> 255"
      using that length_joliet_identifier[of "jolietName ?f" "pathTableDirNum f = 1"] by simp
    from length_marshalDirectoryRecord_int[OF this, of ?drf] show ?thesis
      by (simp add: length_createDirectoryRecordBytes[where drf = ?drf] assign_actualJolietDrSize)
  qed
  have a: "length identifier \<le> 255 \<longrightarrow>
      length (marshalDirectoryRecord drf identifier) =
        (if odd (33 + length identifier) then 34 + length identifier else 33 + length identifier)
      \<and> int (length (marshalDirectoryRecord drf identifier)) =
          calculateDirectoryRecordSize identifier"
    using length_marshalDirectoryRecord_int length_marshalDirectoryRecord_nat by blast
  have b: "length identifier \<le> 221 \<longrightarrow>
        unat (marshalDirectoryRecord drf identifier ! 0) =
          length (marshalDirectoryRecord drf identifier)"
    using marshalDirectoryRecord_first_byte by blast
  show ?thesis
    unfolding Let_def using a b iso jol by blast
qed

text \<open>The amended C4 at the identifier \<open>A;1\<close> and at a file named \<open>a.txt\<close>.\<close>

theorem directory_record_length_witness:
  "length (marshalDirectoryRecord (populateDirectoryRecordFields noStat epoch 0 0 [] (rootEntry []))
             [65, 59, 49]) = 36
   \<and> unat (marshalDirectoryRecord (populateDirectoryRecordFields noStat epoch 0 0 [] (rootEntry []))
             [65, 59, 49] ! 0) = 36
   \<and> int (length (createDirectoryRecordBytes noStat epoch 30 5
         (iso9660Name (assignSanitizedNamesAndDrSizes_entry (newEntry (runes ''a.txt'') [] 1 0)))
         (assignSanitizedNamesAndDrSizes_entry (newEntry (runes ''a.txt'') [] 1 0)) False)) =
       actualISO9660DrSize (assignSanitizedNamesAndDrSizes_entry (newEntry (runes ''a.txt'') [] 1 0))
   \<and> int (length (createDirectoryRecordBytes noStat epoch 30 5
         (jolietName (assignSanitizedNamesAndDrSizes_entry (newEntry (runes ''a.txt'') [] 1 0)))
         (assignSanitizedNamesAndDrSizes_entry (newEntry (runes ''a.txt'') [] 1 0)) True)) =
       actualJolietDrSize (assignSanitizedNamesAndDrSizes_entry (newEntry (runes ''a.txt'') [] 1 0))"
proof -
  let ?f = "newEntry (runes ''a.txt'') [] 1 0"
  have j: "jolietName (assignSanitizedNamesAndDrSizes_entry ?f) = runes ''a.txt''"
    by (simp add: assign_jolietName newEntry_def truncateJolietName_def runes_def
        JolietMaxFilenameChars_def)
  have h: "length (encodeUTF16BE (jolietName (assignSanitizedNamesAndDrSizes_entry ?f))) \<le> 255"
    unfolding j by (simp add: length_encodeUTF16BE utf16_Encode_def utf16_EncodeRune_def runes_def)
  have i: "length [65, 59, 49 :: byte] \<le> 221" by simp
  show ?thesis
    using directory_record_length[of "[65, 59, 49]"
        "populateDirectoryRecordFields noStat epoch 0 0 [] (rootEntry [])" ?f noStat epoch 30 5] h i
    by (simp add: Let_def)
qed

text \<open>
  C4 as stated fails for long identifiers, because the identifier length and the record
  length are stored in one byte each: 256 bytes give a record of 34 bytes where
  \<open>calculateDirectoryRecordSize\<close> says 290; 222 bytes give a record of 256 bytes whose
  first byte is 0; and a file named with 64 runes above the BMP has a Joliet record of
  34 bytes against a stored size of 290.
\<close>

theorem directory_record_length_counterexample:
  "length (marshalDirectoryRecord (populateDirectoryRecordFields noStat epoch 0 0 [] (rootEntry []))
             (replicate 256 0)) = 34
   \<and> calculateDirectoryRecordSize (replicate 256 0) = 290
   \<and> length (marshalDirectoryRecord (populateDirectoryRecordFields noStat epoch 0 0 [] (rootEntry []))
             (replicate 222 0)) = 256
   \<and> marshalDirectoryRecord (populateDirectoryRecordFields noStat epoch 0 0 [] (rootEntry []))
             (replicate 222 0) ! 0 = 0
   \<and> actualJolietDrSize
        (assignSanitizedNamesAndDrSizes_entry (newEntry (replicate 64 0x1F600) [] 1 0)) = 290
   \<and> length (createDirectoryRecordBytes noStat epoch 30 5
         (jolietName (assignSanitizedNamesAndDrSizes_entry (newEntry (replicate 64 0x1F600) [] 1 0)))
         (assignSanitizedNamesAndDrSizes_entry (newEntry (replicate 64 0x1F600) [] 1 0)) True) = 34"
proof -
  let ?f = "newEntry (replicate 64 0x1F600) [] 1 0"
  let ?drf = "populateDirectoryRecordFields noStat epoch 0 0 [] (rootEntry [])"
  have j: "jolietName (assignSanitizedNamesAndDrSizes_entry ?f) = replicate 64 0x1F600"
    by (simp add: assign_jolietName newEntry_def truncateJolietName_64_emoji)
  have n: "pathTableDirNum ?f \<noteq> 1" by (simp add: newEntry_def)
  have g: "getDRIdentifierBytes (replicate 64 0x1F600) True False = encodeUTF16BE (replicate 64 0x1F600)"
    by (simp add: getDRIdentifierBytes_def runes_def)
  have l: "length (encodeUTF16BE (replicate 64 0x1F600)) = 256"
    by (simp add: length_encodeUTF16BE length_utf16_Encode_replicate utf16_EncodeRune_def)
  have a: "actualJolietDrSize (assignSanitizedNamesAndDrSizes_entry ?f) = 290"
    using n by (simp add: assign_actualJolietDrSize j g l calculateDirectoryRecordSize_def drFixedPartSize_def)
  have b: "length (createDirectoryRecordBytes noStat epoch 30 5
         (jolietName (assignSanitizedNamesAndDrSizes_entry ?f))
         (assignSanitizedNamesAndDrSizes_entry ?f) True) = 34"
    using n by (simp add: length_createDirectoryRecordBytes[where drf = ?drf] j g l
        length_marshalDirectoryRecord)
  show ?thesis
    using a b
    by (simp add: length_marshalDirectoryRecord marshalDirectoryRecord_first
        calculateDirectoryRecordSize_def drFixedPartSize_def)
qed

section \<open>What the scanner guarantees\<close>

lemma sameFileSizes_appendChild:
  assumes "sameFileSizes es" "isDir fe \<or> iso9660Size fe = jolietSize fe"
  shows "sameFileSizes (appendChild es p fe)"
proof -
  have a: "sameFileSizes (es @ [fe])" using assms by (simp add: sameFileSizes_def)
  show ?thesis
  proof (cases "p < length (es @ [fe])")
    case True
    then have "(es @ [fe]) ! p \<in> set (es @ [fe])" by (rule nth_mem)
    then have "isDir ((es @ [fe]) ! p) \<or> iso9660Size ((es @ [fe]) ! p) = jolietSize ((es @ [fe]) ! p)"
      using a unfolding sameFileSizes_def list_all_iff by blast
    then show ?thesis
      using a set_update_subset_insert[of "es @ [fe]" p]
      by (fastforce simp: appendChild_def Let_def sameFileSizes_def list_all_iff)
  next
    case False
    then show ?thesis using a by (simp add: appendChild_def Let_def list_update_beyond)
  qed
qed

lemma scanDirectoryRecursive_sameFileSizes:
  "scanDirectoryRecursive nodes path p st = Inr st' \<Longrightarrow> sameFileSizes (fst st) \<Longrightarrow> sameFileSizes (fst st')"
proof (induction nodes path p st arbitrary: st' rule: scanDirectoryRecursive.induct)
  case (3 name sub rest currentDiskPath parentEntryIndex es nextPathTableNumber)
  then show ?case
    by (auto simp: Let_def newEntry_def sameFileSizes_appendChild split: sum.splits)
next
  case (5 name fileSize rest currentDiskPath parentEntryIndex es nextPathTableNumber)
  then show ?case
    by (auto simp: Let_def newEntry_def sameFileSizes_appendChild split: sum.splits)
qed auto

lemma ScanSourceDirectory_sameFileSizes:
  assumes "ScanSourceDirectory src = Inr es"
  shows "sameFileSizes es"
proof -
  from assms obtain absPath osEntries n where
    "scanDirectoryRecursive osEntries absPath 0 ([rootEntry absPath], 2) = Inr (es, n)"
    by (auto simp: ScanSourceDirectory_def split: fsnode.splits sum.splits)
  from scanDirectoryRecursive_sameFileSizes[OF this] show ?thesis
    by (simp add: sameFileSizes_def rootEntry_def)
qed

section \<open>What the planner leaves alone\<close>

lemma nonLayout_simps [simp]:
  "nonLayout (f\<lparr>iso9660Size := a\<rparr>) = nonLayout f"
  "nonLayout (f\<lparr>jolietSize := a\<rparr>) = nonLayout f"
  "nonLayout (f\<lparr>iso9660Sector := a\<rparr>) = nonLayout f"
  "nonLayout (f\<lparr>jolietSector := a\<rparr>) = nonLayout f"
  by (simp_all add: nonLayout_def)

lemma nonLayout_isDir: "nonLayout f' = nonLayout f \<Longrightarrow> isDir f' = isDir f"
proof -
  assume a: "nonLayout f' = nonLayout f"
  have "isDir (nonLayout f') = isDir f'" "isDir (nonLayout f) = isDir f"
    by (simp_all add: nonLayout_def)
  with a show ?thesis by simp
qed

lemma replanned_refl: "replanned f f"
  by (simp add: replanned_def)

lemma replanned_trans: "replanned f g \<Longrightarrow> replanned g h \<Longrightarrow> replanned f h"
  unfolding replanned_def using nonLayout_isDir[of g f] by auto

lemma replanned_list_refl: "list_all2 replanned es es"
  by (simp add: list_all2_refl replanned_refl)

lemma replanned_list_trans:
  "list_all2 replanned es fs \<Longrightarrow> list_all2 replanned fs gs \<Longrightarrow> list_all2 replanned es gs"
  using list_all2_trans[of replanned replanned replanned] replanned_trans by blast

lemma replanned_update:
  assumes "i < length es" "replanned (es ! i) g"
  shows "list_all2 replanned es (es[i := g])"
  using assms by (simp add: list_all2_conv_all_nth nth_list_update replanned_refl)

lemma assignISO9660DirLBAs_replanned:
  "assignISO9660DirLBAs es lba = Inr (es', lba') \<Longrightarrow> list_all2 replanned es es'"
proof (induction es arbitrary: lba es' lba')
  case Nil then show ?case by simp
next
  case (Cons f fs)
  show ?case
  proof (cases "isDir f")
    case True
    with Cons.prems obtain fs' where
      r: "assignISO9660DirLBAs fs (lba + iso9660Size f div word_of_nat SectorSize) = Inr (fs', lba')"
      and e: "es' = f\<lparr>iso9660Sector := lba\<rparr> # fs'"
      by (auto split: if_splits sum.splits)
    from Cons.IH[OF r] True show ?thesis by (simp add: e replanned_def)
  next
    case False
    with Cons.prems obtain fs' where
      r: "assignISO9660DirLBAs fs lba = Inr (fs', lba')" and e: "es' = f # fs'"
      by (auto split: sum.splits)
    from Cons.IH[OF r] show ?thesis by (simp add: e replanned_refl)
  qed
qed

lemma assignJolietDirLBAs_replanned:
  "assignJolietDirLBAs es lba = Inr (es', lba') \<Longrightarrow> list_all2 replanned es es'"
proof (induction es arbitrary: lba es' lba')
  case Nil then show ?case by simp
next
  case (Cons f fs)
  show ?case
  proof (cases "isDir f")
    case True
    with Cons.prems obtain fs' where
      r: "assignJolietDirLBAs fs (lba + jolietSize f div word_of_nat SectorSize) = Inr (fs', lba')"
      and e: "es' = f\<lparr>jolietSector := lba\<rparr> # fs'"
      by (auto split: if_splits sum.splits)
    from Cons.IH[OF r] True show ?thesis by (simp add: e replanned_def)
  next
    case False
    with Cons.prems obtain fs' where
      r: "assignJolietDirLBAs fs lba = Inr (fs', lba')" and e: "es' = f # fs'"
      by (auto split: sum.splits)
    from Cons.IH[OF r] show ?thesis by (simp add: e replanned_refl)
  qed
qed

lemma assignJolietDirLBAs_sameFileSectors:
  "assignJolietDirLBAs es lba = Inr (es', lba') \<Longrightarrow> sameFileSectors es \<Longrightarrow> sameFileSectors es'"
proof (induction es arbitrary: lba es' lba')
  case Nil then show ?case by (simp add: sameFileSectors_def)
next
  case (Cons f fs)
  show ?case
  proof (cases "isDir f")
    case True
    with Cons.prems obtain fs' where
      r: "assignJolietDirLBAs fs (lba + jolietSize f div word_of_nat SectorSize) = Inr (fs', lba')"
      and e: "es' = f\<lparr>jolietSector := lba\<rparr> # fs'"
      by (auto split: if_splits sum.splits)
    from Cons.IH[OF r] Cons.prems(2) True show ?thesis by (simp add: e sameFileSectors_def)
  next
    case False
    with Cons.prems obtain fs' where
      r: "assignJolietDirLBAs fs lba = Inr (fs', lba')" and e: "es' = f # fs'"
      by (auto split: sum.splits)
    from Cons.IH[OF r] Cons.prems(2) show ?thesis by (simp add: e sameFileSectors_def)
  qed
qed

lemma assignFileDataLBAs_replanned:
  "assignFileDataLBAs es lba = (es', lba') \<Longrightarrow> list_all2 replanned es es'"
proof (induction es arbitrary: lba es' lba')
  case Nil then show ?case by simp
next
  case (Cons f fs)
  show ?case
  proof (cases "isDir f")
    case True
    with Cons.prems obtain fs' where
      r: "assignFileDataLBAs fs lba = (fs', lba')" and e: "es' = f # fs'"
      by (auto split: prod.splits)
    from Cons.IH[OF r] show ?thesis by (simp add: e replanned_refl)
  next
    case False
    with Cons.prems obtain fs' where
      r: "assignFileDataLBAs fs (lba + sectorsToContainFileBytes (iso9660Size f)) = (fs', lba')"
      and e: "es' = f\<lparr>iso9660Sector := lba, jolietSector := lba\<rparr> # fs'"
      by (auto split: prod.splits)
    from Cons.IH[OF r] show ?thesis by (simp add: e replanned_def)
  qed
qed

lemma assignFileDataLBAs_sameFileSectors:
  "assignFileDataLBAs es lba = (es', lba') \<Longrightarrow> sameFileSectors es'"
proof (induction es arbitrary: lba es' lba')
  case Nil then show ?case by (simp add: sameFileSectors_def)
next
  case (Cons f fs)
  show ?case
  proof (cases "isDir f")
    case True
    with Cons.prems obtain fs' where
      r: "assignFileDataLBAs fs lba = (fs', lba')" and e: "es' = f # fs'"
      by (auto split: prod.splits)
    from Cons.IH[OF r] True show ?thesis by (simp add: e sameFileSectors_def)
  next
    case False
    with Cons.prems obtain fs' where
      r: "assignFileDataLBAs fs (lba + sectorsToContainFileBytes (iso9660Size f)) = (fs', lba')"
      and e: "es' = f\<lparr>iso9660Sector := lba, jolietSector := lba\<rparr> # fs'"
      by (auto split: prod.splits)
    from Cons.IH[OF r] show ?thesis by (simp add: e sameFileSectors_def)
  qed
qed

lemma bind_Inr: "bind m f = Inr y \<Longrightarrow> \<exists>x. m = Inr x \<and> f x = Inr y"
  by (cases m) (simp_all add: bind_def)

lemma index_Inr: "index xs i = Inr x \<Longrightarrow> i < length xs \<and> x = xs ! i"
  by (auto simp: index_def split: if_splits)

lemma calculateSingle_in_range:
  "calculateSingleDirectoryExtentSizeBytes es i j = Inr s \<Longrightarrow> i < length es"
  unfolding calculateSingleDirectoryExtentSizeBytes_def
  by (drule bind_Inr) (auto dest: index_Inr)

lemma extentSizesLoop_replanned:
  "extentSizesLoop is es = Inr es' \<Longrightarrow> list_all2 replanned es es'"
proof (induction "is" arbitrary: es es')
  case Nil then show ?case by (simp add: replanned_list_refl)
next
  case (Cons i rest)
  show ?case
  proof (cases "isDir (es ! i)")
    case False
    with Cons show ?thesis by simp
  next
    case True
    define es1 where "es1 = (\<lambda>s1. es[i := (es ! i)\<lparr>iso9660Size := s1\<rparr>])"
    define es2 where "es2 = (\<lambda>s1 s2. (es1 s1)[i := ((es1 s1) ! i)\<lparr>jolietSize := s2\<rparr>])"
    from Cons.prems True obtain s1 s2 where
      c1: "calculateSingleDirectoryExtentSizeBytes es i False = Inr s1" and
      c2: "calculateSingleDirectoryExtentSizeBytes (es1 s1) i True = Inr s2" and
      r: "extentSizesLoop rest (es2 s1 s2) = Inr es'"
      by (auto simp: Let_def es1_def es2_def split: sum.splits)
    have i: "i < length es" using c1 by (rule calculateSingle_in_range)
    have a: "list_all2 replanned es (es1 s1)"
      unfolding es1_def using i True by (intro replanned_update) (simp_all add: replanned_def)
    have "isDir (es1 s1 ! i)" using i True by (simp add: es1_def)
    then have b: "list_all2 replanned (es1 s1) (es2 s1 s2)"
      unfolding es2_def using i by (intro replanned_update) (simp_all add: replanned_def es1_def)
    from replanned_list_trans[OF replanned_list_trans[OF a b] Cons.IH[OF r]] show ?thesis .
  qed
qed

lemma calculateAllDirectoryExtentSizes_replanned:
  assumes "calculateAllDirectoryExtentSizes b = Inr b'"
  shows "list_all2 replanned (fileEntries b) (fileEntries b')"
proof -
  from assms obtain es where
    l: "extentSizesLoop [0 ..< length (fileEntries b)] (fileEntries b) = Inr es" and
    b': "fileEntries b' = es"
    unfolding calculateAllDirectoryExtentSizes_def
    by (auto dest!: bind_Inr)
  from extentSizesLoop_replanned[OF l] show ?thesis by (simp add: b')
qed

lemma determinePathTableLBAs_fileEntries:
  "fileEntries (fst (determinePathTableLBAs b lba)) = fileEntries b"
  by (simp add: determinePathTableLBAs_def Let_def assignPathTableSetLBAs_def)

lemma assignContentLBAs_replanned:
  assumes "assignContentLBAs b lba = Inr (b', lba')"
  shows "list_all2 replanned (fileEntries b) (fileEntries b') \<and> sameFileSectors (fileEntries b')"
proof -
  from assms obtain es1 lba1 es3 lba3 where
    a: "assignISO9660DirLBAs (fileEntries b) lba = Inr (es1, lba1)" and
    c: "assignJolietDirLBAs (fst (assignFileDataLBAs es1 lba1)) (snd (assignFileDataLBAs es1 lba1))
          = Inr (es3, lba3)" and
    b': "fileEntries b' = es3"
    unfolding assignContentLBAs_def
    by (auto dest!: bind_Inr simp: Let_def split: prod.splits)
  obtain es2 lba2 where f: "assignFileDataLBAs es1 lba1 = (es2, lba2)"
    by (cases "assignFileDataLBAs es1 lba1")
  from c f have c': "assignJolietDirLBAs es2 lba2 = Inr (es3, lba3)" by simp
  have "list_all2 replanned (fileEntries b) es3"
    using replanned_list_trans[OF replanned_list_trans[OF assignISO9660DirLBAs_replanned[OF a]
          assignFileDataLBAs_replanned[OF f]] assignJolietDirLBAs_replanned[OF c']] .
  moreover have "sameFileSectors es3"
    using assignJolietDirLBAs_sameFileSectors[OF c' assignFileDataLBAs_sameFileSectors[OF f]] .
  ultimately show ?thesis by (simp add: b')
qed

lemma pregeneratePathTables_fileEntries:
  assumes "pregeneratePathTables b = Inr b'"
  shows "fileEntries b' = fileEntries b"
  using assms unfolding pregeneratePathTables_def
  by (auto dest!: bind_Inr simp: Let_def split: if_splits)

lemma calculateLayout_replanned:
  assumes "calculateLayout b = Inr b'"
  shows "list_all2 replanned (map assignSanitizedNamesAndDrSizes_entry (fileEntries b)) (fileEntries b')
         \<and> sameFileSectors (fileEntries b')"
proof -
  define b1 where "b1 = assignSanitizedNamesAndDrSizes b"
  from assms obtain b2 where
    s2: "calculateAllDirectoryExtentSizes b1 = Inr b2" and
    rest: "(let currentLBA = (word_of_nat (SystemAreaNumSectors + 3) :: uint32);
               (b, currentLBA) = determinePathTableLBAs b2 currentLBA
           in bind (assignContentLBAs b currentLBA) (\<lambda>(b, currentLBA).
                let b = b\<lparr>totalSectors := currentLBA\<rparr>;
                    b = b\<lparr>totalSectors := totalSectors b + 1\<rparr>
                in pregeneratePathTables b)) = Inr b'"
    unfolding calculateLayout_def b1_def Let_def
    by (auto dest!: bind_Inr)
  obtain b3 lba3 where d: "determinePathTableLBAs b2 (word_of_nat (SystemAreaNumSectors + 3)) = (b3, lba3)"
    by (cases "determinePathTableLBAs b2 (word_of_nat (SystemAreaNumSectors + 3))")
  from rest d obtain b4 lba4 where
    s4: "assignContentLBAs b3 lba3 = Inr (b4, lba4)" and
    s5: "pregeneratePathTables (b4\<lparr>totalSectors := lba4 + 1\<rparr>) = Inr b'"
    by (auto dest!: bind_Inr simp: Let_def)
  have e3: "fileEntries b3 = fileEntries b2"
    using determinePathTableLBAs_fileEntries[of b2 "word_of_nat (SystemAreaNumSectors + 3)"] d by simp
  have e5: "fileEntries b' = fileEntries b4"
    using pregeneratePathTables_fileEntries[OF s5] by simp
  have e1: "fileEntries b1 = map assignSanitizedNamesAndDrSizes_entry (fileEntries b)"
    by (simp add: b1_def assignSanitizedNamesAndDrSizes_def)
  from calculateAllDirectoryExtentSizes_replanned[OF s2] assignContentLBAs_replanned[OF s4]
  show ?thesis
    using replanned_list_trans e1 e3 e5 by metis
qed

lemma marshalDirectoryRecord_ge_34: "34 \<le> length (marshalDirectoryRecord drf ident)"
  by (simp add: length_marshalDirectoryRecord Let_def, presburger)

lemma take_copy_at_before:
  "n \<le> off \<Longrightarrow> off \<le> length buf \<Longrightarrow> take n (copy_at buf off src) = take n buf"
  by (simp add: copy_at_def min_def)

lemma take_copy_at_end:
  "off + length src = n \<Longrightarrow> n \<le> length buf \<Longrightarrow> take n (copy_at buf off src) = take off buf @ src"
  by (auto simp: copy_at_def min_def)

lemma length_le32 [simp]: "length (le32 v) = 4" by (simp add: le32_def)
lemma length_be32 [simp]: "length (be32 v) = 4" by (simp add: be32_def)
lemma length_le16 [simp]: "length (le16 v) = 2" by (simp add: le16_def)
lemma length_be16 [simp]: "length (be16 v) = 2" by (simp add: be16_def)

lemma recordExtent_marshalDirectoryRecord:
  "recordExtent (marshalDirectoryRecord drf ident) =
     le32 (LocationExtent drf) @ be32 (LocationExtent drf)
       @ le32 (DataLength drf) @ be32 (DataLength drf)"
proof -
  define n where "n = length (marshalDirectoryRecord drf ident)"
  have n: "34 \<le> n" unfolding n_def by (rule marshalDirectoryRecord_ge_34)
  have n': "n = (if (33 + unat (word_of_nat (length ident) :: byte)) mod 2 \<noteq> 0
                 then 33 + unat (word_of_nat (length ident) :: byte) + 1
                 else 33 + unat (word_of_nat (length ident) :: byte))"
    unfolding n_def by (simp add: length_marshalDirectoryRecord Let_def)
  have "take 18 (marshalDirectoryRecord drf ident) =
     take 2 ((replicate n 0)[0 := word_of_nat n, 1 := ExtendedAttributeRecordLength drf])
       @ le32 (LocationExtent drf) @ be32 (LocationExtent drf)
       @ le32 (DataLength drf) @ be32 (DataLength drf)"
    using n unfolding marshalDirectoryRecord_def Let_def drFixedPartSize_def n'[symmetric]
    by (simp add: take_copy_at_before take_copy_at_end)
  then have "drop 2 (take 18 (marshalDirectoryRecord drf ident)) =
       le32 (LocationExtent drf) @ be32 (LocationExtent drf)
       @ le32 (DataLength drf) @ be32 (DataLength drf)"
    using n by simp
  then show ?thesis
    by (simp add: recordExtent_def drop_take)
qed

section \<open>The worked example, step by step\<close>

lemma ex_scan: "ScanSourceDirectory ex_tree = Inr [ex_root, ex_file]"
  by (simp add: ex_tree_def ScanSourceDirectory_def rootEntry_def newEntry_def appendChild_def
      ex_root_def ex_file_def runes_def)

lemma ex_sanitize: "sanitizeISO9660Name (runes ''a'') False = runes ''A''"
  by code_simp

lemma ex_assign_root: "assignSanitizedNamesAndDrSizes_entry ex_root = ex_root_named"
  by (simp add: assignSanitizedNamesAndDrSizes_entry_def Let_def ex_root_def ex_root_named_def
      rootEntry_def newEntry_def calculateDirectoryRecordSize_def getDRIdentifierBytes_def
      drFixedPartSize_def)

lemma ex_assign_file: "assignSanitizedNamesAndDrSizes_entry ex_file = ex_file_named"
  unfolding assignSanitizedNamesAndDrSizes_entry_def Let_def ex_file_named_def
  by (simp add: ex_file_def newEntry_def ex_sanitize truncateJolietName_def JolietMaxFilenameChars_def)
     (simp add: runes_def calculateDirectoryRecordSize_def getDRIdentifierBytes_def drFixedPartSize_def
        encodeUTF16BE_def utf16_Encode_def utf16_EncodeRune_def utf8_string_def utf8_EncodeRune_def)

lemma ex_fields [simp]:
  "isDir ex_root_named" "\<not> isDir ex_file_named"
  "pathTableDirNum ex_root_named = 1" "pathTableDirNum ex_file_named = 0"
  "children ex_root_named = [1]" "parentIndex ex_root_named = 0"
  "actualISO9660DrSize ex_file_named = 36" "actualJolietDrSize ex_file_named = 36"
  "iso9660Size ex_file_named = 5" "jolietSize ex_file_named = 5"
  by (simp_all add: ex_root_named_def ex_file_named_def ex_root_def ex_file_def rootEntry_def
      newEntry_def)

lemma ex_single:
  "pathTableDirNum r = 1 \<Longrightarrow> children r = [1] \<Longrightarrow>
   calculateSingleDirectoryExtentSizeBytes [r, ex_file_named] 0 j = Inr 2048"
  by (simp add: calculateSingleDirectoryExtentSizeBytes_def bind_def index_def Let_def
      calculateDirectoryRecordSize_def getDRIdentifierBytes_def drFixedPartSize_def SectorSize_def
      encodeUTF16BE_def utf16_Encode_def utf16_EncodeRune_def runes_def)

lemma ex_extents:
  "extentSizesLoop [0 ..< 2] [ex_root_named, ex_file_named] =
     Inr [ex_root_named\<lparr>iso9660Size := 2048, jolietSize := 2048\<rparr>, ex_file_named]"
proof -
  have u: "[0 ..< 2] = [0, 1]" by (simp add: upt_rec)
  show ?thesis
    unfolding u by (simp add: ex_single Let_def)
qed

lemma ex_pt_bytes:
  "isDir r \<Longrightarrow> pathTableDirNum r = 1 \<Longrightarrow>
   calculatePathTableTotalBytes [r, ex_file_named] j = 10"
  by (simp add: Let_def pathTableIdentifier_def ptRecFixedPartSize_def)

lemma ex_content:
  "fileEntries b = [ex_root_named\<lparr>iso9660Size := 2048, jolietSize := 2048\<rparr>, ex_file_named] \<Longrightarrow>
   assignContentLBAs b 27 = Inr (b\<lparr>fileEntries := [ex_root_planned, ex_file_planned]\<rparr>, 30)"
  by (simp add: assignContentLBAs_def bind_def SectorSize_def sectorsToContainFileBytes_def
      ex_root_planned_def ex_file_planned_def)

lemma ex_planned_fields [simp]:
  "isDir ex_root_planned" "\<not> isDir ex_file_planned"
  "pathTableDirNum ex_root_planned = 1" "pathTableDirNum ex_file_planned = 0"
  "parentIndex ex_root_planned = 0"
  "iso9660Sector ex_root_planned = 27" "jolietSector ex_root_planned = 29"
  by (simp_all add: ex_root_planned_def ex_file_planned_def)

lemma ex_pathTable:
  "createPathTable [ex_root_planned, ex_file_planned] j be =
     Inr (marshalPathTableRecord
            \<lparr> ptExtendedAttributeRecordLength = 0,
              LocationOfExtent = (if j then 29 else 27),
              ParentDirectoryNumber = 1 \<rparr> [0] be)"
  by (simp add: createPathTable_def pathTableDirs_def sortedPathTableDirs_def sort_Slice_def
      pathTableRecord_def pathTableIdentifier_def Let_def)

lemma ex_marshal:
  "marshalPathTableRecord
      \<lparr> ptExtendedAttributeRecordLength = 0, LocationOfExtent = v, ParentDirectoryNumber = 1 \<rparr>
      [0] be =
   (if be then [1, 0] @ be32 v @ [0, 1, 0, 0] else [1, 0] @ le32 v @ [1, 0, 0, 0])"
  by (simp add: marshalPathTableRecord_def Let_def ptRecFixedPartSize_def copy_at_def
      le16_def be16_def numeral_eq_Suc)

lemma ex_assign:
  "assignSanitizedNamesAndDrSizes (NewBuilder [ex_root, ex_file]) =
     NewBuilder [ex_root_named, ex_file_named]"
  by (simp add: assignSanitizedNamesAndDrSizes_def NewBuilder_def ex_assign_root ex_assign_file)

lemma fileEntries_NewBuilder [simp]: "fileEntries (NewBuilder es) = es"
  by (simp add: NewBuilder_def)

lemma ex_sizes:
  "calculateAllDirectoryExtentSizes (NewBuilder [ex_root_named, ex_file_named]) =
     Inr ((NewBuilder [ex_root_named\<lparr>iso9660Size := 2048, jolietSize := 2048\<rparr>, ex_file_named])
            \<lparr>pvdRootDirExtentSize := 2048, svdRootDirExtentSize := 2048\<rparr>)"
proof -
  have "length [ex_root_named, ex_file_named] = 2"
    by simp
  then have l: "[0 ..< length [ex_root_named, ex_file_named]] = [0 ..< 2]"
    by (rule arg_cong)
  show ?thesis
    unfolding calculateAllDirectoryExtentSizes_def fileEntries_NewBuilder l ex_extents
    by (simp add: NewBuilder_def bind_def index_def)
qed

lemma ex_ptlbas:
  assumes "fileEntries b = [ex_root_named\<lparr>iso9660Size := 2048, jolietSize := 2048\<rparr>, ex_file_named]"
  shows "determinePathTableLBAs b 19 =
     (b\<lparr>lbaPvdPathTableL := 19, lbaPvdPathTableM := 20,
            lbaSvdPathTableL := 21, lbaSvdPathTableM := 22,
            lbaPvdPathTableL2 := 23, lbaPvdPathTableM2 := 24,
            lbaSvdPathTableL2 := 25, lbaSvdPathTableM2 := 26\<rparr>, 27)"
proof -
  have p1: "calculatePathTableTotalBytes (fileEntries b) False = 10"
    unfolding assms by (rule ex_pt_bytes) simp_all
  have p2: "calculatePathTableTotalBytes (fileEntries b) True = 10"
    unfolding assms by (rule ex_pt_bytes) simp_all
  have s: "sectorsToContainBytes 10 = 1"
    by (simp add: sectorsToContainBytes_def SectorSize_def)
  show ?thesis
    unfolding determinePathTableLBAs_def p1 p2
    by (simp add: s assignPathTableSetLBAs_def Let_def)
qed

lemma ex_pregenerate:
  assumes "fileEntries b = [ex_root_planned, ex_file_planned]"
  shows "pregeneratePathTables b =
     Inr (b\<lparr>pvdPathTableLData := [1, 0, 27, 0, 0, 0, 1, 0, 0, 0],
            pvdPathTableMData := [1, 0, 0, 0, 0, 27, 0, 1, 0, 0],
            svdPathTableLData := [1, 0, 29, 0, 0, 0, 1, 0, 0, 0],
            svdPathTableMData := [1, 0, 0, 0, 0, 29, 0, 1, 0, 0]\<rparr>)"
proof -
  have p: "calculatePathTableTotalBytes [ex_root_planned, ex_file_planned] j = 10" for j
    by (simp add: Let_def pathTableIdentifier_def ptRecFixedPartSize_def)
  show ?thesis
    unfolding pregeneratePathTables_def assms ex_pathTable ex_marshal
    by (simp add: bind_def Let_def le32_def be32_def assms p
        del: calculatePathTableTotalBytes.simps)
qed

lemma ex_layout: "calculateLayout (NewBuilder [ex_root, ex_file]) = Inr ex_plan"
proof -
  let ?b2 = "(NewBuilder [ex_root_named\<lparr>iso9660Size := 2048, jolietSize := 2048\<rparr>, ex_file_named])
            \<lparr>pvdRootDirExtentSize := 2048, svdRootDirExtentSize := 2048\<rparr>"
  let ?b3 = "?b2\<lparr>lbaPvdPathTableL := 19, lbaPvdPathTableM := 20,
            lbaSvdPathTableL := 21, lbaSvdPathTableM := 22,
            lbaPvdPathTableL2 := 23, lbaPvdPathTableM2 := 24,
            lbaSvdPathTableL2 := 25, lbaSvdPathTableM2 := 26\<rparr>"
  let ?b4 = "?b3\<lparr>fileEntries := [ex_root_planned, ex_file_planned]\<rparr>"
  have f2: "fileEntries ?b2 = [ex_root_named\<lparr>iso9660Size := 2048, jolietSize := 2048\<rparr>, ex_file_named]"
    by (simp add: NewBuilder_def)
  have f3: "fileEntries ?b3 = [ex_root_named\<lparr>iso9660Size := 2048, jolietSize := 2048\<rparr>, ex_file_named]"
    by (simp add: NewBuilder_def)
  have f5: "fileEntries (?b4\<lparr>totalSectors := 31\<rparr>) = [ex_root_planned, ex_file_planned]"
    by simp
  have s3: "determinePathTableLBAs ?b2 19 = (?b3, 27)"
    by (rule ex_ptlbas[OF f2])
  have s4: "assignContentLBAs ?b3 27 = Inr (?b4, 30)"
    by (rule ex_content[OF f3])
  have s5: "pregeneratePathTables (?b4\<lparr>totalSectors := 31\<rparr>) = Inr ex_plan"
    unfolding ex_pregenerate[OF f5] by (simp add: ex_plan_def NewBuilder_def)
  show ?thesis
    unfolding calculateLayout_def Let_def ex_assign ex_sizes
    by (simp add: bind_def SystemAreaNumSectors_def s3 s4 s5)
qed

section \<open>File extents are shared by the two namespaces\<close>

lemma recordExtent_createDirectoryRecordBytes:
  "recordExtent (createDirectoryRecordBytes stat now lba sz name f j) =
     le32 lba @ be32 lba @ le32 sz @ be32 sz"
  by (simp add: createDirectoryRecordBytes_def Let_def recordExtent_marshalDirectoryRecord
      populateDirectoryRecordFields_def)

lemma recordExtent_childRecordBytes_file:
  "\<not> isDir f \<Longrightarrow> recordExtent (childRecordBytes stat now j f) =
     le32 (iso9660Sector f) @ be32 (iso9660Sector f) @ le32 (iso9660Size f) @ be32 (iso9660Size f)"
  by (simp add: childRecordBytes_def childRecordArgs_def recordExtent_createDirectoryRecordBytes)

lemma unhide_fields [simp]:
  "isDir (unhide f) = isDir f" "iso9660Size (unhide f) = iso9660Size f"
  "jolietSize (unhide f) = jolietSize f"
  by (simp_all add: unhide_def)

lemma sameFileSizes_unhide: "sameFileSizes (map unhide es) = sameFileSizes es"
  by (simp add: sameFileSizes_def list_all_iff)

lemma assign_sizes [simp]:
  "iso9660Size (assignSanitizedNamesAndDrSizes_entry f) = iso9660Size f"
  "jolietSize (assignSanitizedNamesAndDrSizes_entry f) = jolietSize f"
  by (simp_all add: assignSanitizedNamesAndDrSizes_entry_def Let_def)

text \<open>
  C3. After the layout planner has run on a scanned table (whatever entries have been
  marked hidden in between), every file has the same LBA and the same extent size in the
  two namespaces, and the records built for it in the primary and in the Joliet listing
  of its parent carry the same extent fields: that LBA and that size.
\<close>

theorem file_extent_shared:
  assumes "ScanSourceDirectory src = Inr es"
    and "map unhide (fileEntries b) = map unhide es"
    and "calculateLayout b = Inr b'"
    and "f \<in> set (fileEntries b')"
    and "\<not> isDir f"
  shows "iso9660Sector f = jolietSector f \<and> iso9660Size f = jolietSize f
     \<and> recordExtent (childRecordBytes stat now True f) =
         recordExtent (childRecordBytes stat now False f)
     \<and> recordExtent (childRecordBytes stat now True f) =
         le32 (jolietSector f) @ be32 (jolietSector f) @ le32 (jolietSize f) @ be32 (jolietSize f)"
proof -
  have s0: "sameFileSizes (fileEntries b)"
    using ScanSourceDirectory_sameFileSizes[OF assms(1)] sameFileSizes_unhide[of es]
      sameFileSizes_unhide[of "fileEntries b"] assms(2) by simp
  from calculateLayout_replanned[OF assms(3)] have
    r: "list_all2 replanned (map assignSanitizedNamesAndDrSizes_entry (fileEntries b)) (fileEntries b')"
    and s: "sameFileSectors (fileEntries b')" by simp_all
  from assms(4) obtain i where i: "i < length (fileEntries b')" "fileEntries b' ! i = f"
    by (auto simp: in_set_conv_nth)
  from r i have l: "i < length (fileEntries b)"
    and rp: "replanned (assignSanitizedNamesAndDrSizes_entry (fileEntries b ! i)) f"
    by (auto simp: list_all2_conv_all_nth)
  let ?g = "fileEntries b ! i"
  have d: "\<not> isDir ?g"
    using rp assms(5) nonLayout_isDir[of f "assignSanitizedNamesAndDrSizes_entry ?g"]
    by (simp add: replanned_def)
  have "isDir ?g \<or> iso9660Size ?g = jolietSize ?g"
    using s0 l unfolding sameFileSizes_def list_all_iff by simp
  with d rp have sz: "iso9660Size f = jolietSize f"
    by (simp add: replanned_def)
  have sec: "iso9660Sector f = jolietSector f"
    using s assms(4,5) unfolding sameFileSectors_def list_all_iff by blast
  show ?thesis
    using sz sec assms(5) by (simp add: recordExtent_childRecordBytes_file)
qed

lemma ex_planned_file_fields [simp]:
  "iso9660Sector ex_file_planned = 28" "jolietSector ex_file_planned = 28"
  "iso9660Size ex_file_planned = 5" "jolietSize ex_file_planned = 5"
  by (simp_all add: ex_file_planned_def ex_file_named_def ex_file_def)

text \<open>C3 on the worked example: the file \<open>a\<close> lies at LBA 28 with 5 bytes in both namespaces.\<close>

theorem file_extent_shared_witness:
  "iso9660Sector ex_file_planned = jolietSector ex_file_planned
   \<and> iso9660Size ex_file_planned = jolietSize ex_file_planned
   \<and> recordExtent (childRecordBytes noStat epoch True ex_file_planned) =
       recordExtent (childRecordBytes noStat epoch False ex_file_planned)
   \<and> recordExtent (childRecordBytes noStat epoch True ex_file_planned) =
       [28, 0, 0, 0, 0, 0, 0, 28, 5, 0, 0, 0, 0, 0, 0, 5]"
proof -
  have m: "map unhide (fileEntries (NewBuilder [ex_root, ex_file])) = map unhide [ex_root, ex_file]"
    by simp
  have f: "ex_file_planned \<in> set (fileEntries ex_plan)"
    by (simp add: ex_plan_def)
  have d: "\<not> isDir ex_file_planned" by simp
  from file_extent_shared[OF ex_scan m ex_layout f d, of noStat epoch]
  show ?thesis by (auto simp: le32_def be32_def)
qed

section \<open>Hidden flags and the planner\<close>

lemma unhide_idem [simp]: "unhide (unhide f) = unhide f"
  by (simp add: unhide_def)

lemma unhide_more_fields [simp]:
  "originalName (unhide f) = originalName f" "diskPath (unhide f) = diskPath f"
  "level (unhide f) = level f" "parentIndex (unhide f) = parentIndex f"
  "children (unhide f) = children f" "iso9660Name (unhide f) = iso9660Name f"
  "jolietName (unhide f) = jolietName f" "iso9660Sector (unhide f) = iso9660Sector f"
  "jolietSector (unhide f) = jolietSector f"
  "actualISO9660DrSize (unhide f) = actualISO9660DrSize f"
  "actualJolietDrSize (unhide f) = actualJolietDrSize f"
  "pathTableDirNum (unhide f) = pathTableDirNum f"
  by (simp_all add: unhide_def)

lemma unhide_updates [simp]:
  "unhide (f\<lparr>iso9660Size := a\<rparr>) = (unhide f)\<lparr>iso9660Size := a\<rparr>"
  "unhide (f\<lparr>jolietSize := a\<rparr>) = (unhide f)\<lparr>jolietSize := a\<rparr>"
  "unhide (f\<lparr>iso9660Sector := a\<rparr>) = (unhide f)\<lparr>iso9660Sector := a\<rparr>"
  "unhide (f\<lparr>jolietSector := a\<rparr>) = (unhide f)\<lparr>jolietSector := a\<rparr>"
  "unhide (f\<lparr>isHidden := h\<rparr>) = unhide f"
  by (simp_all add: unhide_def)

lemma assign_unhide:
  "assignSanitizedNamesAndDrSizes_entry (unhide f) = unhide (assignSanitizedNamesAndDrSizes_entry f)"
  by (simp add: assignSanitizedNamesAndDrSizes_entry_def Let_def unhide_def)

lemma index_map_unhide: "index (map unhide es) i = map_sum id unhide (index es i)"
  by (simp add: index_def)

lemma sumChildDrSizes_unhide:
  "sumChildDrSizes (map unhide es) cs j t = sumChildDrSizes es cs j t"
proof (induction cs arbitrary: t)
  case Nil then show ?case by simp
next
  case (Cons c cs)
  show ?case
    by (cases "c < length es") (simp_all add: index_def Cons.IH)
qed

lemma calculateSingle_unhide:
  "calculateSingleDirectoryExtentSizeBytes (map unhide es) i j =
   calculateSingleDirectoryExtentSizeBytes es i j"
  by (cases "i < length es")
     (simp_all add: calculateSingleDirectoryExtentSizeBytes_def index_def bind_def
      sumChildDrSizes_unhide)

lemma extentSizesLoop_step_dir:
  assumes "isDir (es ! i)"
    "calculateSingleDirectoryExtentSizeBytes es i False = Inr s1"
    "calculateSingleDirectoryExtentSizeBytes (es[i := (es ! i)\<lparr>iso9660Size := s1\<rparr>]) i True = Inr s2"
  shows "extentSizesLoop (i # rest) es =
     extentSizesLoop rest (es[i := (es ! i)\<lparr>iso9660Size := s1, jolietSize := s2\<rparr>])"
proof -
  have "i < length es" using assms(2) by (rule calculateSingle_in_range)
  then show ?thesis using assms by (simp add: Let_def)
qed

lemma extentSizesLoop_step_err1:
  assumes "isDir (es ! i)" "calculateSingleDirectoryExtentSizeBytes es i False = Inl e"
  shows "extentSizesLoop (i # rest) es = Inl e"
  using assms by simp

lemma extentSizesLoop_step_err2:
  assumes "isDir (es ! i)"
    "calculateSingleDirectoryExtentSizeBytes es i False = Inr s1"
    "calculateSingleDirectoryExtentSizeBytes (es[i := (es ! i)\<lparr>iso9660Size := s1\<rparr>]) i True = Inl e"
  shows "extentSizesLoop (i # rest) es = Inl e"
  using assms by (simp add: Let_def)

lemma extentSizesLoop_unhide:
  "\<forall>i\<in>set is. i < length es \<Longrightarrow>
   extentSizesLoop is (map unhide es) = map_sum id (map unhide) (extentSizesLoop is es)"
proof (induction "is" arbitrary: es)
  case Nil then show ?case by simp
next
  case (Cons i rest)
  then have i: "i < length es" by simp
  have n: "map unhide es ! i = unhide (es ! i)" using i by simp
  show ?case
  proof (cases "isDir (es ! i)")
    case False
    then have "\<not> isDir (map unhide es ! i)" by (simp add: n unhide_def)
    with False Cons show ?thesis by simp
  next
    case True
    then have T: "isDir (map unhide es ! i)" by (simp add: n unhide_def)
    show ?thesis
    proof (cases "calculateSingleDirectoryExtentSizeBytes es i False")
      case (Inl e)
      then have "calculateSingleDirectoryExtentSizeBytes (map unhide es) i False = Inl e"
        by (simp add: calculateSingle_unhide)
      from extentSizesLoop_step_err1[OF T this] extentSizesLoop_step_err1[OF True Inl]
      show ?thesis by simp
    next
      case (Inr s1)
      let ?es1 = "es[i := (es ! i)\<lparr>iso9660Size := s1\<rparr>]"
      have c1: "calculateSingleDirectoryExtentSizeBytes (map unhide es) i False = Inr s1"
        using Inr by (simp add: calculateSingle_unhide)
      have m1: "(map unhide es)[i := (map unhide es ! i)\<lparr>iso9660Size := s1\<rparr>] = map unhide ?es1"
        by (simp add: n map_update)
      show ?thesis
      proof (cases "calculateSingleDirectoryExtentSizeBytes ?es1 i True")
        case (Inl e)
        then have "calculateSingleDirectoryExtentSizeBytes
            ((map unhide es)[i := (map unhide es ! i)\<lparr>iso9660Size := s1\<rparr>]) i True = Inl e"
          by (simp add: m1 calculateSingle_unhide)
        from extentSizesLoop_step_err2[OF T c1 this] extentSizesLoop_step_err2[OF True Inr Inl]
        show ?thesis by simp
      next
        case s2: (Inr s2)
        let ?es2 = "es[i := (es ! i)\<lparr>iso9660Size := s1, jolietSize := s2\<rparr>]"
        have c2: "calculateSingleDirectoryExtentSizeBytes
            ((map unhide es)[i := (map unhide es ! i)\<lparr>iso9660Size := s1\<rparr>]) i True = Inr s2"
          using s2 by (simp add: m1 calculateSingle_unhide)
        have m2: "(map unhide es)[i := (map unhide es ! i)\<lparr>iso9660Size := s1, jolietSize := s2\<rparr>]
            = map unhide ?es2"
          by (simp add: n map_update)
        have "\<forall>k\<in>set rest. k < length ?es2" using Cons.prems by simp
        from Cons.IH[OF this] extentSizesLoop_step_dir[OF T c1 c2] extentSizesLoop_step_dir[OF True Inr s2]
        show ?thesis by (simp add: m2)
      qed
    qed
  qed
qed

lemma pathTableIdentifier_unhide [simp]:
  "pathTableIdentifier j (unhide d) = pathTableIdentifier j d"
  by (simp add: pathTableIdentifier_def)

lemma calculatePathTableTotalBytes_unhide [simp]:
  "calculatePathTableTotalBytes (map unhide es) j = calculatePathTableTotalBytes es j"
  by (induction es) (simp_all add: Let_def)

lemma assignISO9660DirLBAs_unhide:
  "assignISO9660DirLBAs (map unhide es) lba =
     map_sum id (map_prod (map unhide) id) (assignISO9660DirLBAs es lba)"
  by (induction es arbitrary: lba) (auto split: sum.splits)

lemma assignJolietDirLBAs_unhide:
  "assignJolietDirLBAs (map unhide es) lba =
     map_sum id (map_prod (map unhide) id) (assignJolietDirLBAs es lba)"
  by (induction es arbitrary: lba) (auto split: sum.splits)

lemma assignFileDataLBAs_unhide:
  "assignFileDataLBAs (map unhide es) lba = map_prod (map unhide) id (assignFileDataLBAs es lba)"
  by (induction es arbitrary: lba) (auto split: prod.splits)

lemma insert_by_map:
  "\<forall>y\<in>set ys. lt' (f y) (f x) = lt y x \<Longrightarrow>
   insert_by lt' (f x) (map f ys) = map f (insert_by lt x ys)"
  by (induction ys) simp_all

lemma set_insert_by [simp]: "set (insert_by lt x ys) = insert x (set ys)"
  by (induction ys) auto

lemma set_sort_Slice [simp]: "set (sort_Slice lt xs) = set xs"
  by (induction xs) (simp_all add: sort_Slice_def)

lemma sort_Slice_Cons: "sort_Slice lt (x # xs) = insert_by lt x (sort_Slice lt xs)"
  by (simp add: sort_Slice_def)

lemma sort_Slice_map:
  "\<forall>x\<in>set xs. \<forall>y\<in>set xs. lt' (f y) (f x) = lt y x \<Longrightarrow>
   sort_Slice lt' (map f xs) = map f (sort_Slice lt xs)"
proof (induction xs)
  case Nil then show ?case by (simp add: sort_Slice_def)
next
  case (Cons x xs)
  then have ih: "sort_Slice lt' (map f xs) = map f (sort_Slice lt xs)" by simp
  have "\<forall>y\<in>set (sort_Slice lt xs). lt' (f y) (f x) = lt y x" using Cons.prems by simp
  then have "insert_by lt' (f x) (map f (sort_Slice lt xs)) = map f (insert_by lt x (sort_Slice lt xs))"
    by (rule insert_by_map)
  with ih show ?case by (simp add: sort_Slice_Cons)
qed

lemma pathTableDirs_unhide: "pathTableDirs (map unhide es) = map unhide (pathTableDirs es)"
  by (simp add: pathTableDirs_def filter_map o_def)

lemma parentDirNum_unhide:
  "parentIndex d < length es \<Longrightarrow> parentDirNum (map unhide es) (unhide d) = parentDirNum es d"
  by (simp add: parentDirNum_def)

lemma pathTableLess_unhide:
  "parentIndex a < length es \<Longrightarrow> parentIndex b < length es \<Longrightarrow>
   pathTableLess (map unhide es) j be (unhide a) (unhide b) = pathTableLess es j be a b"
  by (simp add: pathTableLess_def parentDirNum_unhide)

lemma pathTableRecord_unhide:
  "parentIndex d < length es \<Longrightarrow>
   pathTableRecord (map unhide es) j be (unhide d) = pathTableRecord es j be d"
  by (simp add: pathTableRecord_def parentDirNum_unhide)

lemma createPathTable_unhide:
  "createPathTable (map unhide es) j be = createPathTable es j be"
proof (cases "list_ex (\<lambda>d. \<not> parentIndex d < length es) (pathTableDirs es)")
  case True
  then show ?thesis
    by (simp add: createPathTable_def pathTableDirs_unhide list_ex_iff)
next
  case False
  then have r: "\<forall>d\<in>set (pathTableDirs es). parentIndex d < length es"
    by (simp add: list_ex_iff)
  then have "\<forall>x\<in>set (pathTableDirs es). \<forall>y\<in>set (pathTableDirs es).
      pathTableLess (map unhide es) j be (unhide y) (unhide x) = pathTableLess es j be y x"
    by (simp add: pathTableLess_unhide)
  from sort_Slice_map[of "pathTableDirs es" "pathTableLess (map unhide es) j be" unhide
      "pathTableLess es j be", OF this]
  have s: "sortedPathTableDirs (map unhide es) j be = map unhide (sortedPathTableDirs es j be)"
    by (simp add: sortedPathTableDirs_def pathTableDirs_unhide)
  have "\<forall>d\<in>set (sortedPathTableDirs es j be). parentIndex d < length es"
    using r by (simp add: sortedPathTableDirs_def)
  then have m: "map (pathTableRecord (map unhide es) j be) (map unhide (sortedPathTableDirs es j be))
      = map (pathTableRecord es j be) (sortedPathTableDirs es j be)"
    by (simp add: pathTableRecord_unhide)
  have "createPathTable (map unhide es) j be =
      Inr (concat (map (pathTableRecord (map unhide es) j be)
                    (map unhide (sortedPathTableDirs es j be))))"
    using False by (simp add: createPathTable_def s pathTableDirs_unhide list_ex_iff del: map_map)
  also have "\<dots> = createPathTable es j be"
    unfolding m using False by (simp add: createPathTable_def)
  finally show ?thesis .
qed

lemma fileEntries_unhideAll [simp]: "fileEntries (unhideAll b) = map unhide (fileEntries b)"
  by (simp add: unhideAll_def)

lemma unhideAll_fields [simp]:
  "totalSectors (unhideAll b) = totalSectors b"
  "lbaPvdPathTableL (unhideAll b) = lbaPvdPathTableL b"
  "lbaPvdPathTableM (unhideAll b) = lbaPvdPathTableM b"
  "lbaSvdPathTableL (unhideAll b) = lbaSvdPathTableL b"
  "lbaSvdPathTableM (unhideAll b) = lbaSvdPathTableM b"
  "lbaPvdPathTableL2 (unhideAll b) = lbaPvdPathTableL2 b"
  "lbaPvdPathTableM2 (unhideAll b) = lbaPvdPathTableM2 b"
  "lbaSvdPathTableL2 (unhideAll b) = lbaSvdPathTableL2 b"
  "lbaSvdPathTableM2 (unhideAll b) = lbaSvdPathTableM2 b"
  "pvdPathTableLData (unhideAll b) = pvdPathTableLData b"
  "pvdPathTableMData (unhideAll b) = pvdPathTableMData b"
  "svdPathTableLData (unhideAll b) = svdPathTableLData b"
  "svdPathTableMData (unhideAll b) = svdPathTableMData b"
  "pvdRootDirExtentSize (unhideAll b) = pvdRootDirExtentSize b"
  "svdRootDirExtentSize (unhideAll b) = svdRootDirExtentSize b"
  by (simp_all add: unhideAll_def)

lemma unhideAll_fileEntries_update:
  "unhideAll (b\<lparr>fileEntries := es\<rparr>) = (unhideAll b)\<lparr>fileEntries := map unhide es\<rparr>"
  by (simp add: unhideAll_def)

lemma unhideAll_other_updates:
  "unhideAll (b\<lparr>totalSectors := t\<rparr>) = (unhideAll b)\<lparr>totalSectors := t\<rparr>"
  "unhideAll (b\<lparr>pvdRootDirExtentSize := s1\<rparr>) = (unhideAll b)\<lparr>pvdRootDirExtentSize := s1\<rparr>"
  "unhideAll (b\<lparr>svdRootDirExtentSize := s2\<rparr>) = (unhideAll b)\<lparr>svdRootDirExtentSize := s2\<rparr>"
  "unhideAll (b\<lparr>lbaPvdPathTableL := a1\<rparr>) = (unhideAll b)\<lparr>lbaPvdPathTableL := a1\<rparr>"
  "unhideAll (b\<lparr>lbaPvdPathTableM := a2\<rparr>) = (unhideAll b)\<lparr>lbaPvdPathTableM := a2\<rparr>"
  "unhideAll (b\<lparr>lbaSvdPathTableL := a3\<rparr>) = (unhideAll b)\<lparr>lbaSvdPathTableL := a3\<rparr>"
  "unhideAll (b\<lparr>lbaSvdPathTableM := a4\<rparr>) = (unhideAll b)\<lparr>lbaSvdPathTableM := a4\<rparr>"
  "unhideAll (b\<lparr>lbaPvdPathTableL2 := a5\<rparr>) = (unhideAll b)\<lparr>lbaPvdPathTableL2 := a5\<rparr>"
  "unhideAll (b\<lparr>lbaPvdPathTableM2 := a6\<rparr>) = (unhideAll b)\<lparr>lbaPvdPathTableM2 := a6\<rparr>"
  "unhideAll (b\<lparr>lbaSvdPathTableL2 := a7\<rparr>) = (unhideAll b)\<lparr>lbaSvdPathTableL2 := a7\<rparr>"
  "unhideAll (b\<lparr>lbaSvdPathTableM2 := a8\<rparr>) = (unhideAll b)\<lparr>lbaSvdPathTableM2 := a8\<rparr>"
  "unhideAll (b\<lparr>pvdPathTableLData := d1\<rparr>) = (unhideAll b)\<lparr>pvdPathTableLData := d1\<rparr>"
  "unhideAll (b\<lparr>pvdPathTableMData := d2\<rparr>) = (unhideAll b)\<lparr>pvdPathTableMData := d2\<rparr>"
  "unhideAll (b\<lparr>svdPathTableLData := d3\<rparr>) = (unhideAll b)\<lparr>svdPathTableLData := d3\<rparr>"
  "unhideAll (b\<lparr>svdPathTableMData := d4\<rparr>) = (unhideAll b)\<lparr>svdPathTableMData := d4\<rparr>"
  by (simp_all add: unhideAll_def)

lemma assignSanitizedNamesAndDrSizes_unhideAll:
  "assignSanitizedNamesAndDrSizes (unhideAll b) = unhideAll (assignSanitizedNamesAndDrSizes b)"
  by (simp add: assignSanitizedNamesAndDrSizes_def unhideAll_def assign_unhide)

lemma calculateAllDirectoryExtentSizes_unhideAll:
  "calculateAllDirectoryExtentSizes (unhideAll b) =
     map_sum id unhideAll (calculateAllDirectoryExtentSizes b)"
proof -
  have r: "\<forall>i\<in>set [0 ..< length (fileEntries b)]. i < length (fileEntries b)" by simp
  note l = extentSizesLoop_unhide[OF r]
  show ?thesis
  proof (cases "extentSizesLoop [0 ..< length (fileEntries b)] (fileEntries b)")
    case (Inl e)
    with l show ?thesis by (simp add: calculateAllDirectoryExtentSizes_def bind_def)
  next
    case (Inr es)
    with l show ?thesis
      by (cases "0 < length es")
         (simp_all add: calculateAllDirectoryExtentSizes_def bind_def index_def
            unhideAll_fileEntries_update unhideAll_other_updates)
  qed
qed

lemma determinePathTableLBAs_unhideAll:
  "determinePathTableLBAs (unhideAll b) lba = map_prod unhideAll id (determinePathTableLBAs b lba)"
  by (simp add: determinePathTableLBAs_def Let_def assignPathTableSetLBAs_def unhideAll_other_updates)

lemma assignContentLBAs_unhideAll:
  "assignContentLBAs (unhideAll b) lba =
     map_sum id (map_prod unhideAll id) (assignContentLBAs b lba)"
proof (cases "assignISO9660DirLBAs (fileEntries b) lba")
  case (Inl e)
  then show ?thesis
    by (simp add: assignContentLBAs_def bind_def assignISO9660DirLBAs_unhide)
next
  case (Inr r1)
  obtain es1 lba1 where r1: "r1 = (es1, lba1)" by (cases r1)
  obtain es2 lba2 where r2: "assignFileDataLBAs es1 lba1 = (es2, lba2)"
    by (cases "assignFileDataLBAs es1 lba1")
  have u2: "assignFileDataLBAs (map unhide es1) lba1 = (map unhide es2, lba2)"
    by (simp add: assignFileDataLBAs_unhide r2)
  show ?thesis
  proof (cases "assignJolietDirLBAs es2 lba2")
    case (Inl e)
    with Inr r1 r2 u2 show ?thesis
      by (simp add: assignContentLBAs_def bind_def assignISO9660DirLBAs_unhide
          assignJolietDirLBAs_unhide)
  next
    case r3: (Inr r3)
    obtain es3 lba3 where e3: "r3 = (es3, lba3)" by (cases r3)
    from Inr r1 r2 u2 r3 e3 show ?thesis
      by (simp add: assignContentLBAs_def bind_def assignISO9660DirLBAs_unhide
          assignJolietDirLBAs_unhide unhideAll_fileEntries_update)
  qed
qed

section \<open>What marking changes\<close>

lemma markEntries_markedBy:
  "markEntries i name es = (es', found) \<Longrightarrow> list_all2 (markedBy [name]) es es'"
proof (induction es arbitrary: i es' found)
  case Nil then show ?case by simp
next
  case (Cons f fs)
  obtain fs' fnd where r: "markEntries (i + 1) name fs = (fs', fnd)"
    by (cases "markEntries (i + 1) name fs")
  from Cons.IH[OF r] Cons.prems r show ?case
    by (auto simp: markedBy_def split: if_splits)
qed

lemma markedBy_refl: "markedBy names f f"
  by (simp add: markedBy_def)

lemma markedBy_mono: "set ns \<subseteq> set ms \<Longrightarrow> markedBy ns f f' \<Longrightarrow> markedBy ms f f'"
  by (auto simp: markedBy_def)

lemma markedBy_trans:
  "markedBy ns f g \<Longrightarrow> markedBy ns g h \<Longrightarrow> markedBy ns f h"
  by (auto simp: markedBy_def)

lemma markedBy_list_refl: "list_all2 (markedBy names) es es"
  by (simp add: list_all2_refl markedBy_refl)

lemma markedBy_list_mono:
  "set ns \<subseteq> set ms \<Longrightarrow> list_all2 (markedBy ns) es es' \<Longrightarrow> list_all2 (markedBy ms) es es'"
  using markedBy_mono by (auto elim!: list_all2_mono)

lemma markedBy_list_trans:
  "list_all2 (markedBy ns) es fs \<Longrightarrow> list_all2 (markedBy ns) fs gs \<Longrightarrow> list_all2 (markedBy ns) es gs"
  using list_all2_trans[of "markedBy ns" "markedBy ns" "markedBy ns"] markedBy_trans by blast

lemma markNames_markedBy:
  "markNames names es errs = Inr (es', errs') \<Longrightarrow> list_all2 (markedBy names) es es'"
proof (induction names arbitrary: es errs es' errs')
  case Nil then show ?case by (simp add: markedBy_list_refl)
next
  case (Cons name rest)
  have up: "\<And>xs ys. list_all2 (markedBy rest) xs ys \<Longrightarrow> list_all2 (markedBy (name # rest)) xs ys"
    by (rule markedBy_list_mono[of rest]) auto
  consider (skip) es0 where "markNames rest es es0 = Inr (es', errs')"
    | (mark) fnd es1 es0 where "markEntries 0 name es = (es1, fnd)" "markNames rest es1 es0 = Inr (es', errs')"
    using Cons.prems
    by (auto simp: Let_def split: if_splits sum.splits prod.splits)
  then show ?case
  proof cases
    case skip
    from up[OF Cons.IH[OF skip]] show ?thesis .
  next
    case mark
    have a: "list_all2 (markedBy (name # rest)) es es1"
      by (rule markedBy_list_mono[OF _ markEntries_markedBy[OF mark(1)]]) simp
    from markedBy_list_trans[OF a up[OF Cons.IH[OF mark(2)]]] show ?thesis .
  qed
qed

lemma markedBy_unhide: "markedBy names f f' \<Longrightarrow> unhide f' = unhide f"
  by (auto simp: markedBy_def)

lemma markedBy_list_unhide: "list_all2 (markedBy names) es es' \<Longrightarrow> map unhide es' = map unhide es"
  by (induction rule: list_all2_induct) (simp_all add: markedBy_unhide)

lemma MarkFileNamesAsHidden_markedBy:
  assumes "MarkFileNamesAsHidden names b = Inr (b', errs)"
  shows "list_all2 (markedBy names) (fileEntries b) (fileEntries b') \<and> unhideAll b' = unhideAll b"
proof (cases "names = []")
  case True
  with assms show ?thesis by (simp add: MarkFileNamesAsHidden_def markedBy_list_refl)
next
  case False
  with assms obtain es where
    m: "markNames names (fileEntries b) [] = Inr (es, errs)" and b': "b' = b\<lparr>fileEntries := es\<rparr>"
    by (auto simp: MarkFileNamesAsHidden_def dest!: bind_Inr)
  from markNames_markedBy[OF m] markedBy_list_unhide[OF markNames_markedBy[OF m]]
  show ?thesis by (simp add: b' unhideAll_def)
qed

lemma pregeneratePathTables_unhideAll:
  "pregeneratePathTables (unhideAll b) = map_sum id unhideAll (pregeneratePathTables b)"
proof -
  have c: "\<And>j be. createPathTable (fileEntries (unhideAll b)) j be = createPathTable (fileEntries b) j be"
    by (simp add: createPathTable_unhide)
  show ?thesis
    unfolding pregeneratePathTables_def c
    by (cases "createPathTable (fileEntries b) False False";
        cases "createPathTable (fileEntries b) False True";
        cases "createPathTable (fileEntries b) True False";
        cases "createPathTable (fileEntries b) True True")
       (simp_all add: bind_def Let_def unhideAll_other_updates)
qed

lemma calculateLayout_unhideAll:
  "calculateLayout (unhideAll b) = map_sum id unhideAll (calculateLayout b)"
proof -
  define b1 where "b1 = assignSanitizedNamesAndDrSizes b"
  have s1: "assignSanitizedNamesAndDrSizes (unhideAll b) = unhideAll b1"
    by (simp add: b1_def assignSanitizedNamesAndDrSizes_unhideAll)
  define start :: uint32 where "start = word_of_nat (SystemAreaNumSectors + 3)"
  show ?thesis
  proof (cases "calculateAllDirectoryExtentSizes b1")
    case (Inl e)
    then show ?thesis
      unfolding calculateLayout_def Let_def s1 b1_def[symmetric]
      by (simp add: calculateAllDirectoryExtentSizes_unhideAll bind_def)
  next
    case (Inr b2)
    obtain b3 lba3 where d: "determinePathTableLBAs b2 start = (b3, lba3)"
      by (cases "determinePathTableLBAs b2 start")
    have d': "determinePathTableLBAs (unhideAll b2) start = (unhideAll b3, lba3)"
      by (simp add: determinePathTableLBAs_unhideAll d)
    show ?thesis
    proof (cases "assignContentLBAs b3 lba3")
      case (Inl e)
      with Inr d d' show ?thesis
        unfolding calculateLayout_def Let_def s1 b1_def[symmetric] start_def[symmetric]
        by (simp add: calculateAllDirectoryExtentSizes_unhideAll bind_def assignContentLBAs_unhideAll)
    next
      case r4: (Inr r4)
      obtain b4 lba4 where e4: "r4 = (b4, lba4)" by (cases r4)
      from Inr d d' r4 e4 show ?thesis
        unfolding calculateLayout_def Let_def s1 b1_def[symmetric] start_def[symmetric]
        by (simp add: calculateAllDirectoryExtentSizes_unhideAll bind_def assignContentLBAs_unhideAll
            pregeneratePathTables_unhideAll[symmetric] unhideAll_other_updates)
    qed
  qed
qed

lemma unhideAll_sameLayout: "unhideAll p' = unhideAll p \<Longrightarrow> sameLayout p p'"
proof -
  assume a: "unhideAll p' = unhideAll p"
  then have e: "map unhide (fileEntries p') = map unhide (fileEntries p)"
    by (metis fileEntries_unhideAll)
  have f: "\<And>g. (\<And>x. g (unhide x) = g x) \<Longrightarrow> map g (fileEntries p') = map g (fileEntries p)"
  proof -
    fix g :: "fileEntry \<Rightarrow> 'a" assume g: "\<And>x. g (unhide x) = g x"
    have "map g (map unhide (fileEntries p')) = map g (map unhide (fileEntries p))"
      using e by simp
    then show "map g (fileEntries p') = map g (fileEntries p)"
      by (simp add: g o_def)
  qed
  have b: "\<And>g. (\<And>x. g (unhideAll x) = g x) \<Longrightarrow> g p' = g p"
    using a by metis
  show ?thesis
    unfolding sameLayout_def
    by (intro conjI f b) simp_all
qed

section \<open>Marking entries hidden does not change the plan\<close>

text \<open>
  C9. When \<open>MarkFileNamesAsHidden\<close> returns (with or without reporting names), the
  builder differs from the one it was given only in hidden flags, set on entries whose
  original name is among the names given. The layout planner then fails with the same
  error or succeeds with the same plan as without the marking: the two plans are equal
  up to hidden flags, and so have the same sanitised names, record sizes, extent sizes,
  LBAs, path-table LBAs and bytes, and total number of sectors.
\<close>

theorem marking_preserves_layout:
  assumes "MarkFileNamesAsHidden names b = Inr (b', errs)"
  shows "list_all2 (markedBy names) (fileEntries b) (fileEntries b')
     \<and> unhideAll b' = unhideAll b
     \<and> map_sum id unhideAll (calculateLayout b') = map_sum id unhideAll (calculateLayout b)
     \<and> rel_sum (=) sameLayout (calculateLayout b) (calculateLayout b')"
proof -
  from MarkFileNamesAsHidden_markedBy[OF assms] have
    m: "list_all2 (markedBy names) (fileEntries b) (fileEntries b')" and
    u: "unhideAll b' = unhideAll b" by simp_all
  have e: "map_sum id unhideAll (calculateLayout b') = map_sum id unhideAll (calculateLayout b)"
    using calculateLayout_unhideAll[of b] calculateLayout_unhideAll[of b'] u by simp
  have r: "rel_sum (=) sameLayout (calculateLayout b) (calculateLayout b')"
  proof (cases "calculateLayout b")
    case (Inl x)
    with e show ?thesis by (cases "calculateLayout b'") simp_all
  next
    case (Inr p)
    with e show ?thesis
      by (cases "calculateLayout b'") (simp_all add: unhideAll_sameLayout)
  qed
  from m u e r show ?thesis by simp
qed

lemma ex_mark:
  "MarkFileNamesAsHidden [runes ''a''] (NewBuilder [ex_root, ex_file]) =
     Inr (NewBuilder [ex_root, ex_file\<lparr>isHidden := True\<rparr>], [])"
  by (simp add: MarkFileNamesAsHidden_def bind_def index_def NewBuilder_def Let_def
      ex_root_def ex_file_def rootEntry_def newEntry_def runes_def)

text \<open>C9 on the worked example: hiding \<open>a\<close> sets one flag, and the plan is the same.\<close>

theorem marking_preserves_layout_witness:
  "list_all2 (markedBy [runes ''a'']) [ex_root, ex_file] [ex_root, ex_file\<lparr>isHidden := True\<rparr>]
   \<and> unhideAll (NewBuilder [ex_root, ex_file\<lparr>isHidden := True\<rparr>]) =
       unhideAll (NewBuilder [ex_root, ex_file])
   \<and> map_sum id unhideAll (calculateLayout (NewBuilder [ex_root, ex_file\<lparr>isHidden := True\<rparr>])) =
       Inr (unhideAll ex_plan)
   \<and> rel_sum (=) sameLayout (Inr ex_plan)
        (calculateLayout (NewBuilder [ex_root, ex_file\<lparr>isHidden := True\<rparr>]))"
  using marking_preserves_layout[OF ex_mark] by (simp add: ex_layout)

section \<open>Order of the path tables\<close>

lemma sorted_insert_by:
  assumes asym: "\<And>a b. lt a b \<Longrightarrow> \<not> lt b a"
    and ntrans: "\<And>a b c. \<not> lt b a \<Longrightarrow> \<not> lt c b \<Longrightarrow> \<not> lt c a"
  shows "sorted_wrt (\<lambda>a b. \<not> lt b a) ys \<Longrightarrow> sorted_wrt (\<lambda>a b. \<not> lt b a) (insert_by lt x ys)"
proof (induction ys)
  case Nil then show ?case by simp
next
  case (Cons y ys)
  show ?case
  proof (cases "lt y x")
    case True
    then have "\<not> lt x y" by (rule asym)
    with True Cons show ?thesis by auto
  next
    case False
    have "\<forall>z\<in>set ys. \<not> lt z x"
    proof
      fix z assume "z \<in> set ys"
      with Cons.prems have "\<not> lt z y" by simp
      with False show "\<not> lt z x" by (rule ntrans)
    qed
    with False Cons.prems show ?thesis by simp
  qed
qed

lemma sorted_sort_Slice:
  assumes asym: "\<And>a b. lt a b \<Longrightarrow> \<not> lt b a"
    and ntrans: "\<And>a b c. \<not> lt b a \<Longrightarrow> \<not> lt c b \<Longrightarrow> \<not> lt c a"
  shows "sorted_wrt (\<lambda>a b. \<not> lt b a) (sort_Slice lt xs)"
proof (induction xs)
  case Nil then show ?case by (simp add: sort_Slice_def)
next
  case (Cons x xs)
  from sorted_insert_by[of lt, OF asym ntrans Cons] show ?case
    by (simp add: sort_Slice_Cons)
qed

lemma bytes_less_irrefl: "\<not> bytes_less xs xs"
  by (induction xs) simp_all

lemma bytes_less_trans: "bytes_less xs ys \<Longrightarrow> bytes_less ys zs \<Longrightarrow> bytes_less xs zs"
proof (induction xs ys arbitrary: zs rule: bytes_less.induct)
  case (4 x xs y ys)
  then show ?case by (cases zs) auto
qed (auto elim: bytes_less.elims)

lemma bytes_less_total: "bytes_less xs ys \<or> xs = ys \<or> bytes_less ys xs"
  by (induction xs ys rule: bytes_less.induct) auto

lemma bytes_less_asym: "bytes_less xs ys \<Longrightarrow> \<not> bytes_less ys xs"
  using bytes_less_trans bytes_less_irrefl by blast

lemma bytes_less_ntrans:
  "\<not> bytes_less ys xs \<Longrightarrow> \<not> bytes_less zs ys \<Longrightarrow> \<not> bytes_less zs xs"
  using bytes_less_trans bytes_less_total by blast

lemma pathTableLess_M:
  "pathTableLess es j True a b =
     (parentDirNum es a < parentDirNum es b
      \<or> (parentDirNum es a = parentDirNum es b
          \<and> bytes_less (pathTableIdentifier j a) (pathTableIdentifier j b)))"
  by (auto simp: pathTableLess_def Let_def parentDirNum_def)

lemma pathTableLess_L: "pathTableLess es j False a b = (pathTableDirNum a < pathTableDirNum b)"
  by (simp add: pathTableLess_def)

lemma sorted_L:
  "sorted_wrt (\<lambda>a b. pathTableDirNum a \<le> pathTableDirNum b) (sortedPathTableDirs es j False)"
proof -
  have "sorted_wrt (\<lambda>a b. \<not> pathTableLess es j False b a) (sortedPathTableDirs es j False)"
    unfolding sortedPathTableDirs_def
    by (rule sorted_sort_Slice) (auto simp: pathTableLess_L)
  then show ?thesis by (simp add: pathTableLess_L not_less)
qed

lemma sorted_M:
  "sorted_wrt (\<lambda>a b. parentDirNum es a < parentDirNum es b
        \<or> (parentDirNum es a = parentDirNum es b
            \<and> \<not> bytes_less (pathTableIdentifier j b) (pathTableIdentifier j a)))
     (sortedPathTableDirs es j True)"
proof -
  have s: "sorted_wrt (\<lambda>a b. \<not> pathTableLess es j True b a) (sortedPathTableDirs es j True)"
    unfolding sortedPathTableDirs_def
  proof (rule sorted_sort_Slice)
    fix a b assume "pathTableLess es j True a b"
    then show "\<not> pathTableLess es j True b a"
      using bytes_less_asym by (auto simp: pathTableLess_M)
  next
    fix a b c
    assume "\<not> pathTableLess es j True b a" "\<not> pathTableLess es j True c b"
    then show "\<not> pathTableLess es j True c a"
      using bytes_less_ntrans[of "pathTableIdentifier j b" "pathTableIdentifier j a" "pathTableIdentifier j c"]
      by (auto simp: pathTableLess_M)
  qed
  have "\<And>a b. \<not> pathTableLess es j True b a \<Longrightarrow>
      parentDirNum es a < parentDirNum es b
        \<or> (parentDirNum es a = parentDirNum es b
            \<and> \<not> bytes_less (pathTableIdentifier j b) (pathTableIdentifier j a))"
    by (auto simp: pathTableLess_M)
  with s show ?thesis by (rule sorted_wrt_mono_rel[rotated]) auto
qed

section \<open>The second example, step by step\<close>

lemma jx_scan: "ScanSourceDirectory jx_tree = Inr [jx_root, jx_a, jx_b]"
  by (simp add: jx_tree_def ScanSourceDirectory_def rootEntry_def newEntry_def appendChild_def
      jx_root_def jx_a_def jx_b_def runes_def)

lemma jx_sanitize:
  "sanitizeISO9660Name [0xFF21] False = runes ''_''"
  "sanitizeISO9660Name [0x1F600] False = runes ''_''"
  by (simp_all add: sanitizeISO9660Name_def splitLastDot_def resplitDottedBase_def
      assembleFileName_def sanitizePartFunc_def sanitizeRune_def strings_ToUpper_def
      unicode_ToUpper_def strings_Contains_def strings_HasPrefix_def runes_def Let_def)

lemma jx_assign_root: "assignSanitizedNamesAndDrSizes_entry jx_root = jx_root_named"
  by (simp add: assignSanitizedNamesAndDrSizes_entry_def Let_def jx_root_def jx_root_named_def
      rootEntry_def newEntry_def calculateDirectoryRecordSize_def getDRIdentifierBytes_def
      drFixedPartSize_def)

lemma jx_assign_a: "assignSanitizedNamesAndDrSizes_entry jx_a = jx_a_named"
  unfolding assignSanitizedNamesAndDrSizes_entry_def Let_def jx_a_named_def
  by (simp add: jx_a_def newEntry_def jx_sanitize truncateJolietName_def JolietMaxFilenameChars_def)
     (simp add: runes_def calculateDirectoryRecordSize_def getDRIdentifierBytes_def drFixedPartSize_def
        encodeUTF16BE_def utf16_Encode_def utf16_EncodeRune_def utf8_string_def utf8_EncodeRune_def)

lemma jx_assign_b: "assignSanitizedNamesAndDrSizes_entry jx_b = jx_b_named"
  unfolding assignSanitizedNamesAndDrSizes_entry_def Let_def jx_b_named_def
  by (simp add: jx_b_def newEntry_def jx_sanitize truncateJolietName_def JolietMaxFilenameChars_def)
     (simp add: runes_def calculateDirectoryRecordSize_def getDRIdentifierBytes_def drFixedPartSize_def
        encodeUTF16BE_def utf16_Encode_def utf16_EncodeRune_def utf8_string_def utf8_EncodeRune_def)

lemma jx_fields [simp]:
  "isDir jx_root_named" "\<not> isDir jx_a_named" "\<not> isDir jx_b_named"
  "pathTableDirNum jx_root_named = 1" "pathTableDirNum jx_a_named = 0"
  "pathTableDirNum jx_b_named = 0"
  "children jx_root_named = [1, 2]" "parentIndex jx_root_named = 0"
  "actualISO9660DrSize jx_a_named = 36" "actualJolietDrSize jx_a_named = 36"
  "actualISO9660DrSize jx_b_named = 36" "actualJolietDrSize jx_b_named = 38"
  "iso9660Size jx_a_named = 0" "iso9660Size jx_b_named = 0"
  by (simp_all add: jx_root_named_def jx_a_named_def jx_b_named_def jx_root_def jx_a_def jx_b_def
      rootEntry_def newEntry_def)

lemma jx_single:
  "pathTableDirNum r = 1 \<Longrightarrow> children r = [1, 2] \<Longrightarrow>
   calculateSingleDirectoryExtentSizeBytes [r, jx_a_named, jx_b_named] 0 j = Inr 2048"
  by (simp add: calculateSingleDirectoryExtentSizeBytes_def bind_def index_def Let_def
      calculateDirectoryRecordSize_def getDRIdentifierBytes_def drFixedPartSize_def SectorSize_def
      encodeUTF16BE_def utf16_Encode_def utf16_EncodeRune_def runes_def)

lemma jx_extents:
  "extentSizesLoop [0 ..< 3] [jx_root_named, jx_a_named, jx_b_named] =
     Inr [jx_root_named\<lparr>iso9660Size := 2048, jolietSize := 2048\<rparr>, jx_a_named, jx_b_named]"
proof -
  have u: "[0 ..< 3] = [0, 1, 2]" by (simp add: upt_rec)
  show ?thesis
    unfolding u by (simp add: jx_single Let_def)
qed

lemma jx_pt_bytes:
  "isDir r \<Longrightarrow> pathTableDirNum r = 1 \<Longrightarrow>
   calculatePathTableTotalBytes [r, jx_a_named, jx_b_named] j = 10"
  by (simp add: Let_def pathTableIdentifier_def ptRecFixedPartSize_def)

lemma jx_content:
  "fileEntries b = [jx_root_named\<lparr>iso9660Size := 2048, jolietSize := 2048\<rparr>, jx_a_named, jx_b_named] \<Longrightarrow>
   assignContentLBAs b 27 = Inr (b\<lparr>fileEntries := [jx_root_planned, jx_a_planned, jx_b_planned]\<rparr>, 31)"
  by (simp add: assignContentLBAs_def bind_def SectorSize_def sectorsToContainFileBytes_def
      jx_root_planned_def jx_a_planned_def jx_b_planned_def)

lemma jx_planned_fields [simp]:
  "isDir jx_root_planned" "\<not> isDir jx_a_planned" "\<not> isDir jx_b_planned"
  "pathTableDirNum jx_root_planned = 1" "pathTableDirNum jx_a_planned = 0"
  "pathTableDirNum jx_b_planned = 0"
  "parentIndex jx_root_planned = 0" "children jx_root_planned = [1, 2]"
  "iso9660Sector jx_root_planned = 27" "jolietSector jx_root_planned = 30"
  "jolietName jx_a_planned = [0xFF21]" "jolietName jx_b_planned = [0x1F600]"
  "actualJolietDrSize jx_a_planned = 36" "actualJolietDrSize jx_b_planned = 38"
  by (simp_all add: jx_root_planned_def jx_a_planned_def jx_b_planned_def
      jx_a_named_def jx_b_named_def jx_a_def jx_b_def newEntry_def)

lemma jx_pathTable:
  "createPathTable [jx_root_planned, jx_a_planned, jx_b_planned] j be =
     Inr (marshalPathTableRecord
            \<lparr> ptExtendedAttributeRecordLength = 0,
              LocationOfExtent = (if j then 30 else 27),
              ParentDirectoryNumber = 1 \<rparr> [0] be)"
  by (simp add: createPathTable_def pathTableDirs_def sortedPathTableDirs_def sort_Slice_def
      pathTableRecord_def pathTableIdentifier_def Let_def)

lemma jx_assign:
  "assignSanitizedNamesAndDrSizes (NewBuilder [jx_root, jx_a, jx_b]) =
     NewBuilder [jx_root_named, jx_a_named, jx_b_named]"
  by (simp add: assignSanitizedNamesAndDrSizes_def NewBuilder_def jx_assign_root jx_assign_a
      jx_assign_b)

lemma jx_sizes:
  "calculateAllDirectoryExtentSizes (NewBuilder [jx_root_named, jx_a_named, jx_b_named]) =
     Inr ((NewBuilder [jx_root_named\<lparr>iso9660Size := 2048, jolietSize := 2048\<rparr>, jx_a_named,
                       jx_b_named])
            \<lparr>pvdRootDirExtentSize := 2048, svdRootDirExtentSize := 2048\<rparr>)"
proof -
  have "length [jx_root_named, jx_a_named, jx_b_named] = 3"
    by simp
  then have l: "[0 ..< length [jx_root_named, jx_a_named, jx_b_named]] = [0 ..< 3]"
    by (rule arg_cong)
  show ?thesis
    unfolding calculateAllDirectoryExtentSizes_def fileEntries_NewBuilder l jx_extents
    by (simp add: NewBuilder_def bind_def index_def)
qed

lemma jx_ptlbas:
  assumes "fileEntries b = [jx_root_named\<lparr>iso9660Size := 2048, jolietSize := 2048\<rparr>, jx_a_named,
                            jx_b_named]"
  shows "determinePathTableLBAs b 19 =
     (b\<lparr>lbaPvdPathTableL := 19, lbaPvdPathTableM := 20,
            lbaSvdPathTableL := 21, lbaSvdPathTableM := 22,
            lbaPvdPathTableL2 := 23, lbaPvdPathTableM2 := 24,
            lbaSvdPathTableL2 := 25, lbaSvdPathTableM2 := 26\<rparr>, 27)"
proof -
  have p1: "calculatePathTableTotalBytes (fileEntries b) False = 10"
    unfolding assms by (rule jx_pt_bytes) simp_all
  have p2: "calculatePathTableTotalBytes (fileEntries b) True = 10"
    unfolding assms by (rule jx_pt_bytes) simp_all
  have s: "sectorsToContainBytes 10 = 1"
    by (simp add: sectorsToContainBytes_def SectorSize_def)
  show ?thesis
    unfolding determinePathTableLBAs_def p1 p2
    by (simp add: s assignPathTableSetLBAs_def Let_def)
qed

lemma jx_pregenerate:
  assumes "fileEntries b = [jx_root_planned, jx_a_planned, jx_b_planned]"
  shows "pregeneratePathTables b =
     Inr (b\<lparr>pvdPathTableLData := [1, 0, 27, 0, 0, 0, 1, 0, 0, 0],
            pvdPathTableMData := [1, 0, 0, 0, 0, 27, 0, 1, 0, 0],
            svdPathTableLData := [1, 0, 30, 0, 0, 0, 1, 0, 0, 0],
            svdPathTableMData := [1, 0, 0, 0, 0, 30, 0, 1, 0, 0]\<rparr>)"
proof -
  have p: "calculatePathTableTotalBytes [jx_root_planned, jx_a_planned, jx_b_planned] j = 10" for j
    by (simp add: Let_def pathTableIdentifier_def ptRecFixedPartSize_def)
  show ?thesis
    unfolding pregeneratePathTables_def assms jx_pathTable ex_marshal
    by (simp add: bind_def Let_def le32_def be32_def assms p
        del: calculatePathTableTotalBytes.simps)
qed

lemma jx_layout: "calculateLayout (NewBuilder [jx_root, jx_a, jx_b]) = Inr jx_plan"
proof -
  let ?b2 = "(NewBuilder [jx_root_named\<lparr>iso9660Size := 2048, jolietSize := 2048\<rparr>, jx_a_named,
                          jx_b_named])
            \<lparr>pvdRootDirExtentSize := 2048, svdRootDirExtentSize := 2048\<rparr>"
  let ?b3 = "?b2\<lparr>lbaPvdPathTableL := 19, lbaPvdPathTableM := 20,
            lbaSvdPathTableL := 21, lbaSvdPathTableM := 22,
            lbaPvdPathTableL2 := 23, lbaPvdPathTableM2 := 24,
            lbaSvdPathTableL2 := 25, lbaSvdPathTableM2 := 26\<rparr>"
  let ?b4 = "?b3\<lparr>fileEntries := [jx_root_planned, jx_a_planned, jx_b_planned]\<rparr>"
  have f2: "fileEntries ?b2 = [jx_root_named\<lparr>iso9660Size := 2048, jolietSize := 2048\<rparr>,
                               jx_a_named, jx_b_named]"
    by (simp add: NewBuilder_def)
  have f3: "fileEntries ?b3 = [jx_root_named\<lparr>iso9660Size := 2048, jolietSize := 2048\<rparr>,
                               jx_a_named, jx_b_named]"
    by (simp add: NewBuilder_def)
  have f5: "fileEntries (?b4\<lparr>totalSectors := 32\<rparr>) = [jx_root_planned, jx_a_planned, jx_b_planned]"
    by simp
  have s3: "determinePathTableLBAs ?b2 19 = (?b3, 27)"
    by (rule jx_ptlbas[OF f2])
  have s4: "assignContentLBAs ?b3 27 = Inr (?b4, 31)"
    by (rule jx_content[OF f3])
  have s5: "pregeneratePathTables (?b4\<lparr>totalSectors := 32\<rparr>) = Inr jx_plan"
    unfolding jx_pregenerate[OF f5] by (simp add: jx_plan_def NewBuilder_def)
  show ?thesis
    unfolding calculateLayout_def Let_def jx_assign jx_sizes
    by (simp add: bind_def SystemAreaNumSectors_def s3 s4 s5)
qed

section \<open>Order of a directory listing\<close>

lemma copy_at_nth_before:
  "i < off \<Longrightarrow> off \<le> length buf \<Longrightarrow> copy_at buf off src ! i = buf ! i"
  by (simp add: nth_copy_at)

lemma drop_copy_at:
  "off + length src \<le> length buf \<Longrightarrow>
   take (length src) (drop off (copy_at buf off src)) = src"
  by (simp add: copy_at_def)

lemma recordIdentifier_marshalDirectoryRecord:
  assumes "length ident \<le> 255"
  shows "recordIdentifier (marshalDirectoryRecord drf ident) = ident"
proof -
  define n where "n = length (marshalDirectoryRecord drf ident)"
  have n: "33 + length ident \<le> n"
    unfolding n_def using assms by (simp add: length_marshalDirectoryRecord_nat)
  have n': "n = (if (33 + unat (word_of_nat (length ident) :: byte)) mod 2 \<noteq> 0
                 then 33 + unat (word_of_nat (length ident) :: byte) + 1
                 else 33 + unat (word_of_nat (length ident) :: byte))"
    unfolding n_def by (simp add: length_marshalDirectoryRecord Let_def)
  have a: "marshalDirectoryRecord drf ident ! 32 = word_of_nat (length ident)"
    using n unfolding marshalDirectoryRecord_def Let_def drFixedPartSize_def n'[symmetric]
    by (simp add: nth_copy_at)
  have b: "take (length ident) (drop 33 (marshalDirectoryRecord drf ident)) = ident"
    using n unfolding marshalDirectoryRecord_def Let_def drFixedPartSize_def n'[symmetric]
    by (simp add: drop_copy_at)
  show ?thesis
    using assms by (simp add: recordIdentifier_def a b unat_byte_of_length)
qed

lemma recordIdentifier_createDirectoryRecordBytes:
  assumes "length (getDRIdentifierBytes name j (pathTableDirNum f = 1)) \<le> 255"
  shows "recordIdentifier (createDirectoryRecordBytes stat now lba sz name f j) =
           getDRIdentifierBytes name j (pathTableDirNum f = 1)"
  using assms
  by (simp add: createDirectoryRecordBytes_def Let_def getDRIdentifierBytes_root_flag
      recordIdentifier_marshalDirectoryRecord)

lemma length_createDirectoryRecordBytes_int:
  assumes "length (getDRIdentifierBytes name j (pathTableDirNum f = 1)) \<le> 255"
  shows "int (length (createDirectoryRecordBytes stat now lba sz name f j)) =
           calculateDirectoryRecordSize (getDRIdentifierBytes name j (pathTableDirNum f = 1))"
  using length_marshalDirectoryRecord_int[OF assms]
    length_createDirectoryRecordBytes[of stat now lba sz name f j]
  by simp

lemma childRecords_map:
  "childRecords stat now j cs = Inr rs \<Longrightarrow> rs = map (childRecordBytes stat now j) cs"
proof (induction cs arbitrary: rs)
  case Nil then show ?case by simp
next
  case (Cons c cs)
  then show ?case
    by (auto simp: childRecordBytes_def Let_def split: prod.splits if_splits sum.splits)
qed

lemma childRecords_ok:
  "list_all (\<lambda>c. int (length (childRecordBytes stat now j c)) =
                  snd (snd (snd (childRecordArgs c j)))) cs \<Longrightarrow>
   childRecords stat now j cs = Inr (map (childRecordBytes stat now j) cs)"
  by (induction cs) (auto simp: childRecordBytes_def Let_def split: prod.splits)


lemma jx_ids:
  "getDRIdentifierBytes [0xFF21] True False = [0xFF, 0x21]"
  "getDRIdentifierBytes [0x1F600] True False = [0xD8, 0x3D, 0xDE, 0x00]"
  "getDRIdentifierBytes (runes ''.'') True True = [0]"
  "getDRIdentifierBytes (runes ''..'') True False = [0, 46, 0, 46]"
  by (simp_all add: getDRIdentifierBytes_def runes_def encodeUTF16BE_def utf16_Encode_def
      utf16_EncodeRune_def)

lemma jx_utf8:
  "utf8_string [0xFF21] = [0xEF, 0xBC, 0xA1]"
  "utf8_string [0x1F600] = [0xF0, 0x9F, 0x98, 0x80]"
  by (simp_all add: utf8_string_def utf8_EncodeRune_def)

lemma jx_sortedChildren:
  "sortedChildren [jx_root_planned, jx_a_planned, jx_b_planned] jx_root_planned True =
     Inr [jx_a_planned, jx_b_planned]"
  by (simp add: sortedChildren_def bind_def index_def sort_Slice_def childLess_def
      string_less_def jx_utf8)

lemma jx_child_a:
  "int (length (childRecordBytes stat now True jx_a_planned)) = 36"
  "recordIdentifier (childRecordBytes stat now True jx_a_planned) = [0xFF, 0x21]"
proof -
  have l: "length (getDRIdentifierBytes [0xFF21] True (pathTableDirNum jx_a_planned = 1)) \<le> 255"
    by (simp add: jx_ids)
  have c: "childRecordBytes stat now True jx_a_planned =
      createDirectoryRecordBytes stat now (iso9660Sector jx_a_planned) (iso9660Size jx_a_planned)
        [0xFF21] jx_a_planned True"
    by (simp add: childRecordBytes_def childRecordArgs_def)
  show "int (length (childRecordBytes stat now True jx_a_planned)) = 36"
    unfolding c length_createDirectoryRecordBytes_int[OF l]
    by (simp add: jx_ids calculateDirectoryRecordSize_def drFixedPartSize_def)
  show "recordIdentifier (childRecordBytes stat now True jx_a_planned) = [0xFF, 0x21]"
    unfolding c recordIdentifier_createDirectoryRecordBytes[OF l] by (simp add: jx_ids)
qed

lemma jx_child_b:
  "int (length (childRecordBytes stat now True jx_b_planned)) = 38"
  "recordIdentifier (childRecordBytes stat now True jx_b_planned) = [0xD8, 0x3D, 0xDE, 0x00]"
proof -
  have l: "length (getDRIdentifierBytes [0x1F600] True (pathTableDirNum jx_b_planned = 1)) \<le> 255"
    by (simp add: jx_ids)
  have c: "childRecordBytes stat now True jx_b_planned =
      createDirectoryRecordBytes stat now (iso9660Sector jx_b_planned) (iso9660Size jx_b_planned)
        [0x1F600] jx_b_planned True"
    by (simp add: childRecordBytes_def childRecordArgs_def)
  show "int (length (childRecordBytes stat now True jx_b_planned)) = 38"
    unfolding c length_createDirectoryRecordBytes_int[OF l]
    by (simp add: jx_ids calculateDirectoryRecordSize_def drFixedPartSize_def)
  show "recordIdentifier (childRecordBytes stat now True jx_b_planned) = [0xD8, 0x3D, 0xDE, 0x00]"
    unfolding c recordIdentifier_createDirectoryRecordBytes[OF l] by (simp add: jx_ids)
qed

lemma jx_childRecords:
  "childRecords stat now True [jx_a_planned, jx_b_planned] =
     Inr [childRecordBytes stat now True jx_a_planned, childRecordBytes stat now True jx_b_planned]"
proof -
  have "list_all (\<lambda>c. int (length (childRecordBytes stat now True c)) =
                  snd (snd (snd (childRecordArgs c True)))) [jx_a_planned, jx_b_planned]"
    by (simp add: jx_child_a jx_child_b childRecordArgs_def)
  from childRecords_ok[OF this] show ?thesis by simp
qed

lemma jx_dot:
  "int (length (createDirectoryRecordBytes stat now lba sz (runes ''.'') jx_root_planned True)) = 34"
  "recordIdentifier (createDirectoryRecordBytes stat now lba sz (runes ''.'') jx_root_planned True) = [0]"
proof -
  have l: "length (getDRIdentifierBytes (runes ''.'') True (pathTableDirNum jx_root_planned = 1)) \<le> 255"
    by (simp add: jx_ids)
  show "int (length (createDirectoryRecordBytes stat now lba sz (runes ''.'') jx_root_planned True)) = 34"
    unfolding length_createDirectoryRecordBytes_int[OF l]
    by (simp add: jx_ids calculateDirectoryRecordSize_def drFixedPartSize_def)
  show "recordIdentifier (createDirectoryRecordBytes stat now lba sz (runes ''.'') jx_root_planned True) = [0]"
    unfolding recordIdentifier_createDirectoryRecordBytes[OF l] by (simp add: jx_ids)
qed

lemma jx_dotdot:
  "int (length (createDirectoryRecordBytes stat now lba sz (runes ''..'') jx_root_planned True)) = 38"
  "recordIdentifier (createDirectoryRecordBytes stat now lba sz (runes ''..'') jx_root_planned True)
     = [0, 46, 0, 46]"
proof -
  have g: "getDRIdentifierBytes (runes ''..'') True r = [0, 46, 0, 46]" for r
    by (simp add: getDRIdentifierBytes_def runes_def encodeUTF16BE_def utf16_Encode_def
      utf16_EncodeRune_def)
  have l: "length (getDRIdentifierBytes (runes ''..'') True (pathTableDirNum jx_root_planned = 1)) \<le> 255"
    unfolding g by simp
  show "int (length (createDirectoryRecordBytes stat now lba sz (runes ''..'') jx_root_planned True)) = 38"
    unfolding length_createDirectoryRecordBytes_int[OF l] g
    by (simp add: calculateDirectoryRecordSize_def drFixedPartSize_def)
  show "recordIdentifier (createDirectoryRecordBytes stat now lba sz (runes ''..'') jx_root_planned True)
     = [0, 46, 0, 46]"
    unfolding recordIdentifier_createDirectoryRecordBytes[OF l] g by simp
qed

lemma jx_listing:
  "directoryListingRecords stat now [jx_root_planned, jx_a_planned, jx_b_planned] 0 True =
     Inr [createDirectoryRecordBytes stat now 30 2048 (runes ''.'') jx_root_planned True,
          createDirectoryRecordBytes stat now 30 2048 (runes ''..'') jx_root_planned True,
          childRecordBytes stat now True jx_a_planned,
          childRecordBytes stat now True jx_b_planned]"
proof -
  have e: "calculateDirectoryRecordSize (getDRIdentifierBytes (runes ''.'') True True) = 34"
    "calculateDirectoryRecordSize (getDRIdentifierBytes (runes ''..'') True False) = 38"
    by (simp_all add: jx_ids calculateDirectoryRecordSize_def drFixedPartSize_def)
  have s: "jolietSize jx_root_planned = 2048"
    by (simp add: jx_root_planned_def)
  have d1: "length (createDirectoryRecordBytes stat now 30 2048 (runes ''.'') jx_root_planned True) = 34"
    using jx_dot(1)[of stat now 30 2048] by simp
  have d2: "length (createDirectoryRecordBytes stat now 30 2048 (runes ''..'') jx_root_planned True) = 38"
    using jx_dotdot(1)[of stat now 30 2048] by simp
  show ?thesis
    unfolding directoryListingRecords_def
    by (simp add: bind_def index_def Let_def d1 d2 e s jx_sortedChildren jx_childRecords
        del: childRecords.simps)
qed

text \<open>
  In both namespaces the children are listed in the order of Go's \<open><\<close> on their names,
  that is, of the bytes of the names in UTF-8.
\<close>

lemma sortedChildren_sorted:
  assumes "sortedChildren es d j = Inr cs"
  shows "sorted_wrt (\<lambda>a b. \<not> childLess j b a) cs"
proof -
  from assms obtain xs where cs: "cs = sort_Slice (childLess j) xs"
    by (auto simp: sortedChildren_def dest!: bind_Inr)
  show ?thesis
    unfolding cs
  proof (rule sorted_sort_Slice)
    fix a b assume "childLess j a b"
    then show "\<not> childLess j b a"
      using bytes_less_asym by (auto simp: childLess_def string_less_def split: if_splits)
  next
    fix a b c assume "\<not> childLess j b a" "\<not> childLess j c b"
    then show "\<not> childLess j c a"
      using bytes_less_ntrans by (auto simp: childLess_def string_less_def split: if_splits)
  qed
qed

lemma jx_scanAndLayout: "scanAndLayout jx_tree = Inr jx_plan"
  by (simp add: scanAndLayout_def bind_def jx_scan jx_layout)

text \<open>
  C5. The children in a Joliet listing are to follow the byte order of their UCS-2BE
  identifiers. For the directory holding the files U+FF21 and U+1F600 the planner
  succeeds and the Joliet listing of the root is \<open>.\<close>, \<open>..\<close>, U+FF21, U+1F600, in the order
  of the names as Go strings; the identifiers are \<open>FF 21\<close> and \<open>D8 3D DE 00\<close>, and the
  second is the smaller byte string.
\<close>

theorem joliet_listing_not_in_identifier_order:
  "scanAndLayout jx_tree = Inr jx_plan
   \<and> bind (directoryListingRecords noStat epoch (fileEntries jx_plan) 0 True)
        (\<lambda>rs. Inr (map recordIdentifier rs)) =
       Inr [[0], [0, 46, 0, 46], [0xFF, 0x21], [0xD8, 0x3D, 0xDE, 0x00]]
   \<and> bytes_less [0xD8, 0x3D, 0xDE, 0x00] [0xFF, 0x21]"
  by (simp add: jx_scanAndLayout jx_plan_def jx_listing bind_def jx_dot jx_dotdot jx_child_a
      jx_child_b)

section \<open>Numbering of directories by the scanner\<close>

lemma length_appendChild [simp]: "length (appendChild es p fe) = Suc (length es)"
  by (simp add: appendChild_def Let_def)

lemma nth_appendChild_old:
  "k < length es \<Longrightarrow> noChildren (appendChild es p fe ! k) = noChildren (es ! k)"
  by (simp add: appendChild_def Let_def nth_list_update nth_append noChildren_def)

lemma nth_appendChild_new:
  "p < length es \<Longrightarrow> appendChild es p fe ! length es = fe"
  by (simp add: appendChild_def Let_def nth_list_update nth_append)

lemma noChildren_fields:
  assumes "noChildren f = noChildren g"
  shows "isDir f = isDir g" "pathTableDirNum f = pathTableDirNum g"
    "parentIndex f = parentIndex g" "originalName f = originalName g"
proof -
  have "isDir (noChildren f) = isDir f" "pathTableDirNum (noChildren f) = pathTableDirNum f"
    "parentIndex (noChildren f) = parentIndex f" "originalName (noChildren f) = originalName f"
    "isDir (noChildren g) = isDir g" "pathTableDirNum (noChildren g) = pathTableDirNum g"
    "parentIndex (noChildren g) = parentIndex g" "originalName (noChildren g) = originalName g"
    by (simp_all add: noChildren_def)
  with assms show "isDir f = isDir g" "pathTableDirNum f = pathTableDirNum g"
    "parentIndex f = parentIndex g" "originalName f = originalName g" by metis+
qed

text \<open>The number of directories among the first entries depends on the kinds alone.\<close>

lemma dirCount_kinds: "dirCount es = length (filter id (map isDir es))"
  by (simp add: dirCount_def filter_map o_def)

lemma dirCount_take_cong:
  assumes "take k (map isDir es) = take k (map isDir es')"
  shows "dirCount (take k es) = dirCount (take k es')"
  using assms by (simp add: dirCount_kinds take_map)

lemma map_isDir_appendChild: "map isDir (appendChild es p fe) = map isDir es @ [isDir fe]"
proof (cases "p < length (es @ [fe])")
  case True
  then have "isDir ((es @ [fe]) ! p) = map isDir (es @ [fe]) ! p" by (simp only: nth_map)
  then show ?thesis by (simp add: appendChild_def Let_def map_update)
next
  case False
  then have "length (es @ [fe]) \<le> p" by simp
  then show ?thesis by (simp add: appendChild_def Let_def list_update_beyond)
qed

lemma dirCount_appendChild:
  "dirCount (appendChild es p fe) = dirCount es + (if isDir fe then 1 else 0)"
  by (simp add: dirCount_kinds map_isDir_appendChild)

lemma dirCount_take_appendChild:
  "k \<le> length es \<Longrightarrow> dirCount (take k (appendChild es p fe)) = dirCount (take k es)"
  by (rule dirCount_take_cong) (simp add: map_isDir_appendChild)

lemma dirCount_take_le: "dirCount (take k es) \<le> dirCount es"
proof -
  have "dirCount es = dirCount (take k es) + dirCount (drop k es)"
    unfolding dirCount_def by (metis append_take_drop_id filter_append length_append)
  then show ?thesis by simp
qed

lemma dirCount_take_ge2:
  assumes "k < length es" "0 < k" "isDir (es ! 0)" "isDir (es ! k)"
  shows "2 \<le> dirCount (take (Suc k) es)"
proof -
  from assms obtain x xs where es: "es = x # xs" by (cases es) auto
  from assms obtain k' where k: "k = Suc k'" by (cases k) auto
  from assms es k have "xs ! k' \<in> set (take (Suc k') xs)" "isDir (xs ! k')" "isDir x"
    by (simp_all add: take_Suc_conv_app_nth)
  then have "filter isDir (take (Suc k') xs) \<noteq> []" by (auto simp: filter_empty_conv)
  then have "1 \<le> length (filter isDir (take (Suc k') xs))" by (simp add: Suc_leI)
  with \<open>isDir x\<close> show ?thesis by (simp add: dirCount_def es k)
qed

lemma scanInv_appendChild:
  assumes inv: "scanInv es n" and p: "p < length es" "isDir (es ! p)"
    and fe: "parentIndex fe = p" "isDir fe \<longrightarrow> pathTableDirNum fe = n"
  shows "scanInv (appendChild es p fe) (if isDir fe then n + 1 else n)"
proof -
  let ?es = "appendChild es p fe"
  have old: "\<And>k. k < length es \<Longrightarrow> isDir (?es ! k) = isDir (es ! k)
      \<and> pathTableDirNum (?es ! k) = pathTableDirNum (es ! k)
      \<and> parentIndex (?es ! k) = parentIndex (es ! k)"
    using noChildren_fields[OF nth_appendChild_old] by blast
  have new: "?es ! length es = fe" using p by (simp add: nth_appendChild_new)
  from inv have ne: "es \<noteq> []" and r0: "isDir (es ! 0)" "parentIndex (es ! 0) = 0"
    and pi: "\<forall>k < length es. parentIndex (es ! k) < length es \<and> isDir (es ! parentIndex (es ! k))"
    and n: "n = word_of_nat (dirCount es + 1)"
    and num: "\<forall>k < length es. isDir (es ! k) \<longrightarrow>
                pathTableDirNum (es ! k) = word_of_nat (dirCount (take (Suc k) es))"
    by (simp_all add: scanInv_def)
  from ne have z: "0 < length es" by simp
  have a: "?es \<noteq> []" using length_appendChild[of es p fe] by (metis length_0_conv nat.simps(3))
  have b: "isDir (?es ! 0)" "parentIndex (?es ! 0) = 0" using old[OF z] r0 by simp_all
  have c: "\<forall>k < length ?es. parentIndex (?es ! k) < length ?es \<and> isDir (?es ! parentIndex (?es ! k))"
  proof (intro allI impI)
    fix k assume k: "k < length ?es"
    have "parentIndex (?es ! k) < length es \<and> isDir (es ! parentIndex (?es ! k))"
    proof (cases "k < length es")
      case True with pi old[OF True] show ?thesis by simp
    next
      case False
      with k have "k = length es" by simp
      with new fe p show ?thesis by simp
    qed
    then show "parentIndex (?es ! k) < length ?es \<and> isDir (?es ! parentIndex (?es ! k))"
      using old by simp
  qed
  have d: "(if isDir fe then n + 1 else n) = word_of_nat (dirCount ?es + 1)"
    by (simp add: n dirCount_appendChild)
  have e: "\<forall>k < length ?es. isDir (?es ! k) \<longrightarrow>
             pathTableDirNum (?es ! k) = word_of_nat (dirCount (take (Suc k) ?es))"
  proof (intro allI impI)
    fix k assume k: "k < length ?es" and dk: "isDir (?es ! k)"
    show "pathTableDirNum (?es ! k) = word_of_nat (dirCount (take (Suc k) ?es))"
    proof (cases "k < length es")
      case True
      then have "dirCount (take (Suc k) ?es) = dirCount (take (Suc k) es)"
        by (intro dirCount_take_appendChild) simp
      with num dk old[OF True] True show ?thesis by simp
    next
      case False
      with k have kl: "k = length es" by simp
      then have "take (Suc k) ?es = ?es" by simp
      with kl new fe dk n show ?thesis by (simp add: dirCount_appendChild)
    qed
  qed
  from a b c d e show ?thesis unfolding scanInv_def by blast
qed

text \<open>The scanner appends entries and extends lists of children; nothing else.\<close>

lemma scanDirectoryRecursive_frame:
  "scanDirectoryRecursive nodes path p st = Inr st' \<Longrightarrow>
   length (fst st) \<le> length (fst st')
   \<and> (\<forall>k < length (fst st). noChildren (fst st' ! k) = noChildren (fst st ! k))"
proof (induction nodes path p st arbitrary: st' rule: scanDirectoryRecursive.induct)
  case (3 name sub rest currentDiskPath parentEntryIndex es nextPathTableNumber)
  let ?fe = "(newEntry name (currentDiskPath @ runes ''/'' @ name)
                (level (es ! parentEntryIndex) + 1) parentEntryIndex)
              \<lparr>isDir := True, pathTableDirNum := nextPathTableNumber\<rparr>"
  let ?es1 = "appendChild es parentEntryIndex ?fe"
  from "3.prems" obtain st1 where
    s1: "scanDirectoryRecursive sub (currentDiskPath @ runes ''/'' @ name) (length es)
           (?es1, nextPathTableNumber + 1) = Inr st1" and
    s2: "scanDirectoryRecursive rest currentDiskPath parentEntryIndex st1 = Inr st'"
    by (auto simp: Let_def split: sum.splits)
  from "3.IH"(1)[OF refl refl refl s1] have
    a: "length ?es1 \<le> length (fst st1)"
       "\<forall>k < length ?es1. noChildren (fst st1 ! k) = noChildren (?es1 ! k)"
    by simp_all
  from "3.IH"(2)[OF refl refl refl s1 s2] have
    b: "length (fst st1) \<le> length (fst st')"
       "\<forall>k < length (fst st1). noChildren (fst st' ! k) = noChildren (fst st1 ! k)"
    by simp_all
  show ?case
    using a b nth_appendChild_old[of _ es parentEntryIndex ?fe] by (auto simp: less_Suc_eq_le)
next
  case (5 name fileSize rest currentDiskPath parentEntryIndex es nextPathTableNumber)
  let ?xb = "(newEntry name (currentDiskPath @ runes ''/'' @ name)
                (level (es ! parentEntryIndex) + 1) parentEntryIndex)
              \<lparr>isDir := False, iso9660Size := word_of_int fileSize\<rparr>"
  let ?fe = "?xb\<lparr>jolietSize := iso9660Size ?xb\<rparr>"
  let ?es1 = "appendChild es parentEntryIndex ?fe"
  from "5.prems" have
    s: "scanDirectoryRecursive rest currentDiskPath parentEntryIndex (?es1, nextPathTableNumber) = Inr st'"
    by (simp add: Let_def)
  from "5.IH"[OF refl refl refl refl s] have
    a: "length ?es1 \<le> length (fst st')"
       "\<forall>k < length ?es1. noChildren (fst st' ! k) = noChildren (?es1 ! k)"
    by simp_all
  show ?case
    using a nth_appendChild_old[of _ es parentEntryIndex ?fe] by (auto simp: less_Suc_eq_le)
qed auto

lemma scanDirectoryRecursive_scanInv:
  "scanDirectoryRecursive nodes path p st = Inr st' \<Longrightarrow>
   scanInv (fst st) (snd st) \<Longrightarrow> p < length (fst st) \<Longrightarrow> isDir (fst st ! p) \<Longrightarrow>
   scanInv (fst st') (snd st')"
proof (induction nodes path p st arbitrary: st' rule: scanDirectoryRecursive.induct)
  case (3 name sub rest currentDiskPath parentEntryIndex es nextPathTableNumber)
  let ?fe = "(newEntry name (currentDiskPath @ runes ''/'' @ name)
                (level (es ! parentEntryIndex) + 1) parentEntryIndex)
              \<lparr>isDir := True, pathTableDirNum := nextPathTableNumber\<rparr>"
  let ?es1 = "appendChild es parentEntryIndex ?fe"
  from "3.prems"(1) obtain st1 where
    s1: "scanDirectoryRecursive sub (currentDiskPath @ runes ''/'' @ name) (length es)
           (?es1, nextPathTableNumber + 1) = Inr st1" and
    s2: "scanDirectoryRecursive rest currentDiskPath parentEntryIndex st1 = Inr st'"
    by (auto simp: Let_def split: sum.splits)
  from "3.prems" have inv: "scanInv es nextPathTableNumber" and p: "parentEntryIndex < length es"
    and pd: "isDir (es ! parentEntryIndex)"
    by simp_all
  note f1 = scanDirectoryRecursive_frame[OF s1]
  have "scanInv ?es1 (if isDir ?fe then nextPathTableNumber + 1 else nextPathTableNumber)"
    by (rule scanInv_appendChild[OF inv p pd]) (simp_all add: newEntry_def)
  then have inv1: "scanInv ?es1 (nextPathTableNumber + 1)" by simp
  have new: "?es1 ! length es = ?fe" using p by (simp add: nth_appendChild_new)
  have "scanInv (fst st1) (snd st1)"
    using "3.IH"(1)[OF refl refl refl s1] inv1 new by simp
  moreover have "parentEntryIndex < length (fst st1)" using p f1 by simp
  moreover have "isDir (fst st1 ! parentEntryIndex)"
  proof -
    from f1 p have "noChildren (fst st1 ! parentEntryIndex) = noChildren (?es1 ! parentEntryIndex)"
      by simp
    also have "\<dots> = noChildren (es ! parentEntryIndex)" using p by (rule nth_appendChild_old)
    finally show ?thesis using pd noChildren_fields(1) by blast
  qed
  ultimately show ?case
    using "3.IH"(2)[OF refl refl refl s1 s2] by simp
next
  case (5 name fileSize rest currentDiskPath parentEntryIndex es nextPathTableNumber)
  let ?xb = "(newEntry name (currentDiskPath @ runes ''/'' @ name)
                (level (es ! parentEntryIndex) + 1) parentEntryIndex)
              \<lparr>isDir := False, iso9660Size := word_of_int fileSize\<rparr>"
  let ?fe = "?xb\<lparr>jolietSize := iso9660Size ?xb\<rparr>"
  let ?es1 = "appendChild es parentEntryIndex ?fe"
  from "5.prems"(1) have
    s: "scanDirectoryRecursive rest currentDiskPath parentEntryIndex (?es1, nextPathTableNumber) = Inr st'"
    by (simp add: Let_def)
  from "5.prems" have inv: "scanInv es nextPathTableNumber" and p: "parentEntryIndex < length es"
    and pd: "isDir (es ! parentEntryIndex)"
    by simp_all
  have "scanInv ?es1 (if isDir ?fe then nextPathTableNumber + 1 else nextPathTableNumber)"
    by (rule scanInv_appendChild[OF inv p pd]) (simp_all add: newEntry_def)
  then have inv1: "scanInv ?es1 nextPathTableNumber" by (simp add: newEntry_def)
  moreover have "isDir (?es1 ! parentEntryIndex)"
    using noChildren_fields(1)[OF nth_appendChild_old[OF p]] pd by blast
  ultimately show ?case
    using "5.IH"[OF refl refl refl refl s] p by simp
qed auto

lemma ScanSourceDirectory_scanInv:
  assumes "ScanSourceDirectory src = Inr es"
  shows "\<exists>n. scanInv es n"
proof -
  from assms obtain absPath osEntries n where
    s: "scanDirectoryRecursive osEntries absPath 0 ([rootEntry absPath], 2) = Inr (es, n)"
    by (auto simp: ScanSourceDirectory_def split: fsnode.splits sum.splits)
  have "scanInv [rootEntry absPath] 2"
    by (simp add: scanInv_def dirCount_def rootEntry_def newEntry_def)
  with scanDirectoryRecursive_scanInv[OF s] have "scanInv es n"
    by (simp add: rootEntry_def)
  then show ?thesis ..
qed

text \<open>
  The scanner numbers the directories in the order in which it meets them, from 1 at the
  root, modulo \<open>2\<^sup>1\<^sup>6\<close>: the 65536th directory gets number 0 and the 65537th number 1.
\<close>

lemma ScanSourceDirectory_numbers:
  assumes "ScanSourceDirectory src = Inr es" "k < length es" "isDir (es ! k)"
  shows "pathTableDirNum (es ! k) = word_of_nat (dirCount (take (Suc k) es))"
  using ScanSourceDirectory_scanInv[OF assms(1)] assms(2,3) by (auto simp: scanInv_def)

lemma unat_dir_number:
  assumes "m \<le> 65535"
  shows "unat (word_of_nat m :: uint16) = m"
  using assms by (simp add: unat_of_nat)

lemma scanInv_rootedTable:
  assumes inv: "scanInv es n" and c: "dirCount es \<le> 65535"
  shows "rootedTable es"
proof -
  from inv have ne: "es \<noteq> []" and r0: "isDir (es ! 0)" "parentIndex (es ! 0) = 0"
    and pi: "\<forall>k < length es. parentIndex (es ! k) < length es \<and> isDir (es ! parentIndex (es ! k))"
    and num: "\<forall>k < length es. isDir (es ! k) \<longrightarrow>
                pathTableDirNum (es ! k) = word_of_nat (dirCount (take (Suc k) es))"
    by (simp_all add: scanInv_def)
  from ne obtain x xs where es: "es = x # xs" by (cases es) auto
  have "dirCount (take (Suc 0) es) = 1" using r0 by (simp add: es dirCount_def)
  moreover have "pathTableDirNum (es ! 0) = word_of_nat (dirCount (take (Suc 0) es))"
    using num r0 ne by simp
  ultimately have n0: "pathTableDirNum (es ! 0) = 1" by simp
  have "2 \<le> unat (pathTableDirNum (es ! k))" if k: "k < length es" "0 < k" "isDir (es ! k)" for k
  proof -
    let ?m = "dirCount (take (Suc k) es)"
    have "?m \<le> 65535" using dirCount_take_le[of "Suc k" es] c by simp
    then have "unat (word_of_nat ?m :: uint16) = ?m" by (rule unat_dir_number)
    moreover have "2 \<le> ?m" using k r0 by (intro dirCount_take_ge2) simp_all
    ultimately show ?thesis using num k by simp
  qed
  with ne r0 n0 pi show ?thesis unfolding rootedTable_def by blast
qed

lemma ScanSourceDirectory_rootedTable:
  assumes "ScanSourceDirectory src = Inr es" "dirCount es \<le> 65535"
  shows "rootedTable es"
  using ScanSourceDirectory_scanInv[OF assms(1)] scanInv_rootedTable[OF _ assms(2)] by blast

section \<open>The root record of the M-type path table\<close>

lemma nonLayout_fields:
  assumes "nonLayout f' = nonLayout f"
  shows "isDir f' = isDir f" "pathTableDirNum f' = pathTableDirNum f"
    "parentIndex f' = parentIndex f" "originalName f' = originalName f"
    "iso9660Name f' = iso9660Name f" "jolietName f' = jolietName f"
proof -
  have "isDir (nonLayout f') = isDir f'" "pathTableDirNum (nonLayout f') = pathTableDirNum f'"
    "parentIndex (nonLayout f') = parentIndex f'" "originalName (nonLayout f') = originalName f'"
    "iso9660Name (nonLayout f') = iso9660Name f'" "jolietName (nonLayout f') = jolietName f'"
    "isDir (nonLayout f) = isDir f" "pathTableDirNum (nonLayout f) = pathTableDirNum f"
    "parentIndex (nonLayout f) = parentIndex f" "originalName (nonLayout f) = originalName f"
    "iso9660Name (nonLayout f) = iso9660Name f" "jolietName (nonLayout f) = jolietName f"
    by (simp_all add: nonLayout_def)
  with assms show "isDir f' = isDir f" "pathTableDirNum f' = pathTableDirNum f"
    "parentIndex f' = parentIndex f" "originalName f' = originalName f"
    "iso9660Name f' = iso9660Name f" "jolietName f' = jolietName f" by metis+
qed

lemma assign_parentIndex [simp]:
  "parentIndex (assignSanitizedNamesAndDrSizes_entry f) = parentIndex f"
  by (simp add: assignSanitizedNamesAndDrSizes_entry_def Let_def)

lemma assign_originalName [simp]:
  "originalName (assignSanitizedNamesAndDrSizes_entry f) = originalName f"
  by (simp add: assignSanitizedNamesAndDrSizes_entry_def Let_def)

text \<open>What the planner keeps of an entry, and the names it gives it.\<close>

lemma calculateLayout_fields:
  assumes "calculateLayout b = Inr p"
  shows "length (fileEntries p) = length (fileEntries b)"
    and "k < length (fileEntries b) \<Longrightarrow>
      isDir (fileEntries p ! k) = isDir (fileEntries b ! k)
      \<and> pathTableDirNum (fileEntries p ! k) = pathTableDirNum (fileEntries b ! k)
      \<and> parentIndex (fileEntries p ! k) = parentIndex (fileEntries b ! k)
      \<and> originalName (fileEntries p ! k) = originalName (fileEntries b ! k)
      \<and> iso9660Name (fileEntries p ! k) =
          iso9660Name (assignSanitizedNamesAndDrSizes_entry (fileEntries b ! k))
      \<and> jolietName (fileEntries p ! k) =
          jolietName (assignSanitizedNamesAndDrSizes_entry (fileEntries b ! k))"
proof -
  from calculateLayout_replanned[OF assms] have
    r: "list_all2 replanned (map assignSanitizedNamesAndDrSizes_entry (fileEntries b)) (fileEntries p)"
    by simp
  from list_all2_lengthD[OF r] show l: "length (fileEntries p) = length (fileEntries b)" by simp
  assume k: "k < length (fileEntries b)"
  with r have "replanned (assignSanitizedNamesAndDrSizes_entry (fileEntries b ! k)) (fileEntries p ! k)"
    by (simp add: list_all2_conv_all_nth)
  then have "nonLayout (fileEntries p ! k) = nonLayout (assignSanitizedNamesAndDrSizes_entry (fileEntries b ! k))"
    by (simp add: replanned_def)
  from nonLayout_fields[OF this] show
    "isDir (fileEntries p ! k) = isDir (fileEntries b ! k)
      \<and> pathTableDirNum (fileEntries p ! k) = pathTableDirNum (fileEntries b ! k)
      \<and> parentIndex (fileEntries p ! k) = parentIndex (fileEntries b ! k)
      \<and> originalName (fileEntries p ! k) = originalName (fileEntries b ! k)
      \<and> iso9660Name (fileEntries p ! k) =
          iso9660Name (assignSanitizedNamesAndDrSizes_entry (fileEntries b ! k))
      \<and> jolietName (fileEntries p ! k) =
          jolietName (assignSanitizedNamesAndDrSizes_entry (fileEntries b ! k))"
    by simp
qed

lemma calculateLayout_rootedTable:
  assumes "calculateLayout b = Inr p" "rootedTable (fileEntries b)"
  shows "rootedTable (fileEntries p)"
proof -
  note l = calculateLayout_fields(1)[OF assms(1)]
  note f = calculateLayout_fields(2)[OF assms(1)]
  from assms(2) have z: "0 < length (fileEntries b)" by (simp add: rootedTable_def)
  have pi: "\<And>k. k < length (fileEntries b) \<Longrightarrow> parentIndex (fileEntries b ! k) < length (fileEntries b)"
    using assms(2) by (simp add: rootedTable_def)
  show ?thesis
    unfolding rootedTable_def l
  proof (intro conjI allI impI)
    show "fileEntries p \<noteq> []" using z l by auto
    show "isDir (fileEntries p ! 0)" "pathTableDirNum (fileEntries p ! 0) = 1"
      "parentIndex (fileEntries p ! 0) = 0"
      using f[OF z] assms(2) by (simp_all add: rootedTable_def)
  next
    fix k assume k: "k < length (fileEntries b)"
    show "parentIndex (fileEntries p ! k) < length (fileEntries b)" using f[OF k] pi[OF k] by simp
    show "isDir (fileEntries p ! parentIndex (fileEntries p ! k))"
      using f[OF k] f[OF pi[OF k]] assms(2) k by (simp add: rootedTable_def)
  next
    fix k assume k: "k < length (fileEntries b)" and d: "0 < k \<and> isDir (fileEntries p ! k)"
    then show "2 \<le> unat (pathTableDirNum (fileEntries p ! k))"
      using f[OF k] assms(2) by (simp add: rootedTable_def)
  qed
qed

text \<open>The identifier of the root, \<open>0x00\<close>, is below every other identifier.\<close>

lemma bytes_less_zero_utf8:
  assumes "s \<noteq> []" "list_all (\<lambda>r. 0 < r \<and> r < 128) s"
  shows "bytes_less [0] (utf8_string s)"
proof -
  from assms obtain r rs where s: "s = r # rs" and r: "0 < r" "r < 128"
    by (cases s) auto
  from r have "unat (word_of_nat r :: byte) = r" by (simp add: unat_of_nat)
  with r have "(word_of_nat r :: byte) \<noteq> 0" by (metis unat_0 less_numeral_extra(3))
  then have "(0 :: byte) < word_of_nat r" by (simp add: word_greater_zero_iff)
  with r show ?thesis by (simp add: s utf8_string_def utf8_EncodeRune_def)
qed

lemma sanitizeRune_nonzero: "0 < sanitizeRune d r \<and> sanitizeRune d r < 128"
  by (simp add: sanitizeRune_def)

lemma sanitizeISO9660Name_dir_nonzero:
  "sanitizeISO9660Name n True \<noteq> []
   \<and> list_all (\<lambda>r. 0 < r \<and> r < 128) (sanitizeISO9660Name n True)"
proof -
  have a: "list_all (\<lambda>r. 0 < r \<and> r < 128) (sanitizePartFunc n 8 False)"
    by (auto simp: sanitizePartFunc_def Let_def list_all_iff sanitizeRune_nonzero dest!: in_set_takeD)
  then have b: "list_all (\<lambda>r. 0 < r \<and> r < 128)
      (strings_ReplaceAll (sanitizePartFunc n 8 False) (ch CHR ''.'') (ch CHR ''_''))"
    by (auto simp: strings_ReplaceAll_def list_all_iff)
  have c: "list_all (\<lambda>r. 0 < r \<and> r < 128) (runes ''DIR'')" by (simp add: runes_def)
  have "splitLastDot n True = (n, [])" by (simp add: splitLastDot_def)
  then show ?thesis
    using b c by (auto simp: sanitizeISO9660Name_def Let_def list_all_iff runes_def dest!: in_set_takeD)
qed

lemma bytes_less_zero_utf16:
  assumes "s \<noteq> []"
  shows "bytes_less [0] (encodeUTF16BE s)"
proof -
  from assms obtain r rs where s: "s = r # rs" by (cases s) auto
  obtain u us where u: "utf16_EncodeRune r = u # us"
    by (cases "utf16_EncodeRune r") (auto simp: utf16_EncodeRune_def Let_def split: if_splits)
  have "encodeUTF16BE s = ucast (drop_bit 8 u) # ucast u # encodeUTF16BE_rest"
    if "encodeUTF16BE_rest = concat (map (\<lambda>rVal. [ucast (drop_bit 8 rVal), ucast rVal]) (us @ utf16_Encode rs))"
    for encodeUTF16BE_rest :: "byte list"
    using that by (simp add: encodeUTF16BE_def utf16_Encode_def s u)
  then obtain x y zs where "encodeUTF16BE s = x # y # zs" by blast
  then show ?thesis by (cases "x = 0") (simp_all add: word_greater_zero_iff)
qed

lemma truncateJolietName_nonempty: "n \<noteq> [] \<Longrightarrow> truncateJolietName n \<noteq> []"
  by (auto simp: truncateJolietName_def JolietMaxFilenameChars_def)

text \<open>The first element of a sorted list is the one below all others.\<close>

lemma hd_sort_Slice:
  assumes asym: "\<And>a b. lt a b \<Longrightarrow> \<not> lt b a"
    and ntrans: "\<And>a b c. \<not> lt b a \<Longrightarrow> \<not> lt c b \<Longrightarrow> \<not> lt c a"
    and x: "x \<in> set xs" and least: "\<And>y. y \<in> set xs \<Longrightarrow> y = x \<or> lt x y"
  shows "sort_Slice lt xs \<noteq> [] \<and> hd (sort_Slice lt xs) = x"
proof -
  from x have ne: "sort_Slice lt xs \<noteq> []" by (metis set_sort_Slice empty_iff empty_set)
  then obtain h t where ht: "sort_Slice lt xs = h # t" by (cases "sort_Slice lt xs") auto
  have s: "sorted_wrt (\<lambda>a b. \<not> lt b a) (h # t)"
    using sorted_sort_Slice[of lt xs, OF asym ntrans] by (simp add: ht)
  have hin: "h \<in> set xs" using ht by (metis set_sort_Slice list.set_intros(1))
  have "h = x"
  proof (rule ccontr)
    assume n: "h \<noteq> x"
    with least[OF hin] have "lt x h" by simp
    moreover from x ht n have "x \<in> set t" by (metis set_sort_Slice set_ConsD)
    ultimately show False using s by auto
  qed
  with ne ht show ?thesis by simp
qed

lemma root_first:
  assumes r: "rootedTable es"
    and ids: "\<And>k. k < length es \<Longrightarrow> 0 < k \<Longrightarrow> isDir (es ! k) \<Longrightarrow>
                bytes_less [0] (pathTableIdentifier j (es ! k))"
  shows "sortedPathTableDirs es j True \<noteq> [] \<and> hd (sortedPathTableDirs es j True) = es ! 0"
  unfolding sortedPathTableDirs_def
proof (rule hd_sort_Slice)
  fix a b assume "pathTableLess es j True a b"
  then show "\<not> pathTableLess es j True b a"
    using bytes_less_asym by (auto simp: pathTableLess_M)
next
  fix a b c
  assume "\<not> pathTableLess es j True b a" "\<not> pathTableLess es j True c b"
  then show "\<not> pathTableLess es j True c a"
    using bytes_less_ntrans[of "pathTableIdentifier j b" "pathTableIdentifier j a" "pathTableIdentifier j c"]
    by (auto simp: pathTableLess_M)
next
  from r show "es ! 0 \<in> set (pathTableDirs es)"
    by (simp add: rootedTable_def pathTableDirs_def)
next
  fix y assume "y \<in> set (pathTableDirs es)"
  then obtain k where k: "k < length es" "y = es ! k" and d: "isDir (es ! k)"
    by (auto simp: pathTableDirs_def in_set_conv_nth)
  from r have r0: "pathTableDirNum (es ! 0) = 1" "parentIndex (es ! 0) = 0"
    by (simp_all add: rootedTable_def)
  then have p0: "parentDirNum es (es ! 0) = 1" by (simp add: parentDirNum_def)
  have i0: "pathTableIdentifier j (es ! 0) = [0]" using r0 by (simp add: pathTableIdentifier_def)
  show "y = es ! 0 \<or> pathTableLess es j True (es ! 0) y"
  proof (cases "k = 0")
    case True with k show ?thesis by simp
  next
    case False
    then have kp: "0 < k" by simp
    let ?q = "parentIndex (es ! k)"
    from r k have q: "?q < length es" "isDir (es ! ?q)" by (simp_all add: rootedTable_def)
    have "1 \<le> unat (pathTableDirNum (es ! ?q))"
    proof (cases "?q = 0")
      case True with r0 show ?thesis by simp
    next
      case False
      with r q have "2 \<le> unat (pathTableDirNum (es ! ?q))" by (simp add: rootedTable_def)
      then show ?thesis by simp
    qed
    then have "1 \<le> parentDirNum es y" by (simp add: parentDirNum_def k word_le_nat_alt)
    then have "1 < parentDirNum es y \<or> 1 = parentDirNum es y" by auto
    with ids[OF k(1) kp d] show ?thesis by (auto simp: pathTableLess_M p0 i0 k)
  qed
qed

lemma planned_identifier_above_root:
  assumes l: "calculateLayout b = Inr p" and k: "k < length (fileEntries p)" "0 < k"
    and d: "isDir (fileEntries p ! k)" and r: "rootedTable (fileEntries p)"
    and n: "j \<Longrightarrow> originalName (fileEntries p ! k) \<noteq> []"
  shows "bytes_less [0] (pathTableIdentifier j (fileEntries p ! k))"
proof -
  note len = calculateLayout_fields(1)[OF l]
  from k len have kb: "k < length (fileEntries b)" by simp
  note f = calculateLayout_fields(2)[OF l kb]
  from r k d have "2 \<le> unat (pathTableDirNum (fileEntries p ! k))" by (simp add: rootedTable_def)
  then have n1: "pathTableDirNum (fileEntries p ! k) \<noteq> 1" by auto
  with f d have nm:
    "iso9660Name (fileEntries p ! k) = sanitizeISO9660Name (originalName (fileEntries p ! k)) True"
    "jolietName (fileEntries p ! k) = truncateJolietName (originalName (fileEntries p ! k))"
    by (simp_all add: assign_iso9660Name assign_jolietName)
  show ?thesis
  proof (cases j)
    case True
    with nm n1 truncateJolietName_nonempty[OF n] show ?thesis
      by (simp add: pathTableIdentifier_def bytes_less_zero_utf16)
  next
    case False
    with nm n1 sanitizeISO9660Name_dir_nonzero[of "originalName (fileEntries p ! k)"]
    show ?thesis by (simp add: pathTableIdentifier_def bytes_less_zero_utf8)
  qed
qed

lemma unhide_eq_fields:
  assumes "unhide f = unhide g"
  shows "isDir f = isDir g" "pathTableDirNum f = pathTableDirNum g"
    "parentIndex f = parentIndex g" "originalName f = originalName g"
proof -
  have "isDir (unhide f) = isDir f" "pathTableDirNum (unhide f) = pathTableDirNum f"
    "parentIndex (unhide f) = parentIndex f" "originalName (unhide f) = originalName f"
    "isDir (unhide g) = isDir g" "pathTableDirNum (unhide g) = pathTableDirNum g"
    "parentIndex (unhide g) = parentIndex g" "originalName (unhide g) = originalName g"
    by (simp_all add: unhide_def)
  with assms show "isDir f = isDir g" "pathTableDirNum f = pathTableDirNum g"
    "parentIndex f = parentIndex g" "originalName f = originalName g" by metis+
qed

lemma map_unhide_nth:
  assumes "map unhide es = map unhide es0"
  shows "length es = length es0" and "k < length es0 \<Longrightarrow> unhide (es ! k) = unhide (es0 ! k)"
proof -
  from assms show l: "length es = length es0" by (rule map_eq_imp_length_eq)
  assume k: "k < length es0"
  with l have "unhide (es ! k) = map unhide es ! k" by simp
  also have "\<dots> = unhide (es0 ! k)" using k by (simp add: assms)
  finally show "unhide (es ! k) = unhide (es0 ! k)" .
qed

lemma rootedTable_unhide:
  assumes m: "map unhide es = map unhide es0" and r: "rootedTable es0"
  shows "rootedTable es"
proof -
  note l = map_unhide_nth(1)[OF m]
  have f: "\<And>k. k < length es0 \<Longrightarrow> isDir (es ! k) = isDir (es0 ! k)
      \<and> pathTableDirNum (es ! k) = pathTableDirNum (es0 ! k)
      \<and> parentIndex (es ! k) = parentIndex (es0 ! k)"
    using unhide_eq_fields[OF map_unhide_nth(2)[OF m]] by blast
  from r have z: "0 < length es0" by (simp add: rootedTable_def)
  have pi: "\<And>k. k < length es0 \<Longrightarrow> parentIndex (es0 ! k) < length es0"
    using r by (simp add: rootedTable_def)
  show ?thesis
    unfolding rootedTable_def l
  proof (intro conjI allI impI)
    show "es \<noteq> []" using z l by auto
    show "isDir (es ! 0)" "pathTableDirNum (es ! 0) = 1" "parentIndex (es ! 0) = 0"
      using f[OF z] r by (simp_all add: rootedTable_def)
  next
    fix k assume k: "k < length es0"
    show "parentIndex (es ! k) < length es0" using f[OF k] pi[OF k] by simp
    show "isDir (es ! parentIndex (es ! k))"
      using f[OF k] f[OF pi[OF k]] r k by (simp add: rootedTable_def)
  next
    fix k assume k: "k < length es0" and d: "0 < k \<and> isDir (es ! k)"
    then show "2 \<le> unat (pathTableDirNum (es ! k))"
      using f[OF k] r by (simp add: rootedTable_def)
  qed
qed

lemma pregeneratePathTables_data:
  assumes "pregeneratePathTables b = Inr b'"
  shows "createPathTable (fileEntries b') False False = Inr (pvdPathTableLData b')
       \<and> createPathTable (fileEntries b') False True = Inr (pvdPathTableMData b')
       \<and> createPathTable (fileEntries b') True False = Inr (svdPathTableLData b')
       \<and> createPathTable (fileEntries b') True True = Inr (svdPathTableMData b')"
  using assms unfolding pregeneratePathTables_def
  by (auto dest!: bind_Inr simp: Let_def split: if_splits)

lemma calculateLayout_pathTables:
  assumes "calculateLayout b = Inr p"
  shows "createPathTable (fileEntries p) False False = Inr (pvdPathTableLData p)
       \<and> createPathTable (fileEntries p) False True = Inr (pvdPathTableMData p)
       \<and> createPathTable (fileEntries p) True False = Inr (svdPathTableLData p)
       \<and> createPathTable (fileEntries p) True True = Inr (svdPathTableMData p)"
proof -
  from assms obtain b5 where "pregeneratePathTables b5 = Inr p"
    unfolding calculateLayout_def Let_def
    by (auto dest!: bind_Inr split: prod.splits)
  then show ?thesis by (rule pregeneratePathTables_data)
qed

lemma createPathTable_records:
  "createPathTable es j be = Inr table \<Longrightarrow>
   table = concat (map (pathTableRecord es j be) (sortedPathTableDirs es j be))"
  by (simp add: createPathTable_def split: if_splits)

text \<open>Sorting keeps every element, as often as it occurs.\<close>

lemma count_list_insert_by: "count_list (insert_by lt x ys) d = count_list (x # ys) d"
  by (induction ys) auto

lemma count_list_sort_Slice: "count_list (sort_Slice lt xs) d = count_list xs d"
  by (induction xs) (simp_all add: sort_Slice_Cons count_list_insert_by sort_Slice_def)

text \<open>When no number has wrapped, every directory is listed.\<close>

lemma pathTableDirs_rootedTable:
  assumes "rootedTable es"
  shows "pathTableDirs es = filter isDir es"
  unfolding pathTableDirs_def
proof (rule filter_cong[OF refl])
  fix f assume "f \<in> set es"
  then obtain k where k: "k < length es" "f = es ! k" by (auto simp: in_set_conv_nth)
  have "0 < pathTableDirNum f" if d: "isDir f"
  proof (cases "k = 0")
    case True
    with assms k show ?thesis by (simp add: rootedTable_def)
  next
    case False
    with assms k d have "2 \<le> unat (pathTableDirNum f)" by (simp add: rootedTable_def)
    then have "pathTableDirNum f \<noteq> 0" by auto
    then show ?thesis by (simp add: word_greater_zero_iff)
  qed
  then show "(isDir f \<and> 0 < pathTableDirNum f) = isDir f" by blast
qed

text \<open>
  In the M-type tables of a planned scan the root comes first and every directory has a
  record, when the scan has found at most 65535 directories; for the Joliet table, when
  each of them has a name.
\<close>

lemma planned_root_first:
  assumes s: "ScanSourceDirectory src = Inr es0" and n: "dirCount es0 \<le> 65535"
    and names: "j \<Longrightarrow> list_all (\<lambda>f. isDir f \<longrightarrow> originalName f \<noteq> []) es0"
    and m: "map unhide (fileEntries b) = map unhide es0"
    and l: "calculateLayout b = Inr p"
  shows "pathTableDirs (fileEntries p) = filter isDir (fileEntries p)
       \<and> sortedPathTableDirs (fileEntries p) j True \<noteq> []
       \<and> hd (sortedPathTableDirs (fileEntries p) j True) = fileEntries p ! 0
       \<and> pathTableDirNum (fileEntries p ! 0) = 1"
proof -
  have r0: "rootedTable (fileEntries b)"
    using rootedTable_unhide[OF m ScanSourceDirectory_rootedTable[OF s n]] .
  have r: "rootedTable (fileEntries p)" using calculateLayout_rootedTable[OF l r0] .
  note len = calculateLayout_fields(1)[OF l] map_unhide_nth(1)[OF m]
  have nm: "originalName (fileEntries p ! k) \<noteq> []"
    if k: "k < length (fileEntries p)" "isDir (fileEntries p ! k)" and j: j for k
  proof -
    from k len have k0: "k < length es0" and kb: "k < length (fileEntries b)" by simp_all
    note f = calculateLayout_fields(2)[OF l kb] unhide_eq_fields[OF map_unhide_nth(2)[OF m k0]]
    from f k have "isDir (es0 ! k)" by simp
    with names[OF j] k0 have "originalName (es0 ! k) \<noteq> []" by (simp add: list_all_length)
    with f show ?thesis by simp
  qed
  have "sortedPathTableDirs (fileEntries p) j True \<noteq> []
       \<and> hd (sortedPathTableDirs (fileEntries p) j True) = fileEntries p ! 0"
    using r
  proof (rule root_first)
    fix k assume k: "k < length (fileEntries p)" "0 < k" "isDir (fileEntries p ! k)"
    from planned_identifier_above_root[OF l k r nm[OF k(1,3)]]
    show "bytes_less [0] (pathTableIdentifier j (fileEntries p ! k))" .
  qed
  with r pathTableDirs_rootedTable[OF r] show ?thesis by (simp add: rootedTable_def)
qed

text \<open>
  Past the bound the root can lose its place: in any table, a listed directory whose
  parent has number 0 comes before a root whose parent number is 1.
\<close>

lemma root_not_first_after_wrap:
  assumes d: "d \<in> set (pathTableDirs es)" and p: "parentDirNum es d = 0"
    and r: "parentDirNum es (es ! 0) = 1"
  shows "hd (sortedPathTableDirs es j True) \<noteq> es ! 0"
proof
  assume h: "hd (sortedPathTableDirs es j True) = es ! 0"
  from d have din: "d \<in> set (sortedPathTableDirs es j True)"
    by (simp add: sortedPathTableDirs_def)
  then obtain t where s: "sortedPathTableDirs es j True = es ! 0 # t"
    using h by (cases "sortedPathTableDirs es j True") auto
  from p r have "d \<noteq> es ! 0" by auto
  with din s have "d \<in> set t" by simp
  with sorted_M[of es j] s have
    "parentDirNum es (es ! 0) < parentDirNum es d
     \<or> (parentDirNum es (es ! 0) = parentDirNum es d
         \<and> \<not> bytes_less (pathTableIdentifier j d) (pathTableIdentifier j (es ! 0)))"
    by simp
  with p r show False by simp
qed

section \<open>The third example, step by step\<close>

lemma px_scan: "ScanSourceDirectory px_tree = Inr [px_root, px_a, px_z, px_b]"
  by (simp add: px_tree_def ScanSourceDirectory_def rootEntry_def newEntry_def appendChild_def
      px_root_def px_a_def px_z_def px_b_def runes_def)

lemma px_sanitize:
  "sanitizeISO9660Name (runes ''a'') True = runes ''A''"
  "sanitizeISO9660Name (runes ''z'') True = runes ''Z''"
  "sanitizeISO9660Name (runes ''b'') True = runes ''B''"
  by (simp_all add: sanitizeISO9660Name_def splitLastDot_def sanitizePartFunc_def sanitizeRune_def
      strings_ToUpper_def unicode_ToUpper_def strings_ReplaceAll_def runes_def Let_def)

lemma px_assign_root: "assignSanitizedNamesAndDrSizes_entry px_root = px_root_named"
  by (simp add: assignSanitizedNamesAndDrSizes_entry_def Let_def px_root_def px_root_named_def
      rootEntry_def newEntry_def calculateDirectoryRecordSize_def getDRIdentifierBytes_def
      drFixedPartSize_def)

lemma px_assign_a: "assignSanitizedNamesAndDrSizes_entry px_a = px_a_named"
  unfolding assignSanitizedNamesAndDrSizes_entry_def Let_def px_a_named_def
  by (simp add: px_a_def newEntry_def px_sanitize truncateJolietName_def JolietMaxFilenameChars_def)
     (simp add: runes_def calculateDirectoryRecordSize_def getDRIdentifierBytes_def drFixedPartSize_def
        encodeUTF16BE_def utf16_Encode_def utf16_EncodeRune_def utf8_string_def utf8_EncodeRune_def)

lemma px_assign_z: "assignSanitizedNamesAndDrSizes_entry px_z = px_z_named"
  unfolding assignSanitizedNamesAndDrSizes_entry_def Let_def px_z_named_def
  by (simp add: px_z_def newEntry_def px_sanitize truncateJolietName_def JolietMaxFilenameChars_def)
     (simp add: runes_def calculateDirectoryRecordSize_def getDRIdentifierBytes_def drFixedPartSize_def
        encodeUTF16BE_def utf16_Encode_def utf16_EncodeRune_def utf8_string_def utf8_EncodeRune_def)

lemma px_assign_b: "assignSanitizedNamesAndDrSizes_entry px_b = px_b_named"
  unfolding assignSanitizedNamesAndDrSizes_entry_def Let_def px_b_named_def
  by (simp add: px_b_def newEntry_def px_sanitize truncateJolietName_def JolietMaxFilenameChars_def)
     (simp add: runes_def calculateDirectoryRecordSize_def getDRIdentifierBytes_def drFixedPartSize_def
        encodeUTF16BE_def utf16_Encode_def utf16_EncodeRune_def utf8_string_def utf8_EncodeRune_def)

lemma px_assign:
  "assignSanitizedNamesAndDrSizes (NewBuilder [px_root, px_a, px_z, px_b]) =
     NewBuilder [px_root_named, px_a_named, px_z_named, px_b_named]"
  by (simp add: assignSanitizedNamesAndDrSizes_def NewBuilder_def px_assign_root px_assign_a
      px_assign_z px_assign_b)

lemma px_named_fields [simp]:
  "isDir px_root_named" "isDir px_a_named" "isDir px_z_named" "isDir px_b_named"
  "pathTableDirNum px_root_named = 1" "pathTableDirNum px_a_named = 2"
  "pathTableDirNum px_z_named = 3" "pathTableDirNum px_b_named = 4"
  "parentIndex px_root_named = 0" "parentIndex px_a_named = 0"
  "parentIndex px_z_named = 1" "parentIndex px_b_named = 0"
  "children px_root_named = [1, 3]" "children px_a_named = [2]"
  "children px_z_named = []" "children px_b_named = []"
  "actualISO9660DrSize px_a_named = 34" "actualJolietDrSize px_a_named = 36"
  "actualISO9660DrSize px_z_named = 34" "actualJolietDrSize px_z_named = 36"
  "actualISO9660DrSize px_b_named = 34" "actualJolietDrSize px_b_named = 36"
  "iso9660Name px_root_named = []" "iso9660Name px_a_named = [65]"
  "iso9660Name px_z_named = [90]" "iso9660Name px_b_named = [66]"
  "jolietName px_root_named = [0]" "jolietName px_a_named = [97]"
  "jolietName px_z_named = [122]" "jolietName px_b_named = [98]"
  by (simp_all add: px_root_named_def px_a_named_def px_z_named_def px_b_named_def
      px_root_def px_a_def px_z_def px_b_def rootEntry_def newEntry_def runes_def)

lemma px_sized_fields [simp]:
  "isDir (px_sized f) = isDir f" "pathTableDirNum (px_sized f) = pathTableDirNum f"
  "parentIndex (px_sized f) = parentIndex f" "children (px_sized f) = children f"
  "actualISO9660DrSize (px_sized f) = actualISO9660DrSize f"
  "actualJolietDrSize (px_sized f) = actualJolietDrSize f"
  "iso9660Name (px_sized f) = iso9660Name f" "jolietName (px_sized f) = jolietName f"
  "iso9660Size (px_sized f) = 2048" "jolietSize (px_sized f) = 2048"
  by (simp_all add: px_sized_def)

text \<open>Every directory of the example has a listing of one sector in each namespace.\<close>

lemma px_single:
  assumes "pathTableDirNum r = 1" "children r = [1, 3]" "children a = [2]" "children z = []"
    "children b = []"
    "actualISO9660DrSize a = 34" "actualJolietDrSize a = 36"
    "actualISO9660DrSize z = 34" "actualJolietDrSize z = 36"
    "actualISO9660DrSize b = 34" "actualJolietDrSize b = 36"
  shows "calculateSingleDirectoryExtentSizeBytes [r, a, z, b] 0 j = Inr 2048"
    "calculateSingleDirectoryExtentSizeBytes [r, a, z, b] 1 j = Inr 2048"
    "calculateSingleDirectoryExtentSizeBytes [r, a, z, b] 2 j = Inr 2048"
    "calculateSingleDirectoryExtentSizeBytes [r, a, z, b] 3 j = Inr 2048"
  using assms
  by (simp_all add: calculateSingleDirectoryExtentSizeBytes_def bind_def index_def Let_def
      calculateDirectoryRecordSize_def getDRIdentifierBytes_def drFixedPartSize_def SectorSize_def
      encodeUTF16BE_def utf16_Encode_def utf16_EncodeRune_def runes_def utf8_string_def
      utf8_EncodeRune_def)

lemma px_extents:
  "extentSizesLoop [0 ..< 4] [px_root_named, px_a_named, px_z_named, px_b_named] =
     Inr [px_sized px_root_named, px_sized px_a_named, px_sized px_z_named, px_sized px_b_named]"
proof -
  have u: "[0 ..< 4] = [0, 1, 2, 3]" by (simp add: upt_rec)
  have l: "\<And>x y. x\<lparr>iso9660Size := 2048, jolietSize := 2048\<rparr> = px_sized x"
    by (simp add: px_sized_def)
  show ?thesis
    unfolding u by (simp add: px_single px_single(2)[unfolded One_nat_def] Let_def l)
qed

lemma px_sizes:
  "calculateAllDirectoryExtentSizes (NewBuilder [px_root_named, px_a_named, px_z_named, px_b_named]) =
     Inr ((NewBuilder [px_sized px_root_named, px_sized px_a_named, px_sized px_z_named,
                       px_sized px_b_named])
            \<lparr>pvdRootDirExtentSize := 2048, svdRootDirExtentSize := 2048\<rparr>)"
proof -
  have "length [px_root_named, px_a_named, px_z_named, px_b_named] = 4"
    by simp
  then have l: "[0 ..< length [px_root_named, px_a_named, px_z_named, px_b_named]] = [0 ..< 4]"
    by (rule arg_cong)
  show ?thesis
    unfolding calculateAllDirectoryExtentSizes_def fileEntries_NewBuilder l px_extents
    by (simp add: NewBuilder_def bind_def index_def)
qed

lemma px_pt_bytes:
  assumes "isDir r" "isDir a" "isDir z" "isDir b"
    "pathTableDirNum r = 1" "pathTableDirNum a = 2" "pathTableDirNum z = 3" "pathTableDirNum b = 4"
    "iso9660Name a = [65]" "iso9660Name z = [90]" "iso9660Name b = [66]"
    "jolietName a = [97]" "jolietName z = [122]" "jolietName b = [98]"
  shows "calculatePathTableTotalBytes [r, a, z, b] j = 40"
  using assms
  by (simp add: Let_def pathTableIdentifier_def ptRecFixedPartSize_def encodeUTF16BE_def
      utf16_Encode_def utf16_EncodeRune_def utf8_string_def utf8_EncodeRune_def)

lemma px_ptlbas:
  assumes "fileEntries b = [px_sized px_root_named, px_sized px_a_named, px_sized px_z_named,
                            px_sized px_b_named]"
  shows "determinePathTableLBAs b 19 =
     (b\<lparr>lbaPvdPathTableL := 19, lbaPvdPathTableM := 20,
            lbaSvdPathTableL := 21, lbaSvdPathTableM := 22,
            lbaPvdPathTableL2 := 23, lbaPvdPathTableM2 := 24,
            lbaSvdPathTableL2 := 25, lbaSvdPathTableM2 := 26\<rparr>, 27)"
proof -
  have p1: "calculatePathTableTotalBytes (fileEntries b) False = 40"
    unfolding assms by (rule px_pt_bytes) simp_all
  have p2: "calculatePathTableTotalBytes (fileEntries b) True = 40"
    unfolding assms by (rule px_pt_bytes) simp_all
  have s: "sectorsToContainBytes 40 = 1"
    by (simp add: sectorsToContainBytes_def SectorSize_def)
  show ?thesis
    unfolding determinePathTableLBAs_def p1 p2
    by (simp add: s assignPathTableSetLBAs_def Let_def)
qed

lemma px_content:
  "fileEntries b = [px_sized px_root_named, px_sized px_a_named, px_sized px_z_named,
                    px_sized px_b_named] \<Longrightarrow>
   assignContentLBAs b 27 =
     Inr (b\<lparr>fileEntries := [px_root_planned, px_a_planned, px_z_planned, px_b_planned]\<rparr>, 35)"
  by (simp add: assignContentLBAs_def bind_def SectorSize_def
      px_root_planned_def px_a_planned_def px_z_planned_def px_b_planned_def)

lemma px_planned_fields [simp]:
  "isDir px_root_planned" "isDir px_a_planned" "isDir px_z_planned" "isDir px_b_planned"
  "pathTableDirNum px_root_planned = 1" "pathTableDirNum px_a_planned = 2"
  "pathTableDirNum px_z_planned = 3" "pathTableDirNum px_b_planned = 4"
  "parentIndex px_root_planned = 0" "parentIndex px_a_planned = 0"
  "parentIndex px_z_planned = 1" "parentIndex px_b_planned = 0"
  "iso9660Name px_a_planned = [65]" "iso9660Name px_z_planned = [90]"
  "iso9660Name px_b_planned = [66]"
  "jolietName px_a_planned = [97]" "jolietName px_z_planned = [122]"
  "jolietName px_b_planned = [98]"
  "iso9660Sector px_root_planned = 27" "iso9660Sector px_a_planned = 28"
  "iso9660Sector px_z_planned = 29" "iso9660Sector px_b_planned = 30"
  "jolietSector px_root_planned = 31" "jolietSector px_a_planned = 32"
  "jolietSector px_z_planned = 33" "jolietSector px_b_planned = 34"
  by (simp_all add: px_root_planned_def px_a_planned_def px_z_planned_def px_b_planned_def)

text \<open>The identifiers and parent numbers that the path tables of the example compare.\<close>

lemma px_identifiers:
  "pathTableIdentifier j px_root_planned = [0]"
  "pathTableIdentifier j px_a_planned = (if j then [0, 97] else [65])"
  "pathTableIdentifier j px_z_planned = (if j then [0, 122] else [90])"
  "pathTableIdentifier j px_b_planned = (if j then [0, 98] else [66])"
  by (simp_all add: pathTableIdentifier_def encodeUTF16BE_def utf16_Encode_def
      utf16_EncodeRune_def utf8_string_def utf8_EncodeRune_def)

lemma px_parents:
  "parentDirNum [px_root_planned, px_a_planned, px_z_planned, px_b_planned] px_root_planned = 1"
  "parentDirNum [px_root_planned, px_a_planned, px_z_planned, px_b_planned] px_a_planned = 1"
  "parentDirNum [px_root_planned, px_a_planned, px_z_planned, px_b_planned] px_z_planned = 2"
  "parentDirNum [px_root_planned, px_a_planned, px_z_planned, px_b_planned] px_b_planned = 1"
  by (simp_all add: parentDirNum_def)

lemma px_pathTableDirs:
  "pathTableDirs [px_root_planned, px_a_planned, px_z_planned, px_b_planned] =
     [px_root_planned, px_a_planned, px_z_planned, px_b_planned]"
  by (simp add: pathTableDirs_def)

lemma px_sorted_L:
  "sortedPathTableDirs [px_root_planned, px_a_planned, px_z_planned, px_b_planned] j False =
     [px_root_planned, px_a_planned, px_z_planned, px_b_planned]"
  unfolding sortedPathTableDirs_def px_pathTableDirs
  by (simp add: sort_Slice_def pathTableLess_L)

lemma px_sorted_M:
  "sortedPathTableDirs [px_root_planned, px_a_planned, px_z_planned, px_b_planned] j True =
     [px_root_planned, px_a_planned, px_b_planned, px_z_planned]"
  unfolding sortedPathTableDirs_def px_pathTableDirs
  by (simp add: sort_Slice_def pathTableLess_M px_parents px_identifiers)

lemma px_marshal:
  "marshalPathTableRecord
      \<lparr> ptExtendedAttributeRecordLength = 0, LocationOfExtent = v, ParentDirectoryNumber = n \<rparr>
      [c] be =
   (if be then [1, 0] @ be32 v @ be16 n @ [c, 0] else [1, 0] @ le32 v @ le16 n @ [c, 0])"
  "marshalPathTableRecord
      \<lparr> ptExtendedAttributeRecordLength = 0, LocationOfExtent = v, ParentDirectoryNumber = n \<rparr>
      [c, d] be =
   (if be then [2, 0] @ be32 v @ be16 n @ [c, d] else [2, 0] @ le32 v @ le16 n @ [c, d])"
proof -
  have r: "replicate 10 (0 :: byte) = [0, 0, 0, 0, 0, 0, 0, 0, 0, 0]"
    by (simp add: numeral_eq_Suc)
  show "marshalPathTableRecord
      \<lparr> ptExtendedAttributeRecordLength = 0, LocationOfExtent = v, ParentDirectoryNumber = n \<rparr>
      [c] be =
   (if be then [1, 0] @ be32 v @ be16 n @ [c, 0] else [1, 0] @ le32 v @ le16 n @ [c, 0])"
    by (simp add: marshalPathTableRecord_def Let_def ptRecFixedPartSize_def copy_at_def
        le16_def be16_def le32_def be32_def r)
  show "marshalPathTableRecord
      \<lparr> ptExtendedAttributeRecordLength = 0, LocationOfExtent = v, ParentDirectoryNumber = n \<rparr>
      [c, d] be =
   (if be then [2, 0] @ be32 v @ be16 n @ [c, d] else [2, 0] @ le32 v @ le16 n @ [c, d])"
    by (simp add: marshalPathTableRecord_def Let_def ptRecFixedPartSize_def copy_at_def
        le16_def be16_def le32_def be32_def r)
qed

lemma px_records:
  "pathTableRecord [px_root_planned, px_a_planned, px_z_planned, px_b_planned] j be px_root_planned =
     (if be then [1, 0] @ be32 (if j then 31 else 27) @ [0, 1, 0, 0]
      else [1, 0] @ le32 (if j then 31 else 27) @ [1, 0, 0, 0])"
  "pathTableRecord [px_root_planned, px_a_planned, px_z_planned, px_b_planned] j be px_a_planned =
     (if j then (if be then [2, 0] @ be32 32 @ [0, 1, 0, 97] else [2, 0] @ le32 32 @ [1, 0, 0, 97])
      else (if be then [1, 0] @ be32 28 @ [0, 1, 65, 0] else [1, 0] @ le32 28 @ [1, 0, 65, 0]))"
  "pathTableRecord [px_root_planned, px_a_planned, px_z_planned, px_b_planned] j be px_z_planned =
     (if j then (if be then [2, 0] @ be32 33 @ [0, 2, 0, 122] else [2, 0] @ le32 33 @ [2, 0, 0, 122])
      else (if be then [1, 0] @ be32 29 @ [0, 2, 90, 0] else [1, 0] @ le32 29 @ [2, 0, 90, 0]))"
  "pathTableRecord [px_root_planned, px_a_planned, px_z_planned, px_b_planned] j be px_b_planned =
     (if j then (if be then [2, 0] @ be32 34 @ [0, 1, 0, 98] else [2, 0] @ le32 34 @ [1, 0, 0, 98])
      else (if be then [1, 0] @ be32 30 @ [0, 1, 66, 0] else [1, 0] @ le32 30 @ [1, 0, 66, 0]))"
  unfolding pathTableRecord_def Let_def px_identifiers px_parents
  by (simp_all add: px_marshal le16_def be16_def)

lemma px_pathTable:
  "createPathTable [px_root_planned, px_a_planned, px_z_planned, px_b_planned] False False =
     Inr (pvdPathTableLData px_plan)"
  "createPathTable [px_root_planned, px_a_planned, px_z_planned, px_b_planned] False True =
     Inr (pvdPathTableMData px_plan)"
  "createPathTable [px_root_planned, px_a_planned, px_z_planned, px_b_planned] True False =
     Inr (svdPathTableLData px_plan)"
  "createPathTable [px_root_planned, px_a_planned, px_z_planned, px_b_planned] True True =
     Inr (svdPathTableMData px_plan)"
  unfolding createPathTable_def px_pathTableDirs px_sorted_L px_sorted_M
  by (simp_all add: px_records px_plan_def le32_def be32_def)

lemma px_pregenerate:
  assumes "fileEntries b = [px_root_planned, px_a_planned, px_z_planned, px_b_planned]"
  shows "pregeneratePathTables b =
     Inr (b\<lparr>pvdPathTableLData := pvdPathTableLData px_plan,
            pvdPathTableMData := pvdPathTableMData px_plan,
            svdPathTableLData := svdPathTableLData px_plan,
            svdPathTableMData := svdPathTableMData px_plan\<rparr>)"
proof -
  have p: "calculatePathTableTotalBytes [px_root_planned, px_a_planned, px_z_planned, px_b_planned] j = 40"
    for j by (rule px_pt_bytes) simp_all
  have l: "length (pvdPathTableLData px_plan) = 40" "length (pvdPathTableMData px_plan) = 40"
    "length (svdPathTableLData px_plan) = 40" "length (svdPathTableMData px_plan) = 40"
    by (simp_all add: px_plan_def)
  show ?thesis
    unfolding pregeneratePathTables_def assms px_pathTable
    by (simp add: bind_def Let_def assms p l del: calculatePathTableTotalBytes.simps)
qed

lemma px_layout: "calculateLayout (NewBuilder [px_root, px_a, px_z, px_b]) = Inr px_plan"
proof -
  let ?sized = "[px_sized px_root_named, px_sized px_a_named, px_sized px_z_named,
                 px_sized px_b_named]"
  let ?b2 = "(NewBuilder ?sized)\<lparr>pvdRootDirExtentSize := 2048, svdRootDirExtentSize := 2048\<rparr>"
  let ?b3 = "?b2\<lparr>lbaPvdPathTableL := 19, lbaPvdPathTableM := 20,
            lbaSvdPathTableL := 21, lbaSvdPathTableM := 22,
            lbaPvdPathTableL2 := 23, lbaPvdPathTableM2 := 24,
            lbaSvdPathTableL2 := 25, lbaSvdPathTableM2 := 26\<rparr>"
  let ?b4 = "?b3\<lparr>fileEntries := [px_root_planned, px_a_planned, px_z_planned, px_b_planned]\<rparr>"
  have f2: "fileEntries ?b2 = ?sized" by (simp add: NewBuilder_def)
  have f3: "fileEntries ?b3 = ?sized" by (simp add: NewBuilder_def)
  have f5: "fileEntries (?b4\<lparr>totalSectors := 36\<rparr>) =
              [px_root_planned, px_a_planned, px_z_planned, px_b_planned]"
    by simp
  have s3: "determinePathTableLBAs ?b2 19 = (?b3, 27)"
    by (rule px_ptlbas[OF f2])
  have s4: "assignContentLBAs ?b3 27 = Inr (?b4, 35)"
    by (rule px_content[OF f3])
  have s5: "pregeneratePathTables (?b4\<lparr>totalSectors := 36\<rparr>) = Inr px_plan"
    unfolding px_pregenerate[OF f5] by (simp add: px_plan_def NewBuilder_def)
  show ?thesis
    unfolding calculateLayout_def Let_def px_assign px_sizes
    by (simp add: bind_def SystemAreaNumSectors_def s3 s4 s5)
qed

text \<open>
  C7, amended. For every table, the records of the L-type path table are in ascending
  order of the directories' own path-table numbers, and any two records of the M-type
  table are in
  order of their parents' path-table numbers and, under the same parent number, in
  byte-wise order of their identifiers (the UCS-2BE bytes of the Joliet name, the bytes
  of the primary name, \<open>0x00\<close> for directory number 1); each table holds one record for
  every directory of the table with a number above 0, and its bytes are these records in
  that order. For the table that the planner leaves after a scan (whatever entries have
  been marked hidden in between), when the scan has found at most 65535 directories, the
  root included: the four tables stored in the plan are these, every directory of the
  table has a record, and the primary M-type table begins with the record of the root,
  entry 0, numbered 1; so does the Joliet M-type table when every directory has a name.
\<close>

theorem path_table_order:
  "sorted_wrt (\<lambda>a b. pathTableDirNum a \<le> pathTableDirNum b)
     (sortedPathTableDirs es isJoliet False)
   \<and> sorted_wrt (\<lambda>a b. parentDirNum es a < parentDirNum es b
          \<or> (parentDirNum es a = parentDirNum es b
              \<and> \<not> bytes_less (pathTableIdentifier isJoliet b) (pathTableIdentifier isJoliet a)))
       (sortedPathTableDirs es isJoliet True)
   \<and> count_list (sortedPathTableDirs es isJoliet useBigEndian) d =
       count_list (filter (\<lambda>fe. isDir fe \<and> 0 < pathTableDirNum fe) es) d
   \<and> (createPathTable es isJoliet useBigEndian = Inr table \<longrightarrow>
        table = concat (map (pathTableRecord es isJoliet useBigEndian)
                         (sortedPathTableDirs es isJoliet useBigEndian)))
   \<and> (ScanSourceDirectory src = Inr es0 \<and> dirCount es0 \<le> 65535
        \<and> (isJoliet \<longrightarrow> list_all (\<lambda>f. isDir f \<longrightarrow> originalName f \<noteq> []) es0)
        \<and> map unhide (fileEntries b) = map unhide es0 \<and> calculateLayout b = Inr p \<longrightarrow>
        createPathTable (fileEntries p) False False = Inr (pvdPathTableLData p)
        \<and> createPathTable (fileEntries p) False True = Inr (pvdPathTableMData p)
        \<and> createPathTable (fileEntries p) True False = Inr (svdPathTableLData p)
        \<and> createPathTable (fileEntries p) True True = Inr (svdPathTableMData p)
        \<and> pathTableDirs (fileEntries p) = filter isDir (fileEntries p)
        \<and> sortedPathTableDirs (fileEntries p) isJoliet True \<noteq> []
        \<and> hd (sortedPathTableDirs (fileEntries p) isJoliet True) = fileEntries p ! 0
        \<and> pathTableDirNum (fileEntries p ! 0) = 1)"
proof -
  have c: "count_list (sortedPathTableDirs es isJoliet useBigEndian) d =
       count_list (filter (\<lambda>fe. isDir fe \<and> 0 < pathTableDirNum fe) es) d"
    by (simp add: sortedPathTableDirs_def pathTableDirs_def count_list_sort_Slice)
  show ?thesis
    using sorted_L[of es isJoliet] sorted_M[of es isJoliet] c
      createPathTable_records[of es isJoliet useBigEndian table]
      calculateLayout_pathTables[of b p]
      planned_root_first[where j = isJoliet and src = src and b = b and p = p]
    by blast
qed

text \<open>
  C7 on the third example: of the four directories, numbered 1 to 4 in the order root,
  \<open>a\<close>, \<open>z\<close>, \<open>b\<close>, the L-type table lists them in this order, and the primary M-type table
  lists the root, then \<open>A\<close> and \<open>B\<close> under parent 1, then \<open>Z\<close> under parent 2.
\<close>

theorem path_table_order_witness:
  "ScanSourceDirectory px_tree = Inr [px_root, px_a, px_z, px_b]
   \<and> dirCount [px_root, px_a, px_z, px_b] \<le> 65535
   \<and> list_all (\<lambda>f. isDir f \<longrightarrow> originalName f \<noteq> []) [px_root, px_a, px_z, px_b]
   \<and> calculateLayout (NewBuilder [px_root, px_a, px_z, px_b]) = Inr px_plan
   \<and> sortedPathTableDirs (fileEntries px_plan) False False =
       [px_root_planned, px_a_planned, px_z_planned, px_b_planned]
   \<and> sortedPathTableDirs (fileEntries px_plan) False True =
       [px_root_planned, px_a_planned, px_b_planned, px_z_planned]
   \<and> count_list [px_root_planned, px_a_planned, px_b_planned, px_z_planned] px_z_planned =
       count_list [px_root_planned, px_a_planned, px_z_planned, px_b_planned] px_z_planned
   \<and> pathTableDirs (fileEntries px_plan) =
       [px_root_planned, px_a_planned, px_z_planned, px_b_planned]
   \<and> createPathTable (fileEntries px_plan) False True = Inr (pvdPathTableMData px_plan)
   \<and> pvdPathTableMData px_plan =
       concat (map (pathTableRecord (fileEntries px_plan) False True)
                [px_root_planned, px_a_planned, px_b_planned, px_z_planned])
   \<and> hd (sortedPathTableDirs (fileEntries px_plan) False True) = px_root_planned
   \<and> hd (sortedPathTableDirs (fileEntries px_plan) True True) = px_root_planned
   \<and> createPathTable (fileEntries px_plan) True True = Inr (svdPathTableMData px_plan)
   \<and> pathTableDirNum px_root_planned = 1"
proof -
  have m: "map unhide (fileEntries (NewBuilder [px_root, px_a, px_z, px_b])) =
             map unhide [px_root, px_a, px_z, px_b]"
    by simp
  have n: "list_all (\<lambda>f. isDir f \<longrightarrow> originalName f \<noteq> []) [px_root, px_a, px_z, px_b]"
    by (simp add: px_root_def px_a_def px_z_def px_b_def rootEntry_def newEntry_def runes_def)
  have c: "dirCount [px_root, px_a, px_z, px_b] \<le> 65535"
    by (simp add: dirCount_def)
  have f: "fileEntries px_plan = [px_root_planned, px_a_planned, px_z_planned, px_b_planned]"
    by (simp add: px_plan_def)
  from path_table_order[of "fileEntries px_plan" False True px_z_planned
      "pvdPathTableMData px_plan" px_tree "[px_root, px_a, px_z, px_b]"
      "NewBuilder [px_root, px_a, px_z, px_b]" px_plan]
    path_table_order[of "fileEntries px_plan" True True px_z_planned
      "svdPathTableMData px_plan" px_tree "[px_root, px_a, px_z, px_b]"
      "NewBuilder [px_root, px_a, px_z, px_b]" px_plan]
    px_scan px_layout m n c
  show ?thesis
    unfolding f px_sorted_L px_sorted_M by (simp add: px_pathTableDirs)
qed

section \<open>The table whose numbers have wrapped, step by step\<close>

lemma wx_fields [simp]:
  "isDir wx_root" "isDir wx_x" "isDir wx_y"
  "pathTableDirNum wx_root = 1" "pathTableDirNum wx_x = 0" "pathTableDirNum wx_y = 1"
  "parentIndex wx_root = 0" "parentIndex wx_x = 0" "parentIndex wx_y = 1"
  "iso9660Sector wx_root = 27" "iso9660Sector wx_y = 29"
  "jolietSector wx_root = 30" "jolietSector wx_y = 32"
  by (simp_all add: wx_root_def wx_x_def wx_y_def rootEntry_def newEntry_def)

lemma wx_distinct: "wx_y \<noteq> wx_root"
proof
  assume "wx_y = wx_root"
  then have "parentIndex wx_y = parentIndex wx_root" by (rule arg_cong)
  then show False by simp
qed

lemma wx_pathTableDirs: "pathTableDirs wx_table = [wx_root, wx_y]"
  by (simp add: pathTableDirs_def wx_table_def)

lemma wx_parents:
  "parentDirNum wx_table wx_root = 1" "parentDirNum wx_table wx_y = 0"
  by (simp_all add: parentDirNum_def wx_table_def)

lemma wx_sorted_M: "sortedPathTableDirs wx_table j True = [wx_y, wx_root]"
  unfolding sortedPathTableDirs_def wx_pathTableDirs
  by (simp add: sort_Slice_def pathTableLess_M wx_parents)

lemma wx_records:
  "pathTableRecord wx_table j True wx_root = [1, 0] @ be32 (if j then 30 else 27) @ [0, 1, 0, 0]"
  "pathTableRecord wx_table j True wx_y = [1, 0] @ be32 (if j then 32 else 29) @ [0, 1, 0, 0]"
  by (simp_all add: pathTableRecord_def Let_def pathTableIdentifier_def ex_marshal)

text \<open>
  C7 as stated fails on the table whose numbers have wrapped: entry 0 is the root,
  numbered 1, but both M-type tables begin with the record of \<open>y\<close>, whose parent has number
  0 (the primary table with its extent at LBA 29, before the root's at LBA 27), and \<open>x\<close>
  has no record at all.
\<close>

theorem path_table_root_not_first:
  "wx_table ! 0 = wx_root \<and> isDir wx_root \<and> pathTableDirNum wx_root = 1
   \<and> wx_y \<noteq> wx_root
   \<and> sortedPathTableDirs wx_table False True = [wx_y, wx_root]
   \<and> sortedPathTableDirs wx_table True True = [wx_y, wx_root]
   \<and> createPathTable wx_table False True =
       Inr [1, 0, 0, 0, 0, 29, 0, 1, 0, 0, 1, 0, 0, 0, 0, 27, 0, 1, 0, 0]
   \<and> createPathTable wx_table True True =
       Inr [1, 0, 0, 0, 0, 32, 0, 1, 0, 0, 1, 0, 0, 0, 0, 30, 0, 1, 0, 0]
   \<and> isDir wx_x \<and> wx_x \<in> set wx_table \<and> wx_x \<notin> set (pathTableDirs wx_table)"
proof -
  have t: "createPathTable wx_table j True =
             Inr ([1, 0] @ be32 (if j then 32 else 29) @ [0, 1, 0, 0]
                  @ [1, 0] @ be32 (if j then 30 else 27) @ [0, 1, 0, 0])" for j
    unfolding createPathTable_def wx_sorted_M wx_pathTableDirs
    by (simp add: wx_records) (simp add: wx_table_def)
  have "pathTableDirNum wx_x \<noteq> pathTableDirNum wx_root"
    "pathTableDirNum wx_x \<noteq> pathTableDirNum wx_y" by simp_all
  then have x: "wx_x \<noteq> wx_root" "wx_x \<noteq> wx_y" by metis+
  show ?thesis
    using x by (simp add: wx_sorted_M wx_distinct wx_pathTableDirs t be32_def) (simp add: wx_table_def)
qed

end
